(* ===== verification/PyPrelude.thy ===== *)
theory PyPrelude
  imports Main "HOL-Library.Sublist"
begin

text \<open>
  Shared ground of the development: the exceptions a Python script can leave with, results
  that are either an exception or a value, and the operations of Python's \<^verbatim>\<open>str\<close>
  and \<^verbatim>\<open>os.path\<close> that the scripts use.  Strings are lists of characters with
  code points below 256; one list element is one Python character.
\<close>

named_theorems py_simps \<open>equations that evaluate results and string operations\<close>

subsection \<open>Exceptions and results\<close>

datatype pyexc =
    SystemExit int
  | KeyError string
  | AttributeError string
  | TypeError
  | ValueError
  | AssertionError string
  | NameError string
  | IndexError
  | ReError
  | OSError
  | ZeroDivisionError
  | OverflowError

type_synonym 'a res = "pyexc + 'a"

definition bindE :: "'a res \<Rightarrow> ('a \<Rightarrow> 'b res) \<Rightarrow> 'b res" where
  "bindE m f = (case m of Inl e \<Rightarrow> Inl e | Inr x \<Rightarrow> f x)"

lemma bindE_simps [simp, py_simps]:
  "bindE (Inl e) f = Inl e"
  "bindE (Inr x) f = f x"
  by (simp_all add: bindE_def)

lemma bindE_eq_Inr: "bindE m f = Inr y \<longleftrightarrow> (\<exists>x. m = Inr x \<and> f x = Inr y)"
  by (cases m) simp_all

lemma bindE_eq_Inl: "bindE m f = Inl e \<longleftrightarrow> m = Inl e \<or> (\<exists>x. m = Inr x \<and> f x = Inl e)"
  by (cases m) simp_all

lemma bindE_assoc: "bindE (bindE m f) g = bindE m (\<lambda>x. bindE (f x) g)"
  by (cases m) simp_all

lemma bindE_cong [fundef_cong]:
  "m = m' \<Longrightarrow> (\<And>x. m' = Inr x \<Longrightarrow> f x = f' x) \<Longrightarrow> bindE m f = bindE m' f'"
  by (cases m') simp_all

definition assertE :: "bool \<Rightarrow> string \<Rightarrow> unit res" where
  "assertE b msg = (if b then Inr () else Inl (AssertionError msg))"

lemma assertE_simps [simp, py_simps]:
  "assertE True msg = Inr ()"
  "assertE False msg = Inl (AssertionError msg)"
  "assertE b msg = Inr u \<longleftrightarrow> b"
  by (simp_all add: assertE_def)

definition is_ok :: "'a res \<Rightarrow> bool" where
  "is_ok m = (case m of Inl e \<Rightarrow> False | Inr x \<Rightarrow> True)"

lemma is_ok_Inr: "is_ok m \<longleftrightarrow> (\<exists>x. m = Inr x)"
  by (simp add: is_ok_def split: sum.splits)

text \<open>A \<^verbatim>\<open>for\<close> loop whose body can raise: the first exception ends it.\<close>

primrec foldE :: "('s \<Rightarrow> 'a \<Rightarrow> 's res) \<Rightarrow> 's \<Rightarrow> 'a list \<Rightarrow> 's res" where
  "foldE f s [] = Inr s"
| "foldE f s (x # xs) = bindE (f s x) (\<lambda>s'. foldE f s' xs)"

primrec mapE :: "('a \<Rightarrow> 'b res) \<Rightarrow> 'a list \<Rightarrow> 'b list res" where
  "mapE f [] = Inr []"
| "mapE f (x # xs) = bindE (f x) (\<lambda>y. bindE (mapE f xs) (\<lambda>ys. Inr (y # ys)))"

lemma foldE_append: "foldE f s (xs @ ys) = bindE (foldE f s xs) (\<lambda>t. foldE f t ys)"
  by (induction xs arbitrary: s) (simp_all add: bindE_assoc)

lemma foldE_invariant:
  assumes "foldE f s xs = Inr t" and "P s"
    and "\<And>s x s'. x \<in> set xs \<Longrightarrow> P s \<Longrightarrow> f s x = Inr s' \<Longrightarrow> P s'"
  shows "P t"
  using assms
proof (induction xs arbitrary: s)
  case Nil
  then show ?case by simp
next
  case (Cons x xs)
  then obtain s' where s': "f s x = Inr s'" and t: "foldE f s' xs = Inr t"
    by (auto simp: bindE_eq_Inr)
  have "P s'" by (rule Cons.prems(3)[OF _ Cons.prems(2) s']) simp
  show ?case by (rule Cons.IH[OF t \<open>P s'\<close>]) (use Cons.prems(3) in auto)
qed

lemma foldE_Inl: "foldE f s xs = Inl e \<Longrightarrow> \<exists>x \<in> set xs. \<exists>s'. f s' x = Inl e"
  by (induction xs arbitrary: s) (auto simp: bindE_eq_Inl)

lemma mapE_Inr: "(\<And>x. x \<in> set xs \<Longrightarrow> f x = Inr (g x)) \<Longrightarrow> mapE f xs = Inr (map g xs)"
  by (induction xs) simp_all

lemma mapE_eq_Inr_length: "mapE f xs = Inr ys \<Longrightarrow> length ys = length xs"
  by (induction xs arbitrary: ys) (auto simp: bindE_eq_Inr)

text \<open>An optional string argument used as a condition: neither absent nor empty.\<close>

definition given :: "string option \<Rightarrow> bool" where
  "given x \<longleftrightarrow> x \<noteq> None \<and> x \<noteq> Some []"

subsection \<open>Characters\<close>

abbreviation nl :: char where "nl \<equiv> CHR 0x0A"
abbreviation tab :: char where "tab \<equiv> CHR 0x09"
abbreviation backslash :: char where "backslash \<equiv> CHR 0x5C"
abbreviation quote1 :: char where "quote1 \<equiv> CHR 0x27"
abbreviation quote2 :: char where "quote2 \<equiv> CHR 0x22"

text \<open>What \<^verbatim>\<open>str.isspace\<close> and \<^verbatim>\<open>\s\<close> accept below code point 256.\<close>

definition is_ws :: "char \<Rightarrow> bool" where
  "is_ws c \<longleftrightarrow> c \<in> set [CHR 0x09, CHR 0x0A, CHR 0x0B, CHR 0x0C, CHR 0x0D,
     CHR 0x1C, CHR 0x1D, CHR 0x1E, CHR 0x1F, CHR 0x20, CHR 0x85, CHR 0xA0]"

definition is_digit :: "char \<Rightarrow> bool" where
  "is_digit c \<longleftrightarrow> c \<in> set ''0123456789''"

definition is_hex :: "char \<Rightarrow> bool" where
  "is_hex c \<longleftrightarrow> c \<in> set ''0123456789abcdef''"

definition is_lower :: "char \<Rightarrow> bool" where
  "is_lower c \<longleftrightarrow> c \<in> set ''abcdefghijklmnopqrstuvwxyz''"

text \<open>
  What \<^verbatim>\<open>\w\<close> accepts in a pattern for \<^verbatim>\<open>str\<close>: beside the ASCII
  letters, digits and the underscore the letters, superscript digits and fractions of Latin-1.
\<close>

definition latin1_alnum :: "char \<Rightarrow> bool" where
  "latin1_alnum c \<longleftrightarrow>
     (let n = of_char c :: nat
      in n \<in> set [0xAA, 0xB2, 0xB3, 0xB5, 0xB9, 0xBA, 0xBC, 0xBD, 0xBE]
         \<or> (0xC0 \<le> n \<and> n \<noteq> 0xD7 \<and> n \<noteq> 0xF7))"

definition is_word :: "char \<Rightarrow> bool" where
  "is_word c \<longleftrightarrow>
     c \<in> set ''abcdefghijklmnopqrstuvwxyzABCDEFGHIJKLMNOPQRSTUVWXYZ0123456789_'' \<or> latin1_alnum c"

lemmas char_class_defs = is_ws_def is_digit_def is_hex_def is_lower_def is_word_def

lemma is_hex_not_ws: "is_hex c \<Longrightarrow> \<not> is_ws c"
  by (auto simp: char_class_defs)

lemma is_lower_not_ws: "is_lower c \<Longrightarrow> \<not> is_ws c"
  by (auto simp: char_class_defs)

lemma is_digit_not_ws: "is_digit c \<Longrightarrow> \<not> is_ws c"
  by (auto simp: char_class_defs)

text \<open>\<^verbatim>\<open>str.upper\<close> and \<^verbatim>\<open>str.lower\<close> on ASCII letters; other characters are kept.\<close>

definition upper_char :: "char \<Rightarrow> char" where
  "upper_char c =
     (case map_of (zip ''abcdefghijklmnopqrstuvwxyz'' ''ABCDEFGHIJKLMNOPQRSTUVWXYZ'') c of
        None \<Rightarrow> c | Some u \<Rightarrow> u)"

definition lower_char :: "char \<Rightarrow> char" where
  "lower_char c =
     (case map_of (zip ''ABCDEFGHIJKLMNOPQRSTUVWXYZ'' ''abcdefghijklmnopqrstuvwxyz'') c of
        None \<Rightarrow> c | Some u \<Rightarrow> u)"

definition py_upper :: "string \<Rightarrow> string" where
  "py_upper s = map upper_char s"

definition py_lower :: "string \<Rightarrow> string" where
  "py_lower s = map lower_char s"

lemma map_of_zip_chars:
  "map_of (zip xs ys) c = Some u \<Longrightarrow> c \<in> set xs \<and> u \<in> set ys"
  by (metis map_of_SomeD set_zip_leftD set_zip_rightD)

lemma upper_char_keeps: "c \<notin> set ''abcdefghijklmnopqrstuvwxyz'' \<Longrightarrow> upper_char c = c"
  by (auto simp: upper_char_def split: option.splits dest!: map_of_zip_chars)

lemma upper_char_cases: "upper_char c = c \<or> upper_char c \<in> set ''ABCDEFGHIJKLMNOPQRSTUVWXYZ''"
  by (auto simp: upper_char_def split: option.splits dest!: map_of_zip_chars)

lemma upper_char_neq:
  "d \<notin> set ''ABCDEFGHIJKLMNOPQRSTUVWXYZ'' \<Longrightarrow> c \<noteq> d \<Longrightarrow> upper_char c \<noteq> d"
  using upper_char_cases[of c] by auto

subsection \<open>Stripping\<close>

definition lstrip_of :: "(char \<Rightarrow> bool) \<Rightarrow> string \<Rightarrow> string" where
  "lstrip_of P s = dropWhile P s"

definition rstrip_of :: "(char \<Rightarrow> bool) \<Rightarrow> string \<Rightarrow> string" where
  "rstrip_of P s = rev (dropWhile P (rev s))"

definition py_rstrip :: "string \<Rightarrow> string" where
  "py_rstrip s = rstrip_of is_ws s"

definition py_strip :: "string \<Rightarrow> string" where
  "py_strip s = rstrip_of is_ws (lstrip_of is_ws s)"

definition py_strip_char :: "char \<Rightarrow> string \<Rightarrow> string" where
  "py_strip_char c s = rstrip_of ((=) c) (lstrip_of ((=) c) s)"

lemma rstrip_of_set: "set (rstrip_of P s) \<subseteq> set s"
  by (auto simp: rstrip_of_def dest: set_dropWhileD)

lemma lstrip_of_set: "set (lstrip_of P s) \<subseteq> set s"
  by (auto simp: lstrip_of_def dest: set_dropWhileD)

lemma py_strip_set: "set (py_strip s) \<subseteq> set s"
  unfolding py_strip_def using rstrip_of_set lstrip_of_set by (metis subset_trans)

lemma py_rstrip_set: "set (py_rstrip s) \<subseteq> set s"
  unfolding py_rstrip_def by (rule rstrip_of_set)

lemma rstrip_of_id: "s = [] \<or> \<not> P (last s) \<Longrightarrow> rstrip_of P s = s"
  by (cases s rule: rev_cases) (auto simp: rstrip_of_def)

lemma rstrip_of_last: "rstrip_of P s = [] \<or> \<not> P (last (rstrip_of P s))"
  unfolding rstrip_of_def
  by (metis hd_dropWhile last_rev rev.simps(1) rev_rev_ident)

lemma lstrip_of_id: "s = [] \<or> \<not> P (hd s) \<Longrightarrow> lstrip_of P s = s"
  by (cases s) (auto simp: lstrip_of_def)

lemma py_strip_id:
  "s = [] \<or> (\<not> is_ws (hd s) \<and> \<not> is_ws (last s)) \<Longrightarrow> py_strip s = s"
  by (auto simp: py_strip_def rstrip_of_id lstrip_of_id)

lemma rstrip_of_prefix: "prefix (rstrip_of P s) s"
  unfolding rstrip_of_def prefix_def
  by (metis rev_append rev_rev_ident takeWhile_dropWhile_id)

lemma py_strip_hd: "py_strip s \<noteq> [] \<Longrightarrow> \<not> is_ws (hd (py_strip s))"
proof -
  assume ne: "py_strip s \<noteq> []"
  let ?t = "dropWhile is_ws s"
  have "prefix (py_strip s) ?t"
    using rstrip_of_prefix by (simp add: py_strip_def lstrip_of_def)
  then obtain u where u: "?t = py_strip s @ u" by (auto simp: prefix_def)
  with ne have "hd ?t = hd (py_strip s)" and "?t \<noteq> []" by simp_all
  then show ?thesis using hd_dropWhile[of is_ws s] by metis
qed

lemma py_strip_last: "py_strip s \<noteq> [] \<Longrightarrow> \<not> is_ws (last (py_strip s))"
  using rstrip_of_last by (metis py_strip_def)

lemma py_strip_idem [simp]: "py_strip (py_strip s) = py_strip s"
  by (rule py_strip_id) (use py_strip_hd py_strip_last in blast)

subsection \<open>Splitting and joining\<close>

text \<open>\<^verbatim>\<open>s.split(c)\<close> for a one-character separator: always at least one piece.\<close>

fun split_on :: "char \<Rightarrow> string \<Rightarrow> string list" where
  "split_on c [] = [[]]"
| "split_on c (x # xs) =
     (if x = c then [] # split_on c xs
      else (case split_on c xs of [] \<Rightarrow> [[x]] | p # ps \<Rightarrow> (x # p) # ps))"

fun py_join :: "string \<Rightarrow> string list \<Rightarrow> string" where
  "py_join sep [] = []"
| "py_join sep [x] = x"
| "py_join sep (x # y # zs) = x @ sep @ py_join sep (y # zs)"

lemma split_on_ne [simp]: "split_on c s \<noteq> []"
  by (induction s) (auto split: list.splits)

lemma py_join_Cons: "xs \<noteq> [] \<Longrightarrow> py_join sep (x # xs) = x @ sep @ py_join sep xs"
  by (cases xs) simp_all

lemma join_split: "py_join [c] (split_on c s) = s"
proof (induction s)
  case (Cons x xs)
  then show ?case
    by (cases "split_on c xs" rule: list.exhaust; cases "tl (split_on c xs)")
       (auto simp: py_join_Cons)
qed simp

lemma split_on_no_sep: "p \<in> set (split_on c s) \<Longrightarrow> c \<notin> set p"
  by (induction s arbitrary: p) (auto split: list.splits if_splits)

lemma split_on_chars: "p \<in> set (split_on c s) \<Longrightarrow> set p \<subseteq> set s"
proof (induction s arbitrary: p)
  case (Cons x xs)
  then show ?case by (fastforce split: list.splits if_splits)
qed simp

lemma split_on_clean: "c \<notin> set s \<Longrightarrow> split_on c s = [s]"
  by (induction s) auto

lemma split_on_append: "c \<notin> set p \<Longrightarrow> split_on c (p @ c # s) = p # split_on c s"
  by (induction p) auto

lemma split_join:
  "xs \<noteq> [] \<Longrightarrow> (\<And>p. p \<in> set xs \<Longrightarrow> c \<notin> set p) \<Longrightarrow> split_on c (py_join [c] xs) = xs"
proof (induction xs)
  case (Cons x xs)
  show ?case
  proof (cases "xs = []")
    case True
    with Cons.prems show ?thesis by (simp add: split_on_clean)
  next
    case False
    with Cons show ?thesis by (simp add: py_join_Cons split_on_append)
  qed
qed simp

lemma length_split_on: "length (split_on c s) = Suc (count_list s c)"
  by (induction s) (auto split: list.splits)

text \<open>\<^verbatim>\<open>s.split()\<close>: maximal runs of characters that are not white space.\<close>

fun split_ws_aux :: "string \<Rightarrow> string \<Rightarrow> string list" where
  "split_ws_aux acc [] = (if acc = [] then [] else [rev acc])"
| "split_ws_aux acc (x # xs) =
     (if is_ws x then (if acc = [] then split_ws_aux [] xs else rev acc # split_ws_aux [] xs)
      else split_ws_aux (x # acc) xs)"

definition split_ws :: "string \<Rightarrow> string list" where
  "split_ws s = split_ws_aux [] s"

lemma split_ws_aux_words:
  "list_all (\<lambda>c. \<not> is_ws c) acc \<Longrightarrow>
   list_all (\<lambda>w. w \<noteq> [] \<and> list_all (\<lambda>c. \<not> is_ws c) w) (split_ws_aux acc s)"
  by (induction s arbitrary: acc) simp_all

lemma split_ws_words:
  "w \<in> set (split_ws s) \<Longrightarrow> w \<noteq> [] \<and> list_all (\<lambda>c. \<not> is_ws c) w"
  using split_ws_aux_words[of "[]" s] by (auto simp: split_ws_def list_all_iff)

text \<open>The lines of a text file, as iterating over it yields them, without the newline.\<close>

definition file_lines :: "string \<Rightarrow> string list" where
  "file_lines s = (let ls = split_on nl s in if last ls = [] then butlast ls else ls)"

lemma file_lines_no_nl: "l \<in> set (file_lines s) \<Longrightarrow> nl \<notin> set l"
  by (auto simp: file_lines_def Let_def split: if_splits dest: in_set_butlastD split_on_no_sep)

text \<open>The text of a file with the given lines.\<close>

definition unlines :: "string list \<Rightarrow> string" where
  "unlines ls = concat (map (\<lambda>l. l @ [nl]) ls)"

lemma unlines_append: "unlines (xs @ ys) = unlines xs @ unlines ys"
  by (simp add: unlines_def)

lemma file_lines_unlines:
  "(\<And>l. l \<in> set ls \<Longrightarrow> nl \<notin> set l) \<Longrightarrow> file_lines (concat (map (\<lambda>l. l @ [nl]) ls)) = ls"
proof -
  assume "\<And>l. l \<in> set ls \<Longrightarrow> nl \<notin> set l"
  then have "split_on nl (concat (map (\<lambda>l. l @ [nl]) ls)) = ls @ [[]]"
    by (induction ls) (simp_all add: split_on_append)
  then show ?thesis by (simp add: file_lines_def)
qed

subsection \<open>Searching and replacing\<close>

fun py_contains :: "string \<Rightarrow> string \<Rightarrow> bool" where
  "py_contains n [] = (n = [])"
| "py_contains n (x # xs) = (prefix n (x # xs) \<or> py_contains n xs)"

lemma py_contains_iff: "py_contains n s \<longleftrightarrow> (\<exists>a b. s = a @ n @ b)"
proof (induction s)
  case (Cons x xs)
  show ?case
  proof
    assume "py_contains n (x # xs)"
    then show "\<exists>a b. x # xs = a @ n @ b"
      using Cons.IH by (metis append_Cons append_Nil prefix_def py_contains.simps(2))
  next
    assume "\<exists>a b. x # xs = a @ n @ b"
    then obtain a b where ab: "x # xs = a @ n @ b" by blast
    show "py_contains n (x # xs)"
    proof (cases a)
      case Nil
      with ab have "prefix n (x # xs)" by (simp add: prefix_def)
      then show ?thesis by simp
    next
      case (Cons y ys)
      with ab have "xs = ys @ n @ b" by simp
      then show ?thesis using Cons.IH by auto
    qed
  qed
qed auto

lemma py_contains_append: "py_contains n s \<Longrightarrow> py_contains n (a @ s @ b)"
  by (metis append.assoc py_contains_iff)

lemma py_contains_self: "py_contains n (a @ n @ b)"
  by (auto simp: py_contains_iff)

definition py_endswith :: "string \<Rightarrow> string \<Rightarrow> bool" where
  "py_endswith s e \<longleftrightarrow> suffix e s"

text \<open>
  \<^verbatim>\<open>s.replace(old, new)\<close>, and \<^verbatim>\<open>re.sub\<close> with a pattern that is a literal:
  left to right, without overlaps, for a non-empty \<open>old\<close>.
\<close>

function replace_all :: "string \<Rightarrow> string \<Rightarrow> string \<Rightarrow> string" where
  "replace_all old new [] = []"
| "replace_all old new (x # xs) =
     (if old \<noteq> [] \<and> prefix old (x # xs)
      then new @ replace_all old new (drop (length old) (x # xs))
      else x # replace_all old new xs)"
  by pat_completeness auto
termination
  by (relation "measure (\<lambda>(old, new, s). length s)") auto

lemma replace_all_absent: "old \<noteq> [] \<Longrightarrow> \<not> py_contains old s \<Longrightarrow> replace_all old new s = s"
  by (induction s) auto

lemma replace_all_head:
  "old \<noteq> [] \<Longrightarrow> replace_all old new (old @ s) = new @ replace_all old new s"
  by (cases old) (auto simp: prefix_def)

lemma replace_all_self: "replace_all old old s = s"
proof (induction s rule: length_induct)
  case (1 s)
  show ?case
  proof (cases s)
    case (Cons x xs)
    have "old \<noteq> [] \<Longrightarrow> length (drop (length old) (x # xs)) < length s"
      using Cons by (cases old) simp_all
    with 1 Cons show ?thesis by (auto simp: prefix_def)
  qed simp
qed

text \<open>\<^verbatim>\<open>s.find(c)\<close>: the first index, or -1.\<close>

fun py_find :: "char \<Rightarrow> string \<Rightarrow> int" where
  "py_find c [] = -1"
| "py_find c (x # xs) = (if x = c then 0 else (let i = py_find c xs in if i < 0 then -1 else i + 1))"

subsection \<open>Numbers as text\<close>

definition digit_char :: "nat \<Rightarrow> char" where
  "digit_char d = ''0123456789'' ! d"

fun show_nat :: "nat \<Rightarrow> string" where
  "show_nat n = (if n < 10 then [digit_char n] else show_nat (n div 10) @ [digit_char (n mod 10)])"

declare show_nat.simps [simp del]

definition show_int :: "int \<Rightarrow> string" where
  "show_int i = (if i < 0 then CHR ''-'' # show_nat (nat (- i)) else show_nat (nat i))"

definition digit_val :: "char \<Rightarrow> nat" where
  "digit_val c = (case map_of (zip ''0123456789abcdef'' [0..<16]) c of None \<Rightarrow> 0 | Some d \<Rightarrow> d)"

definition digits_val :: "nat \<Rightarrow> string \<Rightarrow> nat" where
  "digits_val base s = foldl (\<lambda>n c. base * n + digit_val c) 0 s"

lemma less_10_cases:
  "(n::nat) < 10 \<Longrightarrow> n = 0 \<or> n = 1 \<or> n = 2 \<or> n = 3 \<or> n = 4 \<or> n = 5 \<or> n = 6 \<or> n = 7 \<or> n = 8 \<or> n = 9"
  by arith

lemma digit_val_digit_char: "d < 10 \<Longrightarrow> digit_val (digit_char d) = d"
  by (drule less_10_cases) (auto simp: digit_val_def digit_char_def upt_conv_Cons)

lemma digit_char_digit: "d < 10 \<Longrightarrow> is_digit (digit_char d)"
  by (drule less_10_cases) (auto simp: is_digit_def digit_char_def)

lemma show_nat_ne [simp]: "show_nat n \<noteq> []"
  by (subst show_nat.simps) simp

lemma show_nat_digits: "c \<in> set (show_nat n) \<Longrightarrow> is_digit c"
proof (induction n rule: show_nat.induct)
  case (1 n)
  show ?case
  proof (cases "n < 10")
    case True
    with "1.prems" show ?thesis by (simp add: show_nat.simps[of n] digit_char_digit)
  next
    case False
    with "1.prems" have "c \<in> set (show_nat (n div 10)) \<or> c = digit_char (n mod 10)"
      by (auto simp: show_nat.simps[of n])
    with "1.IH" False show ?thesis by (auto simp: digit_char_digit)
  qed
qed

lemma digits_val_snoc: "digits_val b (s @ [c]) = b * digits_val b s + digit_val c"
  by (simp add: digits_val_def)

lemma digits_val_show_nat: "digits_val 10 (show_nat n) = n"
proof (induction n rule: show_nat.induct)
  case (1 n)
  show ?case
  proof (cases "n < 10")
    case True
    then show ?thesis
      by (simp add: show_nat.simps[of n] digits_val_def digit_val_digit_char)
  next
    case False
    with "1.IH" show ?thesis
      by (simp add: show_nat.simps[of n] digits_val_snoc digit_val_digit_char)
  qed
qed

lemma show_nat_inject [simp]: "show_nat m = show_nat n \<longleftrightarrow> m = n"
  by (metis digits_val_show_nat)

text \<open>
  \<^verbatim>\<open>int(s)\<close> on a string: white space around it, an optional sign, digits with single
  underscores between them; anything else is a \<^verbatim>\<open>ValueError\<close>.
\<close>

definition py_int :: "string \<Rightarrow> int res" where
  "py_int s =
     (let t = py_strip s;
          neg = (t \<noteq> [] \<and> hd t = CHR ''-'');
          body = (if t \<noteq> [] \<and> (hd t = CHR ''-'' \<or> hd t = CHR ''+'') then tl t else t);
          ps = split_on (CHR ''_'') body
      in if list_all (\<lambda>p. p \<noteq> [] \<and> list_all is_digit p) ps
         then Inr ((if neg then -1 else 1) * int (digits_val 10 (concat ps)))
         else Inl ValueError)"

lemma is_digit_plain: "is_digit c \<Longrightarrow> c \<noteq> CHR ''-'' \<and> c \<noteq> CHR ''+'' \<and> c \<noteq> CHR ''_'' \<and> \<not> is_ws c"
  by (auto simp: char_class_defs)

lemma digits_strip: "s \<noteq> [] \<Longrightarrow> list_all is_digit s \<Longrightarrow> py_strip s = s"
  by (rule py_strip_id) (simp add: list_all_iff is_digit_plain)

lemma py_int_digits:
  assumes "s \<noteq> []" and "list_all is_digit s"
  shows "py_int s = Inr (int (digits_val 10 s))"
proof -
  have "is_digit (hd s)" using assms by (cases s) simp_all
  then have hd: "hd s \<noteq> CHR ''-''" "hd s \<noteq> CHR ''+''" using is_digit_plain by blast+
  have us: "CHR ''_'' \<notin> set s"
    using assms is_digit_plain by (metis list_all_iff)
  show ?thesis using assms hd us
    by (simp add: py_int_def Let_def digits_strip split_on_clean)
qed

lemma py_int_show_nat: "py_int (show_nat n) = Inr (int n)"
  by (subst py_int_digits) (simp_all add: list_all_iff show_nat_digits digits_val_show_nat)

subsection \<open>Paths\<close>

text \<open>
  The POSIX functions of \<^verbatim>\<open>os.path\<close>: \<open>path_join\<close>, \<open>normpath\<close>,
  \<open>abspath\<close> (with the working directory as an argument), \<open>basename\<close>, \<open>dirname\<close>
  and \<open>splitext\<close>.
\<close>

definition path_join2 :: "string \<Rightarrow> string \<Rightarrow> string" where
  "path_join2 a b =
     (if b \<noteq> [] \<and> hd b = CHR ''/'' then b
      else if a = [] \<or> last a = CHR ''/'' then a @ b
      else a @ ''/'' @ b)"

definition path_join :: "string \<Rightarrow> string list \<Rightarrow> string" where
  "path_join a bs = foldl path_join2 a bs"

definition norm_step :: "bool \<Rightarrow> string list \<Rightarrow> string \<Rightarrow> string list" where
  "norm_step rooted acc c =
     (if c = [] \<or> c = ''.'' then acc
      else if c \<noteq> ''..'' \<or> (\<not> rooted \<and> acc = []) \<or> (acc \<noteq> [] \<and> last acc = ''..'') then acc @ [c]
      else butlast acc)"

definition normpath :: "string \<Rightarrow> string" where
  "normpath p =
     (if p = [] then ''.''
      else
        let slashes = (if prefix ''//'' p \<and> \<not> prefix ''///'' p then ''//''
                       else if prefix ''/'' p then ''/'' else []);
            comps = foldl (norm_step (slashes \<noteq> [])) [] (split_on (CHR ''/'') p);
            r = slashes @ py_join ''/'' comps
        in if r = [] then ''.'' else r)"

definition abspath :: "string \<Rightarrow> string \<Rightarrow> string" where
  "abspath cwd p = normpath (if p \<noteq> [] \<and> hd p = CHR ''/'' then p else path_join2 cwd p)"

definition basename :: "string \<Rightarrow> string" where
  "basename p = rev (takeWhile (\<lambda>c. c \<noteq> CHR ''/'') (rev p))"

definition dirname :: "string \<Rightarrow> string" where
  "dirname p =
     (let h = rev (dropWhile (\<lambda>c. c \<noteq> CHR ''/'') (rev p))
      in if list_all (\<lambda>c. c = CHR ''/'') h then h else rstrip_of ((=) (CHR ''/'')) h)"

definition splitext :: "string \<Rightarrow> string \<times> string" where
  "splitext p =
     (let b = basename p;
          e = rev (takeWhile (\<lambda>c. c \<noteq> CHR ''.'') (rev b));
          r = rev (dropWhile (\<lambda>c. c \<noteq> CHR ''.'') (rev b))
      in if r = [] \<or> list_all (\<lambda>c. c = CHR ''.'') r then (p, [])
         else (take (length p - Suc (length e)) p, CHR ''.'' # e))"

end
