(* ===== verification/PyRegex.thy ===== *)
theory PyRegex
  imports PyPrelude
begin

text \<open>
  The part of Python's \<^verbatim>\<open>re\<close> module that the scripts use: patterns built from
  greedy repetitions of a character class, sequences, optional parts, named groups and the
  end anchor.  \<open>rmatches\<close> lists the ways a pattern matches at the start of a string in
  the order in which the backtracking engine of \<^verbatim>\<open>re\<close> tries them, so the first
  element is the match that \<^verbatim>\<open>re.match\<close> returns.
\<close>

subsection \<open>Patterns and the backtracking matcher\<close>

datatype regex =
    RRep "char \<Rightarrow> bool" nat "nat option" \<comment> \<open>a class, at least and at most so many times, greedy\<close>
  | RSeq regex regex
  | ROpt regex
  | RGroup string regex
  | REps
  | REnd                                  \<comment> \<open>\<^verbatim>\<open>$\<close>: the end, or before a final newline\<close>

type_synonym caps = "(string \<times> string) list"

definition rep_bound :: "nat \<Rightarrow> nat option \<Rightarrow> nat" where
  "rep_bound k n = (case n of None \<Rightarrow> k | Some b \<Rightarrow> min k b)"

primrec rmatches :: "regex \<Rightarrow> string \<Rightarrow> (string \<times> string \<times> caps) list" where
  "rmatches (RRep P m n) s =
     map (\<lambda>i. (take i s, drop i s, []))
       (rev [m ..< Suc (rep_bound (length (takeWhile P s)) n)])"
| "rmatches (RSeq r q) s =
     concat (map (\<lambda>(c, t, g). map (\<lambda>(d, u, h). (c @ d, u, g @ h)) (rmatches q t)) (rmatches r s))"
| "rmatches (ROpt r) s = rmatches r s @ [([], s, [])]"
| "rmatches (RGroup nm r) s = map (\<lambda>(c, t, g). (c, t, (nm, c) # g)) (rmatches r s)"
| "rmatches REps s = [([], s, [])]"
| "rmatches REnd s = (if s = [] \<or> s = [nl] then [([], s, [])] else [])"

definition re_match :: "regex \<Rightarrow> string \<Rightarrow> (string \<times> string \<times> caps) option" where
  "re_match r s = (case rmatches r s of [] \<Rightarrow> None | m # _ \<Rightarrow> Some m)"

text \<open>\<^verbatim>\<open>re.search\<close>: the first position at which the pattern matches.\<close>

fun re_search :: "regex \<Rightarrow> string \<Rightarrow> (string \<times> string \<times> caps) option" where
  "re_search r [] = re_match r []"
| "re_search r (x # xs) = (case re_match r (x # xs) of Some m \<Rightarrow> Some m | None \<Rightarrow> re_search r xs)"

definition group :: "string \<Rightarrow> string \<times> string \<times> caps \<Rightarrow> string" where
  "group nm m = (case m of (c, t, g) \<Rightarrow> (case map_of g nm of None \<Rightarrow> [] | Some v \<Rightarrow> v))"

definition rchar :: "(char \<Rightarrow> bool) \<Rightarrow> regex" where
  "rchar P = RRep P 1 (Some 1)"

primrec rlit :: "string \<Rightarrow> regex" where
  "rlit [] = REps"
| "rlit (x # xs) = RSeq (rchar ((=) x)) (rlit xs)"

primrec rseq :: "regex list \<Rightarrow> regex" where
  "rseq [] = REps"
| "rseq (r # rs) = RSeq r (rseq rs)"

subsection \<open>What a match says about the string\<close>

lemma rmatches_split: "(c, t, g) \<in> set (rmatches r s) \<Longrightarrow> s = c @ t"
proof (induction r arbitrary: s c t g)
  case (RSeq r q)
  then show ?case by fastforce
qed (auto split: if_splits)

lemma re_match_split: "re_match r s = Some (c, t, g) \<Longrightarrow> s = c @ t"
  by (rule rmatches_split[of c t g r s]) (auto simp: re_match_def split: list.splits)

lemma rmatches_caps: "(c, t, g) \<in> set (rmatches r s) \<Longrightarrow> (nm, v) \<in> set g \<Longrightarrow> set v \<subseteq> set s"
proof (induction r arbitrary: s c t g)
  case (RSeq r q)
  then obtain c1 t1 g1 c2 g2 where
    1: "(c1, t1, g1) \<in> set (rmatches r s)" and 2: "(c2, t, g2) \<in> set (rmatches q t1)"
    and g: "g = g1 @ g2" by auto
  from rmatches_split[OF 1] have "set t1 \<subseteq> set s" by auto
  with RSeq.IH(1)[OF 1] RSeq.IH(2)[OF 2] RSeq.prems(2) g show ?case by auto
next
  case (RGroup n r)
  then obtain g' where 1: "(c, t, g') \<in> set (rmatches r s)" and g: "g = (n, c) # g'" by auto
  from rmatches_split[OF 1] RGroup.IH[OF 1] RGroup.prems(2) g show ?case by auto
next
  case (ROpt r)
  then consider "(c, t, g) \<in> set (rmatches r s)" | "g = []" by auto
  then show ?case using ROpt by cases auto
qed (auto split: if_splits)

lemma re_match_group_chars:
  assumes "re_match r s = Some m"
  shows "set (group nm m) \<subseteq> set s"
proof -
  obtain c t g where m: "m = (c, t, g)" by (cases m)
  with assms have "(c, t, g) \<in> set (rmatches r s)"
    by (auto simp: re_match_def split: list.splits)
  note caps = rmatches_caps[OF this]
  show ?thesis
  proof (cases "map_of g nm")
    case (Some v)
    then show ?thesis using caps[of nm v] by (simp add: group_def m map_of_SomeD)
  qed (simp add: group_def m)
qed

lemma rmatches_RRep_chars:
  "(c, t, g) \<in> set (rmatches (RRep P m n) s) \<Longrightarrow>
   list_all P c \<and> m \<le> length c \<and> (\<forall>b. n = Some b \<longrightarrow> length c \<le> b)"
proof -
  assume "(c, t, g) \<in> set (rmatches (RRep P m n) s)"
  then obtain i where i: "m \<le> i" "i \<le> rep_bound (length (takeWhile P s)) n" and c: "c = take i s"
    by auto
  have le: "i \<le> length (takeWhile P s)" and le2: "\<forall>b. n = Some b \<longrightarrow> i \<le> b"
    using i(2) by (auto simp: rep_bound_def split: option.splits)
  have "take i (takeWhile P s @ dropWhile P s) = take i (takeWhile P s)"
    using le by (simp del: takeWhile_dropWhile_id)
  then have "take i (takeWhile P s) = take i s" by simp
  with c have ceq: "c = take i (takeWhile P s)" by simp
  have "x \<in> set c \<Longrightarrow> P x" for x
    unfolding ceq using in_set_takeD set_takeWhileD by metis
  then have "list_all P c" by (simp add: list_all_iff)
  moreover have "length c = i"
    using c le length_takeWhile_le[of P s] by simp
  ultimately show ?thesis using i(1) le2 by simp
qed

text \<open>Every value a group captured matched the group's class.\<close>

lemma rmatches_group_class:
  "(c, t, g) \<in> set (rmatches (RGroup nm (RRep P m n)) s) \<Longrightarrow>
   g = [(nm, c)] \<and> list_all P c \<and> m \<le> length c \<and> (\<forall>b. n = Some b \<longrightarrow> length c \<le> b)"
proof -
  assume a: "(c, t, g) \<in> set (rmatches (RGroup nm (RRep P m n)) s)"
  then have "(c, t, []) \<in> set (rmatches (RRep P m n) s)" and g: "g = [(nm, c)]"
    by auto
  from rmatches_RRep_chars[OF this(1)] g show ?thesis by simp
qed

subsection \<open>Matching a string that was written to match\<close>

text \<open>
  A greedy repetition followed by something that cannot start inside it takes the whole
  run: the longest repetition is tried first, and here it succeeds.
\<close>

lemma takeWhile_run:
  "list_all P a \<Longrightarrow> b = [] \<or> \<not> P (hd b) \<Longrightarrow> takeWhile P (a @ b) = a"
  by (induction a; cases b) simp_all

lemma rmatches_run_first:
  assumes "list_all P a" and "b = [] \<or> \<not> P (hd b)" and "m \<le> length a"
    and "\<And>k. n = Some k \<Longrightarrow> length a \<le> k"
  shows "\<exists>rest. rmatches (RRep P m n) (a @ b) = (a, b, []) # rest"
proof -
  have "rep_bound (length (takeWhile P (a @ b))) n = length a"
    using assms(4) by (simp add: takeWhile_run[OF assms(1,2)] rep_bound_def split: option.splits)
  then have "rmatches (RRep P m n) (a @ b) =
      map (\<lambda>i. (take i (a @ b), drop i (a @ b), [])) (rev [m ..< Suc (length a)])"
    by simp
  also have "rev [m ..< Suc (length a)] = length a # rev [m ..< length a]"
    using assms(3) by simp
  finally show ?thesis by simp
qed

lemma re_match_Cons: "re_match r s = Some m \<longleftrightarrow> (\<exists>rest. rmatches r s = m # rest)"
  by (auto simp: re_match_def split: list.splits)

lemma re_match_RSeq:
  assumes "re_match r s = Some (c, t, g)" and "re_match q t = Some (d, u, h)"
  shows "re_match (RSeq r q) s = Some (c @ d, u, g @ h)"
  using assms by (auto simp: re_match_Cons)

lemma re_match_RGroup:
  "re_match r s = Some (c, t, g) \<Longrightarrow> re_match (RGroup nm r) s = Some (c, t, (nm, c) # g)"
  by (auto simp: re_match_Cons)

lemma re_match_RRep:
  assumes "list_all P a" and "b = [] \<or> \<not> P (hd b)" and "m \<le> length a"
    and "\<And>k. n = Some k \<Longrightarrow> length a \<le> k"
  shows "re_match (RRep P m n) (a @ b) = Some (a, b, [])"
  using rmatches_run_first[OF assms] by (auto simp: re_match_Cons)

lemma re_match_rchar: "P x \<Longrightarrow> re_match (rchar P) (x # s) = Some ([x], s, [])"
  by (simp add: re_match_def rchar_def rep_bound_def)

lemma re_match_rchar_None: "s = [] \<or> \<not> P (hd s) \<Longrightarrow> rmatches (rchar P) s = []"
  by (cases s) (simp_all add: rchar_def rep_bound_def)

lemma re_match_rlit: "re_match (rlit p) (p @ s) = Some (p, s, [])"
proof (induction p)
  case Nil
  show ?case by (simp add: re_match_def)
next
  case (Cons x p)
  have "re_match (rchar ((=) x)) (x # p @ s) = Some ([x], p @ s, [])" by (simp add: re_match_rchar)
  from re_match_RSeq[OF this Cons.IH] show ?case by simp
qed

lemma rmatches_rlit_None: "\<not> prefix p s \<Longrightarrow> rmatches (rlit p) s = []"
proof (induction p arbitrary: s)
  case (Cons x p)
  show ?case
  proof (cases "s \<noteq> [] \<and> hd s = x")
    case True
    then obtain t where t: "s = x # t" by (cases s) auto
    with Cons have "rmatches (rlit p) t = []" by auto
    then show ?thesis by (simp add: t rchar_def rep_bound_def)
  next
    case False
    then show ?thesis by (cases s) (auto simp: rchar_def rep_bound_def)
  qed
qed simp

text \<open>\<^verbatim>\<open>re.search\<close> of a literal is the substring test.\<close>

lemma re_search_rlit: "re_search (rlit p) s \<noteq> None \<longleftrightarrow> py_contains p s"
proof (induction s)
  case Nil
  show ?case
    by (cases p) (auto simp: re_match_def rchar_def rep_bound_def)
next
  case (Cons x xs)
  show ?case
  proof (cases "prefix p (x # xs)")
    case True
    then obtain u where "x # xs = p @ u" by (auto simp: prefix_def)
    then have "re_match (rlit p) (x # xs) = Some (p, u, [])" by (metis re_match_rlit)
    with True show ?thesis by simp
  next
    case False
    then have "re_match (rlit p) (x # xs) = None" by (simp add: re_match_def rmatches_rlit_None)
    with False Cons.IH show ?thesis by simp
  qed
qed

subsection \<open>What the captured groups look like\<close>

text \<open>
  \<open>consumes Q r\<close>: whatever \<open>r\<close> matches satisfies \<open>Q\<close>; \<open>captures nm Q r\<close>:
  whatever it stores under the group name \<open>nm\<close> does; \<open>binds nm r\<close>: every match of
  \<open>r\<close> stores something under \<open>nm\<close>.
\<close>

definition consumes :: "(string \<Rightarrow> bool) \<Rightarrow> regex \<Rightarrow> bool" where
  "consumes Q r \<longleftrightarrow> (\<forall>s c t g. (c, t, g) \<in> set (rmatches r s) \<longrightarrow> Q c)"

definition captures :: "string \<Rightarrow> (string \<Rightarrow> bool) \<Rightarrow> regex \<Rightarrow> bool" where
  "captures nm Q r \<longleftrightarrow> (\<forall>s c t g v. (c, t, g) \<in> set (rmatches r s) \<longrightarrow> (nm, v) \<in> set g \<longrightarrow> Q v)"

definition binds :: "string \<Rightarrow> regex \<Rightarrow> bool" where
  "binds nm r \<longleftrightarrow> (\<forall>s c t g. (c, t, g) \<in> set (rmatches r s) \<longrightarrow> nm \<in> fst ` set g)"

lemma consumes_RRep:
  assumes "\<And>c. list_all P c \<Longrightarrow> m \<le> length c \<Longrightarrow> \<forall>b. n = Some b \<longrightarrow> length c \<le> b \<Longrightarrow> Q c"
  shows "consumes Q (RRep P m n)"
  unfolding consumes_def
proof (intro allI impI)
  fix s c t g
  assume "(c, t, g) \<in> set (rmatches (RRep P m n) s)"
  from rmatches_RRep_chars[OF this] show "Q c" using assms by blast
qed

lemma consumes_RSeq:
  assumes "consumes Q1 r" and "consumes Q2 q" and "\<And>c d. Q1 c \<Longrightarrow> Q2 d \<Longrightarrow> Q (c @ d)"
  shows "consumes Q (RSeq r q)"
  using assms unfolding consumes_def by fastforce

lemma consumes_ROpt: "consumes Q r \<Longrightarrow> Q [] \<Longrightarrow> consumes Q (ROpt r)"
  unfolding consumes_def by fastforce

lemma captures_RGroup:
  "captures nm Q r \<Longrightarrow> (nm = nm' \<Longrightarrow> consumes Q r) \<Longrightarrow> captures nm Q (RGroup nm' r)"
  unfolding consumes_def captures_def by fastforce

lemma captures_RSeq: "captures nm Q r \<Longrightarrow> captures nm Q q \<Longrightarrow> captures nm Q (RSeq r q)"
  unfolding captures_def by fastforce

lemma captures_ROpt: "captures nm Q r \<Longrightarrow> captures nm Q (ROpt r)"
  unfolding captures_def by fastforce

lemma captures_base:
  "captures nm Q (RRep P m n)" "captures nm Q REps" "captures nm Q REnd" "captures nm Q (rchar P)"
  unfolding captures_def rchar_def by fastforce+

lemma captures_rlit: "captures nm Q (rlit p)"
  by (induction p) (simp_all add: captures_base captures_RSeq)

lemma binds_RSeq1: "binds nm r \<Longrightarrow> binds nm (RSeq r q)"
  unfolding binds_def by fastforce

lemma binds_RSeq2: "binds nm q \<Longrightarrow> binds nm (RSeq r q)"
  unfolding binds_def by fastforce

lemmas capture_rules = captures_RSeq captures_ROpt captures_base captures_rlit captures_RGroup

text \<open>The groups on every path through a pattern, read off the pattern.\<close>

primrec bound_names :: "regex \<Rightarrow> string list" where
  "bound_names (RRep P m n) = []"
| "bound_names (RSeq r q) = bound_names r @ bound_names q"
| "bound_names (ROpt r) = []"
| "bound_names (RGroup nm r) = nm # bound_names r"
| "bound_names REps = []"
| "bound_names REnd = []"

lemma binds_bound_names: "nm \<in> set (bound_names r) \<Longrightarrow> binds nm r"
proof (induction r)
  case (RSeq r q)
  then show ?case using binds_RSeq1 binds_RSeq2 by auto
next
  case (RGroup n r)
  then show ?case unfolding binds_def by fastforce
qed simp_all

lemma re_match_group:
  assumes "re_match r s = Some m" and "binds nm r" and "captures nm Q r"
  shows "Q (group nm m)"
proof -
  obtain c t g where m: "m = (c, t, g)" by (cases m)
  with assms(1) have in_m: "(c, t, g) \<in> set (rmatches r s)"
    by (auto simp: re_match_def split: list.splits)
  with assms(2) obtain v where v: "map_of g nm = Some v"
    unfolding binds_def by (metis map_of_eq_None_iff not_None_eq)
  then have "(nm, v) \<in> set g" by (rule map_of_SomeD)
  with in_m assms(3) have "Q v" unfolding captures_def by blast
  with v show ?thesis by (simp add: group_def m)
qed

subsection \<open>Replacement templates\<close>

text \<open>
  \<^verbatim>\<open>re.sub\<close> expands backslashes in the replacement: the control escapes, an octal
  character (a zero, or three octal digits up to 377), a doubled backslash, the whole match
  \<^verbatim>\<open>\g<0>\<close>.  The patterns used with it have no group, so any other group
  reference is an error, and so is a backslash before any other ASCII letter; before any
  other character the backslash stays.
\<close>

definition is_octal :: "char \<Rightarrow> bool" where
  "is_octal c \<longleftrightarrow> c \<in> set ''01234567''"

definition is_alpha :: "char \<Rightarrow> bool" where
  "is_alpha c \<longleftrightarrow> c \<in> set ''abcdefghijklmnopqrstuvwxyzABCDEFGHIJKLMNOPQRSTUVWXYZ''"

definition escape_char :: "char \<Rightarrow> char option" where
  "escape_char c = map_of (zip ''abfnrtv''
     [CHR 0x07, CHR 0x08, CHR 0x0C, CHR 0x0A, CHR 0x0D, CHR 0x09, CHR 0x0B]) c"

fun expand_repl :: "string \<Rightarrow> string \<Rightarrow> string res" where
  "expand_repl m [] = Inr []"
| "expand_repl m (c # s) =
     (if c \<noteq> backslash then bindE (expand_repl m s) (\<lambda>r. Inr (c # r))
      else (case s of
        [] \<Rightarrow> Inl ReError
      | d # t \<Rightarrow>
          if d = CHR ''g'' then
            (if prefix ''<0>'' t then bindE (expand_repl m (drop 3 t)) (\<lambda>r. Inr (m @ r))
             else Inl ReError)
          else if d = CHR ''0'' then
            (let o8 = takeWhile is_octal (take 2 t)
             in bindE (expand_repl m (drop (length o8) t))
                  (\<lambda>r. Inr (char_of (digits_val 8 o8) # r)))
          else if is_digit d then
            (if is_octal d \<and> 2 \<le> length t \<and> list_all is_octal (take 2 t)
             then (if digits_val 8 (d # take 2 t) \<le> 255
                   then bindE (expand_repl m (drop 2 t))
                          (\<lambda>r. Inr (char_of (digits_val 8 (d # take 2 t)) # r))
                   else Inl ReError)
             else Inl ReError)
          else if d = backslash then bindE (expand_repl m t) (\<lambda>r. Inr (backslash # r))
          else (case escape_char d of
              Some e \<Rightarrow> bindE (expand_repl m t) (\<lambda>r. Inr (e # r))
            | None \<Rightarrow> if is_alpha d then Inl ReError
                      else bindE (expand_repl m t) (\<lambda>r. Inr (c # d # r)))))"

text \<open>\<^verbatim>\<open>re.sub(pat, repl, s)\<close> for a literal pattern.\<close>

definition re_sub_lit :: "string \<Rightarrow> string \<Rightarrow> string \<Rightarrow> string res" where
  "re_sub_lit pat repl s = bindE (expand_repl pat repl) (\<lambda>r. Inr (replace_all pat r s))"

lemma expand_repl_plain: "backslash \<notin> set repl \<Longrightarrow> expand_repl m repl = Inr repl"
proof (induction repl)
  case (Cons c s)
  then have "c \<noteq> backslash" by auto
  with Cons show ?case by simp
qed simp

lemma re_sub_lit_plain:
  "backslash \<notin> set repl \<Longrightarrow> re_sub_lit pat repl s = Inr (replace_all pat repl s)"
  by (simp add: re_sub_lit_def expand_repl_plain)

end
