(* ===== verification/ItbCorrect.thy ===== *)
theory ItbCorrect
  imports Objdump2itb
begin

text \<open>
  Correctness of the objdump parser: what the regular expressions capture, the simulation
  between the parser's string state and the abstract machine, and the round trip through
  the reader of the table format.
\<close>

subsection \<open>What the three patterns capture\<close>

lemma func_name: "re_match FUNC_RE s = Some m \<Longrightarrow> list_all not_ws (group ''name'' m)"
proof (erule re_match_group)
  show "binds ''name'' FUNC_RE" by (rule binds_bound_names) (simp add: FUNC_RE_def)
  show "captures ''name'' (list_all not_ws) FUNC_RE"
    unfolding FUNC_RE_def rseq.simps by (intro capture_rules; simp add: consumes_RRep)
qed

lemma src_file_chars:
  assumes "re_match SRC_FILE_RE s = Some m"
  shows "list_all not_ws (group ''file'' m) \<and> group ''file'' m \<noteq> []"
proof (rule re_match_group[OF assms, where Q = "\<lambda>v. list_all not_ws v \<and> v \<noteq> []"])
  have "consumes (\<lambda>v. list_all not_ws v \<and> v \<noteq> []) (RRep (\<lambda>c. c \<noteq> CHR ''/'' \<and> not_ws c) 1 None)"
  proof (rule consumes_RRep)
    fix c
    assume "list_all (\<lambda>c. c \<noteq> CHR ''/'' \<and> not_ws c) c" and "1 \<le> length c"
    then show "list_all not_ws c \<and> c \<noteq> []" by (auto elim: list.pred_mono_strong)
  qed
  then show "captures ''file'' (\<lambda>v. list_all not_ws v \<and> v \<noteq> []) SRC_FILE_RE"
    unfolding SRC_FILE_RE_def rseq.simps by (intro capture_rules; simp)
  show "binds ''file'' SRC_FILE_RE" by (rule binds_bound_names) (simp add: SRC_FILE_RE_def)
qed

lemma src_line_chars: "re_match SRC_FILE_RE s = Some m \<Longrightarrow> list_all is_digit (group ''line'' m)"
proof (erule re_match_group)
  show "binds ''line'' SRC_FILE_RE" by (rule binds_bound_names) (simp add: SRC_FILE_RE_def)
  show "captures ''line'' (list_all is_digit) SRC_FILE_RE"
    unfolding SRC_FILE_RE_def rseq.simps by (intro capture_rules; simp add: consumes_RRep)
qed

lemma inst_addr_chars:
  assumes "re_match INST_RE s = Some m"
  shows "list_all is_hex (group ''addr'' m) \<and> group ''addr'' m \<noteq> []"
proof (rule re_match_group[OF assms, where Q = "\<lambda>v. list_all is_hex v \<and> v \<noteq> []"])
  show "captures ''addr'' (\<lambda>v. list_all is_hex v \<and> v \<noteq> []) INST_RE"
    unfolding INST_RE_def rseq.simps
    by (intro capture_rules; (rule consumes_RRep)?; auto)
  show "binds ''addr'' INST_RE" by (rule binds_bound_names) (simp add: INST_RE_def)
qed

lemma inst_mcode_chars:
  assumes "re_match INST_RE s = Some m"
  shows "list_all is_hex (group ''mcode'' m) \<and>
    (length (group ''mcode'' m) = 4 \<or> length (group ''mcode'' m) = 8)"
proof (rule re_match_group[OF assms,
      where Q = "\<lambda>v. list_all is_hex v \<and> (length v = 4 \<or> length v = 8)"])
  let ?Q = "\<lambda>v. list_all is_hex v \<and> (length v = 4 \<or> length v = 8)"
  have "consumes (\<lambda>c. list_all is_hex c \<and> length c = 4) (RRep is_hex 4 (Some 4))"
    by (rule consumes_RRep) auto
  moreover from this have "consumes (\<lambda>c. list_all is_hex c \<and> (length c = 0 \<or> length c = 4))
      (ROpt (RRep is_hex 4 (Some 4)))"
    by (intro consumes_ROpt consumes_RRep) auto
  ultimately have "consumes ?Q (RSeq (RRep is_hex 4 (Some 4)) (ROpt (RRep is_hex 4 (Some 4))))"
    by (rule consumes_RSeq) auto
  then show "captures ''mcode'' ?Q INST_RE"
    unfolding INST_RE_def rseq.simps by (intro capture_rules; simp)
  show "binds ''mcode'' INST_RE" by (rule binds_bound_names) (simp add: INST_RE_def)
qed

lemma inst_asm_chars:
  assumes "re_match INST_RE s = Some m"
  shows "group ''asm'' m \<noteq> [] \<and> is_lower (hd (group ''asm'' m)) \<and> nl \<notin> set (group ''asm'' m)"
proof (rule re_match_group[OF assms,
      where Q = "\<lambda>v. v \<noteq> [] \<and> is_lower (hd v) \<and> nl \<notin> set v"])
  let ?Q = "\<lambda>v. v \<noteq> [] \<and> is_lower (hd v) \<and> nl \<notin> set v"
  have "consumes (\<lambda>c. list_all is_lower c \<and> length c = 1) (rchar is_lower)"
    unfolding rchar_def by (rule consumes_RRep) auto
  moreover have "consumes (\<lambda>c. list_all (\<lambda>c. c \<noteq> nl) c) (RRep (\<lambda>c. c \<noteq> nl) 0 None)"
    by (rule consumes_RRep) auto
  ultimately have "consumes ?Q (RSeq (rchar is_lower) (RRep (\<lambda>c. c \<noteq> nl) 0 None))"
  proof (rule consumes_RSeq)
    fix c d
    assume "list_all is_lower c \<and> length c = 1" and d: "list_all (\<lambda>c. c \<noteq> nl) d"
    then obtain x where c: "c = [x]" and x: "is_lower x" by (cases c) auto
    have "\<not> is_lower nl" by (simp add: is_lower_def)
    with x have "x \<noteq> nl" by blast
    with c x d show "c @ d \<noteq> [] \<and> is_lower (hd (c @ d)) \<and> nl \<notin> set (c @ d)"
      by (induction d) auto
  qed
  then show "captures ''asm'' ?Q INST_RE"
    unfolding INST_RE_def rseq.simps by (intro capture_rules; simp)
  show "binds ''asm'' INST_RE" by (rule binds_bound_names) (simp add: INST_RE_def)
qed

subsection \<open>Lines and events\<close>

lemma replace_char:
  "replace_all [a] [b] s = map (\<lambda>c. if c = a then b else c) s"
  by (induction s) auto

lemma replace_char_absent: "a \<notin> set s \<Longrightarrow> replace_all [a] r s = s"
  by (induction s) auto

lemma py_strip_ne: "c \<in> set s \<Longrightarrow> \<not> is_ws c \<Longrightarrow> py_strip s \<noteq> []"
proof
  assume c: "c \<in> set s" "\<not> is_ws c" and "py_strip s = []"
  then have "list_all is_ws (dropWhile is_ws s)"
    by (auto simp: py_strip_def rstrip_of_def lstrip_of_def list_all_iff dropWhile_eq_Nil_conv)
  moreover have "dropWhile is_ws s \<noteq> []" using c by (simp add: dropWhile_eq_Nil_conv) blast
  ultimately show False
    by (metis hd_dropWhile hd_in_set list_all_iff)
qed

lemma strip_char_no: "c \<notin> set s \<Longrightarrow> py_strip_char c s = s"
proof (cases "s = []")
  case False
  assume "c \<notin> set s"
  with False have "c \<noteq> hd s" "c \<noteq> last s" using hd_in_set last_in_set by metis+
  with False show ?thesis by (simp add: py_strip_char_def lstrip_of_id rstrip_of_id)
qed (simp add: py_strip_char_def rstrip_of_def lstrip_of_def)

lemma not_ws_nl: "\<not> not_ws nl" and not_ws_space: "\<not> not_ws (CHR '' '')"
  by (simp_all add: not_ws_def is_ws_def)

lemma not_ws_clean:
  "list_all not_ws s \<Longrightarrow> nl \<notin> set s \<and> CHR '' '' \<notin> set s"
  using not_ws_nl not_ws_space by (auto simp: list_all_iff)

lemma hex_not_ws: "list_all is_hex s \<Longrightarrow> list_all not_ws s"
  by (auto simp: not_ws_def is_hex_not_ws elim: list.pred_mono_strong)

lemma digits_not_ws: "list_all is_digit s \<Longrightarrow> list_all not_ws s"
  by (auto simp: not_ws_def is_digit_not_ws elim: list.pred_mono_strong)

definition event_ok :: "itb_event \<Rightarrow> bool" where
  "event_ok e = (case e of
      Blank \<Rightarrow> True
    | FuncEv f \<Rightarrow> list_all not_ws f
    | SrcEv f l \<Rightarrow> list_all not_ws f \<and> f \<noteq> [] \<and> list_all not_ws l
    | InstEv a m s \<Rightarrow> list_all not_ws m \<and> s \<noteq> [] \<and> nl \<notin> set s
    | TextEv t \<Rightarrow> nl \<notin> set t)"

lemma asm_ok:
  assumes "re_match INST_RE s = Some m"
  shows "py_strip (replace_all [tab] '' '' (group ''asm'' m)) \<noteq> [] \<and>
         nl \<notin> set (py_strip (replace_all [tab] '' '' (group ''asm'' m)))"
proof -
  let ?v = "group ''asm'' m"
  from inst_asm_chars[OF assms] have v: "?v \<noteq> []" "is_lower (hd ?v)" "nl \<notin> set ?v" by auto
  have "hd ?v \<noteq> tab" using v(2) by (auto simp: is_lower_def)
  with v(1) have "hd ?v \<in> set (replace_all [tab] '' '' ?v)"
    by (cases ?v) (auto simp: replace_char)
  from py_strip_ne[OF this is_lower_not_ws[OF v(2)]]
  have "py_strip (replace_all [tab] '' '' ?v) \<noteq> []" .
  moreover have "nl \<notin> set (replace_all [tab] '' '' ?v)" using v(3) by (auto simp: replace_char)
  ultimately show ?thesis using py_strip_set by blast
qed

lemma classify_ok: "nl \<notin> set l \<Longrightarrow> event_ok (classify l)"
  using func_name src_file_chars src_line_chars inst_mcode_chars asm_ok
  by (auto simp: classify_def event_ok_def Let_def strip_char_no digits_not_ws hex_not_ws
      split: option.splits)

subsection \<open>Simulation\<close>

definition code_of :: "string list \<Rightarrow> string" where
  "code_of src = py_join [nl] (map ((#) (CHR ''#'')) src)"

definition view_ok :: "itb_view \<Rightarrow> bool" where
  "view_ok v \<longleftrightarrow> (\<forall>f. v_func v = Some f \<longrightarrow> list_all not_ws f)
     \<and> (\<forall>f. v_file v = Some f \<longrightarrow> list_all not_ws f \<and> f \<noteq> [])
     \<and> list_all not_ws (fmt_line (v_line v))
     \<and> list_all (\<lambda>t. nl \<notin> set t) (v_source v) \<and> length (v_source v) \<le> 10
     \<and> (v_file v = None \<longrightarrow> v_source v = [])"

definition itb_rel :: "itb_state \<Rightarrow> itb_view \<Rightarrow> bool" where
  "itb_rel st v \<longleftrightarrow> map_option cf_name (current_cfunction st) = v_func v
     \<and> current_src_file st = v_file v \<and> current_src_line st = v_line v
     \<and> current_src_code st = code_of (v_source v)"

lemma code_of_Nil: "code_of src = [] \<longleftrightarrow> src = []"
  by (cases src rule: list.exhaust; cases "tl src") (auto simp: code_of_def)

lemma code_of_snoc: "src \<noteq> [] \<Longrightarrow> code_of (src @ [t]) = code_of src @ [nl, CHR ''#''] @ t"
proof (induction src)
  case (Cons x xs)
  then show ?case by (cases "xs = []") (auto simp: code_of_def py_join_Cons)
qed simp

lemma code_of_lines:
  assumes "src \<noteq> []" and "list_all (\<lambda>t. nl \<notin> set t) src"
  shows "split_on nl (code_of src) = map ((#) (CHR ''#'')) src"
  unfolding code_of_def using assms
  by (intro split_join) (auto simp: list_all_iff)

lemma unlines_join: "xs \<noteq> [] \<Longrightarrow> py_join [nl] xs @ [nl] = unlines xs"
proof (induction xs)
  case (Cons x xs)
  then show ?case by (cases "xs = []") (simp_all add: unlines_def py_join_Cons)
qed simp

lemma view_ok_init: "view_ok view_init"
  by (simp add: view_ok_def view_init_def fmt_line_def not_ws_def is_ws_def)

lemma itb_rel_init: "itb_rel itb_init view_init"
  by (simp add: itb_rel_def itb_init_def view_init_def code_of_def)

lemma view_step_ok:
  "view_step v e = Some (v', out) \<Longrightarrow> view_ok v \<Longrightarrow> event_ok e \<Longrightarrow> view_ok v'"
  by (cases e) (auto simp: view_ok_def event_ok_def fmt_line_def split: if_splits option.splits)

lemma itb_inst_sim:
  assumes "itb_rel st v" and "view_ok v" and m: "re_match INST_RE s = Some m"
  shows "case view_step v (InstEv (digits_val 16 (group ''addr'' m)) (group ''mcode'' m)
            (py_strip (replace_all [tab] '' '' (group ''asm'' m)))) of
      None \<Rightarrow> itb_inst st (group ''addr'' m) (group ''mcode'' m) (group ''asm'' m)
                = Inl (AttributeError ''name'')
    | Some (v', items) \<Rightarrow> \<exists>st'. itb_inst st (group ''addr'' m) (group ''mcode'' m) (group ''asm'' m)
                = Inr (st', unlines (concat (map item_lines items))) \<and> itb_rel st' v'"
proof (cases "current_cfunction st")
  case None
  with assms(1) show ?thesis by (simp add: itb_rel_def itb_inst_def Let_def)
next
  case (Some f)
  have mc: "replace_all '' '' [] (group ''mcode'' m) = group ''mcode'' m"
    using inst_mcode_chars[OF m] hex_not_ws not_ws_clean by (simp add: replace_char_absent)
  have vf: "v_func v = Some (cf_name f)" using assms(1) Some by (simp add: itb_rel_def)
  show ?thesis
  proof (cases "v_source v = []")
    case True
    with Some vf mc assms(1) show ?thesis
      by (auto simp: itb_rel_def itb_inst_def Let_def code_of_Nil item_lines_def unlines_def)
  next
    case False
    with assms(2) have sp: "split_on nl (code_of (v_source v)) = map ((#) (CHR ''#'')) (v_source v)"
      by (intro code_of_lines) (auto simp: view_ok_def)
    have ul: "code_of (v_source v) @ [nl] = unlines (map ((#) (CHR ''#'')) (v_source v))"
      using False unlines_join[of "map ((#) (CHR ''#'')) (v_source v)"] by (simp add: code_of_def)
    have ul2: "code_of (v_source v) @ nl # z = unlines (map ((#) (CHR ''#'')) (v_source v)) @ z" for z
      using arg_cong[OF ul, of "\<lambda>x. x @ z"] by simp
    from False Some vf mc sp assms(1) show ?thesis
      by (auto simp: itb_rel_def itb_inst_def Let_def code_of_Nil item_lines_def unlines_append ul2
          unlines_def)
  qed
qed

lemma itb_source_sim:
  assumes "itb_rel st v" and "view_ok v"
  shows "\<exists>v'. view_step v (TextEv t) = Some (v', []) \<and> itb_rel (itb_source st t) v'"
proof (cases "v_source v = []")
  case True
  with assms show ?thesis
    by (auto simp: itb_rel_def itb_source_def code_of_Nil view_ok_def) (auto simp: code_of_def)
next
  case False
  with assms have sp: "split_on nl (code_of (v_source v)) = map ((#) (CHR ''#'')) (v_source v)"
    by (intro code_of_lines) (auto simp: view_ok_def)
  from False sp assms show ?thesis
    by (auto simp: itb_rel_def itb_source_def code_of_Nil view_ok_def code_of_snoc)
qed

lemma itb_line_sim:
  assumes "itb_rel st v" and "view_ok v" and "nl \<notin> set l"
  shows "case view_step v (classify l) of
      None \<Rightarrow> itb_line st l = Inl (AttributeError ''name'')
    | Some (v', items) \<Rightarrow>
        \<exists>st'. itb_line st l = Inr (st', unlines (concat (map item_lines items))) \<and> itb_rel st' v'"
proof (cases "py_strip l = []")
  case True
  with assms(1) show ?thesis by (simp add: classify_def itb_line_def unlines_def)
next
  case ne: False
  show ?thesis
  proof (cases "re_match FUNC_RE (py_strip l)")
    case (Some m)
    with ne assms(1) show ?thesis
      by (simp add: classify_def itb_line_def unlines_def itb_rel_def Let_def code_of_def)
  next
    case f: None
    show ?thesis
    proof (cases "re_match SRC_FILE_RE (py_strip l)")
      case (Some m)
      with ne f assms(1) show ?thesis
        by (simp add: classify_def itb_line_def unlines_def itb_rel_def Let_def code_of_def)
    next
      case g: None
      show ?thesis
      proof (cases "re_match INST_RE (py_strip l)")
        case (Some m)
        have c: "classify l = InstEv (digits_val 16 (group ''addr'' m)) (group ''mcode'' m)
            (py_strip (replace_all [tab] '' '' (group ''asm'' m)))"
          using ne f g Some by (simp add: classify_def Let_def)
        have i: "itb_line st l = itb_inst st (group ''addr'' m) (group ''mcode'' m) (group ''asm'' m)"
          using ne f g Some by (simp add: itb_line_def Let_def)
        show ?thesis unfolding c i by (rule itb_inst_sim[OF assms(1,2) Some])
      next
        case None
        have c: "classify l = TextEv (py_strip_char nl l)"
          using ne f g None by (simp add: classify_def Let_def)
        have i: "itb_line st l = Inr (itb_source st (py_strip_char nl l), [])"
          using ne f g None by (simp add: itb_line_def Let_def)
        show ?thesis unfolding c i
          using itb_source_sim[OF assms(1,2), of "py_strip_char nl l"] by (auto simp: unlines_def)
      qed
    qed
  qed
qed

lemma itb_run_sim:
  assumes "itb_rel st v" and "view_ok v" and "\<And>l. l \<in> set ls \<Longrightarrow> nl \<notin> set l"
  shows "fst (itb_run st ls) = unlines (concat (map item_lines (fst (view_run v (map classify ls)))))
    \<and> (case snd (view_run v (map classify ls)) of
        None \<Rightarrow> snd (itb_run st ls) = Inl (AttributeError ''name'')
      | Some v' \<Rightarrow> \<exists>st'. snd (itb_run st ls) = Inr st' \<and> itb_rel st' v')"
  using assms
proof (induction ls arbitrary: st v)
  case Nil
  then show ?case by (simp add: unlines_def)
next
  case (Cons l ls)
  have nl: "nl \<notin> set l" using Cons.prems(3) by simp
  note sim = itb_line_sim[OF Cons.prems(1,2) nl]
  show ?case
  proof (cases "view_step v (classify l)")
    case None
    with sim show ?thesis by (simp add: unlines_def)
  next
    case (Some p)
    obtain v' items where p: "p = (v', items)" by (cases p)
    with sim Some obtain st' where
      st': "itb_line st l = Inr (st', unlines (concat (map item_lines items)))" "itb_rel st' v'"
      by auto
    have "view_ok v'"
      using view_step_ok[OF _ Cons.prems(2) classify_ok[OF nl]] Some p by simp
    note IH = Cons.IH[OF st'(2) this]
    obtain o1 r1 where run: "itb_run st' ls = (o1, r1)" by (cases "itb_run st' ls")
    obtain is1 w1 where vrun: "view_run v' (map classify ls) = (is1, w1)"
      by (cases "view_run v' (map classify ls)")
    from IH Cons.prems(3) have
      "o1 = unlines (concat (map item_lines is1)) \<and>
       (case w1 of None \<Rightarrow> r1 = Inl (AttributeError ''name'')
        | Some v'' \<Rightarrow> \<exists>st''. r1 = Inr st'' \<and> itb_rel st'' v'')"
      unfolding run vrun by (auto split: option.splits)
    with Some p st'(1) run vrun show ?thesis
      by (simp add: unlines_append split: option.splits)
  qed
qed

subsection \<open>Reading the table back\<close>

definition item_ok :: "itb_item \<Rightarrow> bool" where
  "item_ok it \<longleftrightarrow> list_all not_ws (it_func it) \<and> list_all not_ws (it_file it)
     \<and> list_all not_ws (it_line it) \<and> list_all not_ws (it_mcode it)
     \<and> it_asm it \<noteq> [] \<and> nl \<notin> set (it_asm it)
     \<and> list_all (\<lambda>t. nl \<notin> set t) (it_source it) \<and> length (it_source it) \<le> 10"

lemma show_nat_not_ws: "list_all not_ws (show_nat n)"
  by (simp add: list_all_iff not_ws_def is_digit_not_ws show_nat_digits)

lemma view_step_item_ok:
  assumes "view_step v e = Some (v', out)" and "view_ok v" and "event_ok e" and "it \<in> set out"
  shows "item_ok it"
proof -
  obtain a m s f where e: "e = InstEv a m s" and f: "v_func v = Some f"
    and it: "it = \<lparr>it_source = v_source v, it_addr = a, it_func = f, it_file = fmt_opt (v_file v),
      it_line = fmt_line (v_line v), it_mcode = m, it_asm = s\<rparr>"
    using assms(1,4) by (cases e) (auto split: option.splits)
  have "list_all not_ws (fmt_opt (v_file v))"
    using assms(2) by (auto simp: view_ok_def fmt_opt_def not_ws_def is_ws_def split: option.splits)
  then show ?thesis
    using assms(2,3) e f it by (simp add: item_ok_def view_ok_def event_ok_def)
qed

lemma view_run_items_ok:
  assumes "view_ok v" and "\<And>e. e \<in> set es \<Longrightarrow> event_ok e" and "it \<in> set (fst (view_run v es))"
  shows "item_ok it"
  using assms
proof (induction es arbitrary: v)
  case (Cons e es)
  show ?case
  proof (cases "view_step v e")
    case None
    with Cons.prems(3) show ?thesis by simp
  next
    case (Some p)
    obtain v' out where p: "p = (v', out)" by (cases p)
    have ok: "event_ok e" "view_ok v'"
      using Cons.prems Some p view_step_ok by auto
    from Cons.prems(3) Some p have "it \<in> set out \<or> it \<in> set (fst (view_run v' es))"
      by (auto split: prod.splits)
    then show ?thesis
      using view_step_item_ok[OF _ Cons.prems(1) ok(1)] Some p Cons.IH[OF ok(2)] Cons.prems(2)
      by auto
  qed
qed simp

lemma items_ok: "it \<in> set (itb_items text) \<Longrightarrow> item_ok it"
  unfolding itb_items_def
  by (erule view_run_items_ok[OF view_ok_init, rotated])
     (auto simp: classify_ok file_lines_no_nl)

lemma item_lines_no_nl: "item_ok it \<Longrightarrow> l \<in> set (item_lines it) \<Longrightarrow> nl \<notin> set l"
proof -
  assume ok: "item_ok it" and l: "l \<in> set (item_lines it)"
  have n: "nl \<notin> set (show_nat k)" for k using show_nat_not_ws not_ws_clean by blast
  from ok have "nl \<notin> set (it_func it)" "nl \<notin> set (it_file it)" "nl \<notin> set (it_line it)"
    "nl \<notin> set (it_mcode it)" "nl \<notin> set (it_asm it)" and src: "\<And>t. t \<in> set (it_source it) \<Longrightarrow> nl \<notin> set t"
    using not_ws_clean by (auto simp: item_ok_def list_all_iff)
  then show ?thesis using l n by (auto simp: item_lines_def itb_record_def)
qed

lemma split_record:
  assumes "item_ok it"
  shows "split_on (CHR '' '') (itb_record (it_addr it) (it_func it) (it_file it) (it_line it)
      (it_mcode it) n (it_asm it)) =
    [show_nat (it_addr it), it_func it, it_file it, it_line it, it_mcode it, show_nat n]
      @ split_on (CHR '' '') (it_asm it)"
proof -
  have clean: "list_all not_ws x \<Longrightarrow> split_on (CHR '' '') (x @ CHR '' '' # z) = x # split_on (CHR '' '') z"
    for x z using not_ws_clean by (simp add: split_on_append)
  show ?thesis
    using assms by (simp add: itb_record_def item_ok_def clean show_nat_not_ws)
qed

lemma read_record_item:
  assumes "item_ok it"
  shows "read_record (it_source it) (itb_record (it_addr it) (it_func it) (it_file it) (it_line it)
      (it_mcode it) (length (split_ws (it_asm it))) (it_asm it)) = Some it"
proof -
  obtain w ws where ws: "split_on (CHR '' '') (it_asm it) = w # ws"
    by (cases "split_on (CHR '' '') (it_asm it)") auto
  then have "py_join '' '' (w # ws) = it_asm it" by (metis join_split)
  moreover have "list_all is_digit (show_nat (it_addr it))"
    by (simp add: list_all_iff show_nat_digits)
  ultimately show ?thesis
    by (simp add: read_record_def split_record[OF assms] ws digits_val_show_nat)
qed

lemma read_itb_items:
  "(\<And>it. it \<in> set items \<Longrightarrow> item_ok it) \<Longrightarrow> read_itb (concat (map item_lines items)) = Some items"
proof (induction items)
  case (Cons it items)
  let ?n = "length (it_source it)"
  let ?rest = "concat (map item_lines items)"
  have digits: "list_all is_digit (show_nat ?n)"
    by (simp add: list_all_iff show_nat_digits)
  have src: "list_all (\<lambda>l. l \<noteq> [] \<and> hd l = CHR ''#'') (map ((#) (CHR ''#'')) (it_source it))"
    by (simp add: list_all_iff)
  have tls: "map tl (map ((#) (CHR ''#'')) (it_source it)) = it_source it"
    by (simp add: comp_def)
  have rest: "read_itb ?rest = Some items" using Cons by simp
  have ok: "item_ok it" using Cons.prems by simp
  have "read_itb (item_lines it @ ?rest) = Some (it # items)"
    using digits src tls
    by (simp add: item_lines_def digits_val_show_nat nth_append read_record_item[OF ok] rest)
  then show ?case by simp
qed simp

subsection \<open>Lines of the three shapes\<close>

lemma re_match_RRep_max:
  assumes "list_all P a" and "length a = k" and "m \<le> k"
  shows "re_match (RRep P m (Some k)) (a @ b) = Some (a, b, [])"
proof -
  have "k \<le> length (takeWhile P (a @ b))"
    using assms(1,2) by (simp add: takeWhile_append2 list_all_iff)
  then have "rep_bound (length (takeWhile P (a @ b))) (Some k) = k" by (simp add: rep_bound_def)
  moreover have "rev [m ..< Suc k] = k # rev [m ..< k]" using assms(3) by simp
  ultimately show ?thesis using assms(2) by (simp add: re_match_def)
qed

lemma re_match_ROpt: "re_match r s = Some x \<Longrightarrow> re_match (ROpt r) s = Some x"
  by (auto simp: re_match_Cons)

lemma re_match_ROpt_None: "rmatches r s = [] \<Longrightarrow> re_match (ROpt r) s = Some ([], s, [])"
  by (simp add: re_match_def)

definition inst_shape :: "string \<Rightarrow> string \<Rightarrow> string \<Rightarrow> string \<Rightarrow> string \<Rightarrow> bool" where
  "inst_shape addr tabs mcode pad asm \<longleftrightarrow>
     list_all is_hex addr \<and> addr \<noteq> [] \<and> length addr \<le> 8 \<and> list_all ((=) tab) tabs
     \<and> list_all is_hex mcode \<and> (length mcode = 4 \<or> length mcode = 8)
     \<and> list_all is_ws pad \<and> 2 \<le> length pad
     \<and> asm \<noteq> [] \<and> is_lower (hd asm) \<and> nl \<notin> set asm \<and> \<not> is_ws (last asm)"

lemma re_match_mcode:
  assumes "list_all is_hex mcode" and "length mcode = 4 \<or> length mcode = 8"
    and "z \<noteq> []" and "\<not> is_hex (hd z)"
  shows "re_match (RSeq (RRep is_hex 4 (Some 4)) (ROpt (RRep is_hex 4 (Some 4)))) (mcode @ z)
    = Some (mcode, z, [])"
proof -
  let ?a = "take 4 mcode" and ?b = "drop 4 mcode"
  have ab: "mcode @ z = ?a @ ?b @ z" by simp
  have hex: "list_all is_hex ?a" "list_all is_hex ?b" and la: "length ?a = 4"
    using assms(1,2) by (auto simp: list_all_iff dest: in_set_takeD in_set_dropD)
  have 1: "re_match (RRep is_hex 4 (Some 4)) (?a @ ?b @ z) = Some (?a, ?b @ z, [])"
    by (rule re_match_RRep_max) (use hex la in simp_all)
  have 2: "re_match (ROpt (RRep is_hex 4 (Some 4))) (?b @ z) = Some (?b, z, [])"
  proof (cases "length mcode = 8")
    case True
    then have "re_match (RRep is_hex 4 (Some 4)) (?b @ z) = Some (?b, z, [])"
      by (intro re_match_RRep_max) (use hex in simp_all)
    then show ?thesis by (rule re_match_ROpt)
  next
    case False
    with assms have "?b = []" and tw: "takeWhile is_hex z = []" by (auto simp: neq_Nil_conv)
    then show ?thesis by (simp add: re_match_def rep_bound_def)
  qed
  from re_match_RSeq[OF 1 2] show ?thesis unfolding ab by simp
qed

lemma inst_line_match:
  assumes "inst_shape addr tabs mcode pad asm"
  shows "\<exists>m. re_match INST_RE (addr @ '':'' @ tabs @ mcode @ pad @ asm) = Some m
    \<and> group ''addr'' m = addr \<and> group ''mcode'' m = mcode \<and> group ''asm'' m = asm"
proof -
  note a = assms[unfolded inst_shape_def]
  have hexc: "\<not> is_hex (CHR '':'')" "\<not> is_hex tab" "\<not> is_ws (CHR '':'')"
    by (simp_all add: is_hex_def is_ws_def)
  obtain x y where asm: "asm = x # y" and x: "is_lower x" and y: "list_all (\<lambda>c. c \<noteq> nl) y"
    using a by (cases asm) (auto simp: list_all_iff)
  have mne: "mcode \<noteq> []" and mh: "is_hex (hd mcode)" using a by (cases mcode; auto)+
  have pne: "pad \<noteq> []" and pw: "\<not> is_hex (hd pad)"
    using a is_hex_not_ws by (cases pad; auto)+
  have 1: "re_match (RGroup ''addr'' (RRep is_hex 1 (Some 8))) (addr @ '':'' @ tabs @ mcode @ pad @ asm)
      = Some (addr, '':'' @ tabs @ mcode @ pad @ asm, [(''addr'', addr)])"
    by (rule re_match_RGroup, rule re_match_RRep) (use a hexc in \<open>auto simp: Suc_le_eq\<close>)
  have 2: "re_match (rlit '':'') ('':'' @ tabs @ mcode @ pad @ asm) = Some ('':'', tabs @ mcode @ pad @ asm, [])"
    by (rule re_match_rlit)
  have 3: "re_match (RRep ((=) tab) 0 None) (tabs @ mcode @ pad @ asm) = Some (tabs, mcode @ pad @ asm, [])"
    by (rule re_match_RRep) (use a mne mh hexc(2) in \<open>auto simp: hd_append\<close>)
  have 4: "re_match (RGroup ''mcode'' (RSeq (RRep is_hex 4 (Some 4)) (ROpt (RRep is_hex 4 (Some 4)))))
      (mcode @ pad @ asm) = Some (mcode, pad @ asm, [(''mcode'', mcode)])"
    by (rule re_match_RGroup, rule re_match_mcode) (use a pne pw in auto)
  have 5: "re_match (RRep is_ws 2 None) (pad @ asm) = Some (pad, asm, [])"
    by (rule re_match_RRep) (use a asm x is_lower_not_ws in auto)
  have 6: "re_match (RSeq (rchar is_lower) (RRep (\<lambda>c. c \<noteq> nl) 0 None)) asm = Some (asm, [], [])"
    using re_match_RSeq[OF re_match_rchar[where P = is_lower, OF x, of "y @ []"]
        re_match_RRep[where b = "[]" and m = 0 and n = None, OF y]] asm by simp
  have 7: "re_match REnd [] = Some ([], [], [])" and 8: "re_match REps [] = Some ([], [], [])"
    by (simp_all add: re_match_def)
  note all = re_match_RSeq[OF 1 re_match_RSeq[OF 2 re_match_RSeq[OF 3 re_match_RSeq[OF 4
      re_match_RSeq[OF 5 re_match_RSeq[OF re_match_RGroup[OF 6, where nm = "''asm''"] re_match_RSeq[OF 7 8]]]]]]]
  have "re_match INST_RE (addr @ '':'' @ tabs @ mcode @ pad @ asm) = Some
     (addr @ '':'' @ tabs @ mcode @ pad @ asm, [], [(''addr'', addr), (''mcode'', mcode), (''asm'', asm)])"
    unfolding INST_RE_def rseq.simps using all by simp
  then show ?thesis by (simp add: group_def)
qed

lemma rmatches_RSeq_head:
  "rmatches (RSeq r q) s \<noteq> [] \<Longrightarrow> \<exists>c t g. (c, t, g) \<in> set (rmatches r s) \<and> rmatches q t \<noteq> []"
  by (auto simp: neq_Nil_conv) (metis list.set_intros(1))

lemma rmatches_RSeq_first: "rmatches (RSeq r q) s \<noteq> [] \<Longrightarrow> rmatches r s \<noteq> []"
  by auto

lemma re_match_ne: "re_match r s \<noteq> None \<longleftrightarrow> rmatches r s \<noteq> []"
  by (auto simp: re_match_def split: list.splits)

text \<open>The head of a line that an instruction, function or source pattern accepts.\<close>

lemma func_head:
  assumes "re_match FUNC_RE s \<noteq> None"
  shows "\<exists>a t. s = a @ CHR '' '' # t \<and> list_all is_hex a \<and> a \<noteq> []"
proof -
  from assms obtain c t g where 1: "(c, t, g) \<in> set (rmatches (RGroup ''addr'' (RRep is_hex 8 (Some 8))) s)"
    and 2: "rmatches (RSeq (rlit '' <'') (RSeq (RGroup ''name'' (RRep not_ws 0 None)) (RSeq (rlit ''>:'') REps))) t \<noteq> []"
    unfolding FUNC_RE_def rseq.simps re_match_ne by (meson rmatches_RSeq_head)
  from rmatches_group_class[OF 1] have c: "list_all is_hex c" "c \<noteq> []" by auto
  from rmatches_RSeq_first[OF 2] have "rmatches (rlit '' <'') t \<noteq> []" .
  then have "prefix '' <'' t" using rmatches_rlit_None by blast
  then obtain u where "t = CHR '' '' # u" by (auto simp: prefix_def)
  with rmatches_split[OF 1] c show ?thesis by auto
qed

lemma inst_head:
  assumes "re_match INST_RE s \<noteq> None"
  shows "\<exists>a t. s = a @ CHR '':'' # t \<and> list_all is_hex a \<and> a \<noteq> []"
proof -
  from assms obtain c t g where 1: "(c, t, g) \<in> set (rmatches (RGroup ''addr'' (RRep is_hex 1 (Some 8))) s)"
    and 2: "\<exists>q. rmatches (RSeq (rlit '':'') q) t \<noteq> []"
    unfolding INST_RE_def rseq.simps re_match_ne by (meson rmatches_RSeq_head)
  from rmatches_group_class[OF 1] have c: "list_all is_hex c" "c \<noteq> []" by auto
  from 2 have "rmatches (rlit '':'') t \<noteq> []" using rmatches_RSeq_first by blast
  then have "prefix '':'' t" using rmatches_rlit_None by blast
  then obtain u where "t = CHR '':'' # u" by (auto simp: prefix_def)
  with rmatches_split[OF 1] c show ?thesis by auto
qed

lemma src_head:
  assumes "re_match SRC_FILE_RE s \<noteq> None"
  shows "\<exists>t. s = CHR ''/'' # t"
proof -
  from assms have "rmatches (RGroup ''dir'' (RSeq (rlit ''/'') (RRep not_ws 1 None))) s \<noteq> []"
    unfolding SRC_FILE_RE_def rseq.simps re_match_ne by (rule rmatches_RSeq_first)
  then have "rmatches (RSeq (rlit ''/'') (RRep not_ws 1 None)) s \<noteq> []"
    unfolding rmatches.simps(4) by simp
  then have "rmatches (rlit ''/'') s \<noteq> []" by (rule rmatches_RSeq_first)
  then have "prefix ''/'' s" using rmatches_rlit_None by blast
  then show ?thesis by (auto simp: prefix_def)
qed

lemma hex_run_unique:
  "list_all is_hex a \<Longrightarrow> list_all is_hex b \<Longrightarrow> \<not> is_hex c \<Longrightarrow> \<not> is_hex d \<Longrightarrow>
   a @ c # s = b @ d # t \<Longrightarrow> c = d"
proof (induction a arbitrary: b)
  case Nil
  then show ?case by (cases b) auto
next
  case (Cons x a)
  then show ?case by (cases b) auto
qed

end
