(* ===== verification/ItbProps.thy ===== *)
theory ItbProps
  imports ItbCorrect
begin

text \<open>
  The properties of \<^verbatim>\<open>bin/objdump2itb\<close>: the table it prints is the one the
  abstract machine describes, it reads back, it has one entry per instruction line, and the
  only failure is an instruction line before the first function label.
\<close>

subsection \<open>Events of a listing\<close>

definition is_func_ev :: "itb_event \<Rightarrow> bool" where
  "is_func_ev e = (case e of FuncEv f \<Rightarrow> True | _ \<Rightarrow> False)"

fun inst_events :: "itb_event list \<Rightarrow> (nat \<times> string \<times> string) list" where
  "inst_events [] = []"
| "inst_events (InstEv a m s # es) = (a, m, s) # inst_events es"
| "inst_events (e # es) = inst_events es"

lemma view_run_Cons:
  "fst (view_run v (e # es)) =
     (case view_step v e of None \<Rightarrow> [] | Some p \<Rightarrow> snd p @ fst (view_run (fst p) es))"
  "snd (view_run v (e # es)) =
     (case view_step v e of None \<Rightarrow> None | Some p \<Rightarrow> snd (view_run (fst p) es))"
  by (auto split: option.splits prod.splits)

lemma view_step_skip:
  assumes "\<not> is_func_ev e" and "\<And>a m s. e \<noteq> InstEv a m s"
  shows "\<exists>v'. view_step v e = Some (v', []) \<and> v_func v' = v_func v"
  using assms by (cases e) (auto simp: is_func_ev_def)

lemma view_run_insts:
  "snd (view_run v es) = Some v' \<Longrightarrow>
   map (\<lambda>it. (it_addr it, it_mcode it, it_asm it)) (fst (view_run v es)) = inst_events es"
proof (induction es arbitrary: v)
  case (Cons e es)
  then show ?case
    by (cases e) (auto simp: view_run_Cons simp del: view_run.simps split: option.splits if_splits)
qed simp

lemma view_run_no_func:
  "v_func v = None \<Longrightarrow> list_all (\<lambda>e. \<not> is_func_ev e) xs \<Longrightarrow>
   snd (view_run v (xs @ InstEv a m s # ys)) = None"
proof (induction xs arbitrary: v)
  case Nil
  then show ?case by simp
next
  case (Cons e es)
  show ?case
  proof (cases "\<exists>a m s. e = InstEv a m s")
    case True
    with Cons.prems(1) show ?thesis by auto
  next
    case False
    with view_step_skip[of e v] Cons.prems obtain v' where
      "view_step v e = Some (v', [])" "v_func v' = None" by auto
    with Cons.IH[of v'] Cons.prems(2) show ?thesis
      by (simp add: view_run_Cons del: view_run.simps)
  qed
qed

lemma view_run_has_func: "v_func v = Some f \<Longrightarrow> \<exists>v'. snd (view_run v es) = Some v'"
proof (induction es arbitrary: v f)
  case (Cons e es)
  have "\<exists>v' out g. view_step v e = Some (v', out) \<and> v_func v' = Some g"
    using Cons.prems by (cases e) auto
  then show ?case using Cons.IH by (auto simp: view_run_Cons simp del: view_run.simps)
qed simp

lemma view_run_None:
  "v_func v = None \<Longrightarrow> snd (view_run v es) = None \<Longrightarrow>
   \<exists>xs a m s ys. es = xs @ InstEv a m s # ys \<and> list_all (\<lambda>e. \<not> is_func_ev e) xs"
proof (induction es arbitrary: v)
  case Nil
  then show ?case by simp
next
  case (Cons e es)
  consider (inst) a m s where "e = InstEv a m s" | (func) f where "e = FuncEv f"
    | (skip) "\<not> is_func_ev e" "\<And>a m s. e \<noteq> InstEv a m s"
    by (cases e) (auto simp: is_func_ev_def)
  then show ?case
  proof cases
    case inst
    then have "e # es = [] @ InstEv a m s # es \<and> list_all (\<lambda>e. \<not> is_func_ev e) []" by simp
    then show ?thesis by blast
  next
    case func
    then have "snd (view_run (v\<lparr>v_func := Some f, v_source := []\<rparr>) es) = None"
      using Cons.prems(2) by (simp add: view_run_Cons del: view_run.simps)
    then show ?thesis using view_run_has_func[of "v\<lparr>v_func := Some f, v_source := []\<rparr>" f es] by auto
  next
    case skip
    with view_step_skip[of e v] Cons.prems(1) obtain v' where
      v': "view_step v e = Some (v', [])" "v_func v' = None" by auto
    with Cons.prems(2) have "snd (view_run v' es) = None"
      by (simp add: view_run_Cons del: view_run.simps)
    from Cons.IH[OF v'(2) this] obtain xs a m s ys where
      "es = xs @ InstEv a m s # ys" "list_all (\<lambda>e. \<not> is_func_ev e) xs" by blast
    with skip(1) have "e # es = (e # xs) @ InstEv a m s # ys \<and> list_all (\<lambda>e. \<not> is_func_ev e) (e # xs)"
      by simp
    then show ?thesis by blast
  qed
qed

lemma parse_sim:
  "fst (itb_parse listing) = unlines (concat (map item_lines (itb_items listing)))
    \<and> (case snd (view_run view_init (map classify (file_lines listing))) of
        None \<Rightarrow> snd (itb_parse listing) = Inl (AttributeError ''name'')
      | Some v' \<Rightarrow> \<exists>st'. snd (itb_parse listing) = Inr st' \<and> itb_rel st' v')"
  unfolding itb_parse_def itb_items_def
  by (rule itb_run_sim[OF itb_rel_init view_ok_init]) (rule file_lines_no_nl)

lemma parse_output_lines:
  "file_lines (fst (itb_parse listing)) = concat (map item_lines (itb_items listing))"
  unfolding parse_sim[THEN conjunct1] unlines_def
  by (rule file_lines_unlines) (auto dest: items_ok item_lines_no_nl)

lemma parse_reads: "read_itb (file_lines (fst (itb_parse listing))) = Some (itb_items listing)"
  unfolding parse_output_lines by (rule read_itb_items) (rule items_ok)

subsection \<open>Properties\<close>

text \<open>
  C1: the parser refines the abstract machine.  Its output is the table of the machine's
  items, rendered line by line, and it ends without an exception exactly when the machine
  does.
\<close>

theorem itb_parse_refines:
  "fst (itb_parse listing) = unlines (concat (map item_lines (itb_items listing)))
   \<and> ((\<exists>st. snd (itb_parse listing) = Inr st)
      \<longleftrightarrow> snd (view_run view_init (map classify (file_lines listing))) \<noteq> None)"
  using parse_sim[of listing] by (auto split: option.splits)

text \<open>
  C9: the table is readable.  For every listing, a reader that follows the documented
  format (the count of source lines, that many lines starting with a hash, then one record)
  reads the printed table back to exactly the machine's items.
\<close>

theorem itb_table_roundtrip:
  "read_itb (file_lines (fst (itb_parse listing))) = Some (itb_items listing)"
  by (rule parse_reads)

text \<open>
  C4: no instruction is lost.  When the parser ends normally, the table read back has one
  entry per instruction line of the listing, in order, with its address, encoding and text.
\<close>

theorem itb_no_instruction_lost:
  assumes "snd (itb_parse listing) = Inr st"
  shows "\<exists>items. read_itb (file_lines (fst (itb_parse listing))) = Some items
    \<and> map (\<lambda>it. (it_addr it, it_mcode it, it_asm it)) items
      = inst_events (map classify (file_lines listing))"
proof -
  obtain v' where "snd (view_run view_init (map classify (file_lines listing))) = Some v'"
    using parse_sim[of listing] assms by (auto split: option.splits)
  from view_run_insts[OF this] parse_reads show ?thesis by (auto simp: itb_items_def)
qed

theorem itb_no_instruction_lost_witness:
  "\<exists>items. read_itb (file_lines (fst (itb_parse (''00000256 <f>:'' @ [nl] @ ''256:'' @ [tab] @ ''0001  nop'' @ [nl])))) = Some items
    \<and> map (\<lambda>it. (it_addr it, it_mcode it, it_asm it)) items = [(598, ''0001'', ''nop'')]"
proof -
  let ?t = "''00000256 <f>:'' @ [nl] @ ''256:'' @ [tab] @ ''0001  nop'' @ [nl]"
  have run: "snd (itb_parse ?t) = Inr (itb_init\<lparr>current_cfunction :=
      Some \<lparr>cf_addr = ''00000256'', cf_name = ''f''\<rparr>, used_src := 1\<rparr>)" by code_simp
  have ev: "inst_events (map classify (file_lines ?t)) = [(598, ''0001'', ''nop'')]" by code_simp
  from itb_no_instruction_lost[OF run] show ?thesis unfolding ev .
qed

text \<open>
  C11: the only failure.  The parser raises exactly when an instruction line comes before the
  first function label, and then it is the attribute error of reading the name of
  \<^verbatim>\<open>None\<close>; otherwise it returns.
\<close>

theorem itb_fails_iff_orphan:
  "(snd (itb_parse listing) = Inl (AttributeError ''name'')
    \<longleftrightarrow> (\<exists>xs a m s ys. map classify (file_lines listing) = xs @ InstEv a m s # ys
          \<and> list_all (\<lambda>e. \<not> is_func_ev e) xs))
   \<and> ((\<exists>e. snd (itb_parse listing) = Inl e) \<longleftrightarrow> snd (itb_parse listing) = Inl (AttributeError ''name''))"
proof -
  let ?es = "map classify (file_lines listing)"
  have v: "v_func view_init = None" by (simp add: view_init_def)
  have "snd (view_run view_init ?es) = None \<longleftrightarrow>
      (\<exists>xs a m s ys. ?es = xs @ InstEv a m s # ys \<and> list_all (\<lambda>e. \<not> is_func_ev e) xs)"
    using view_run_None[OF v] view_run_no_func[OF v] by metis
  moreover have "snd (itb_parse listing) = Inl (AttributeError ''name'') \<longleftrightarrow>
      snd (view_run view_init ?es) = None"
    and "(\<exists>e. snd (itb_parse listing) = Inl e) \<longleftrightarrow> snd (view_run view_init ?es) = None"
    using parse_sim[of listing] by (auto split: option.splits)
  ultimately show ?thesis by simp
qed

text \<open>
  C12: what an entry holds.  Every entry of the printed table has at most ten source lines,
  and its function, file, line and encoding fields hold no white space, so that a reader that
  splits on blanks sees the seven fields of the format.
\<close>

theorem itb_entries_well_formed:
  "\<exists>items. read_itb (file_lines (fst (itb_parse listing))) = Some items
    \<and> list_all (\<lambda>it. length (it_source it) \<le> 10 \<and> list_all not_ws (it_func it)
        \<and> list_all not_ws (it_file it) \<and> list_all not_ws (it_line it)
        \<and> list_all not_ws (it_mcode it) \<and> it_asm it \<noteq> []) items"
  unfolding parse_reads using items_ok by (fastforce simp: list_all_iff item_ok_def)

lemma inst_header:
  assumes "current_cfunction st = Some f" and "current_src_code st = code_of src"
    and "list_all (\<lambda>t. nl \<notin> set t) src"
  shows "itb_inst st a m s = Inr (st\<lparr>used_src := 1\<rparr>,
    CHR ''#'' # show_nat (length src) @ [nl] @ unlines (map ((#) CHR ''#'') src)
      @ itb_record (digits_val 16 a) (cf_name f) (fmt_opt (current_src_file st))
          (fmt_line (current_src_line st)) (replace_all '' '' [] m)
          (length (split_ws (py_strip (replace_all [tab] '' '' s))))
          (py_strip (replace_all [tab] '' '' s)) @ [nl])"
proof (cases "src = []")
  case True
  then show ?thesis using assms by (simp add: itb_inst_def Let_def code_of_Nil unlines_def)
next
  case False
  have "split_on nl (code_of src) = map ((#) (CHR ''#'')) src"
    using False assms(3) by (intro code_of_lines) auto
  moreover have "code_of src @ [nl] = unlines (map ((#) (CHR ''#'')) src)"
    using False unlines_join[of "map ((#) (CHR ''#'')) src"] by (simp add: code_of_def)
  then have "code_of src @ nl # z = unlines (map ((#) (CHR ''#'')) src) @ z" for z
    by (metis append.assoc append_Cons append_Nil)
  ultimately show ?thesis
    using False assms by (simp add: itb_inst_def Let_def code_of_Nil)
qed

text \<open>
  C10: an instruction line as objdump writes it (white space, the address in at most eight hex
  digits, a colon, tabs, a four or eight digit encoding, at least two white-space characters,
  the assembly text) is printed after the source lines \<open>src\<close> collected so far, none or any
  number of them: the header \<open>#n\<close> with their count, each of them behind a hash sign, then
  exactly its address in decimal, the function, file and line in force, its encoding and its
  text with tabs turned into blanks.  The collected lines are kept for the next instruction.
\<close>

theorem itb_line_instruction:
  assumes "inst_shape addr tabs mcode pad asm" and "list_all is_ws indent"
    and "current_cfunction st = Some f" and "current_src_code st = code_of src"
    and "list_all (\<lambda>t. nl \<notin> set t) src"
  shows "itb_line st (indent @ addr @ '':'' @ tabs @ mcode @ pad @ asm) =
    Inr (st\<lparr>used_src := 1\<rparr>,
      CHR ''#'' # show_nat (length src) @ [nl] @ unlines (map ((#) CHR ''#'') src)
      @ itb_record (digits_val 16 addr) (cf_name f) (fmt_opt (current_src_file st))
        (fmt_line (current_src_line st)) mcode (length (split_ws asm))
        (map (\<lambda>c. if c = tab then CHR '' '' else c) asm) @ [nl])"
proof -
  let ?l = "addr @ '':'' @ tabs @ mcode @ pad @ asm"
  let ?asm = "map (\<lambda>c. if c = tab then CHR '' '' else c) asm"
  note a = assms(1)[unfolded inst_shape_def]
  have hd: "\<not> is_ws (hd ?l)" using a is_hex_not_ws by (cases addr) auto
  have last: "\<not> is_ws (last ?l)" using a by simp
  have "dropWhile is_ws (indent @ ?l) = ?l"
    using assms(2) hd a by (simp add: dropWhile_append2 list_all_iff) (cases addr; simp)
  then have strip: "py_strip (indent @ ?l) = ?l"
    using last by (simp add: py_strip_def lstrip_of_def rstrip_of_id)
  obtain m where m: "re_match INST_RE ?l = Some m" "group ''addr'' m = addr"
      "group ''mcode'' m = mcode" "group ''asm'' m = asm"
    using inst_line_match[OF assms(1)] by auto
  have hexs: "\<not> is_hex (CHR '':'')" "\<not> is_hex (CHR '' '')" "\<not> is_hex (CHR ''/'')" by (simp_all add: is_hex_def)
  have nf: "re_match FUNC_RE ?l = None"
  proof (rule ccontr)
    assume "re_match FUNC_RE ?l \<noteq> None"
    then obtain b t where "?l = b @ CHR '' '' # t" "list_all is_hex b" using func_head by blast
    then show False using hex_run_unique[of addr b "CHR '':''" "CHR '' ''"] a hexs by simp
  qed
  have ns: "re_match SRC_FILE_RE ?l = None"
  proof (rule ccontr)
    assume "re_match SRC_FILE_RE ?l \<noteq> None"
    then obtain t where "?l = CHR ''/'' # t" using src_head by blast
    then show False using a hexs by (cases addr) auto
  qed
  have mc: "replace_all '' '' [] mcode = mcode"
    using a hex_not_ws not_ws_clean by (simp add: replace_char_absent)
  have "?asm \<noteq> []" "\<not> is_ws (hd ?asm)" "\<not> is_ws (last ?asm)"
    using a is_lower_not_ws by (auto simp: hd_map last_map is_ws_def)
  then have sa: "py_strip ?asm = ?asm" by (intro py_strip_id) simp
  have ne: "?l \<noteq> []" by simp
  have sw: "split_ws_aux acc ?asm = split_ws_aux acc asm" for acc
    by (induction asm arbitrary: acc) (auto simp: is_ws_def)
  show ?thesis
    using strip ne nf ns m mc sa sw
    by (simp add: itb_line_def inst_header[OF assms(3-5)] replace_char split_ws_def)
qed

theorem itb_line_instruction_witness:
  "itb_line (itb_init\<lparr>current_cfunction := Some \<lparr>cf_addr = ''00000256'', cf_name = ''f''\<rparr>,
       current_src_file := Some ''a.c'', current_src_line := LineText ''7'',
       current_src_code := ''#  if (x)'' @ [nl] @ ''#    g();''\<rparr>)
     ('' '' @ ''264'' @ '':'' @ [tab] @ ''00a31363'' @ ''  '' @ ''bne'') =
   Inr (itb_init\<lparr>current_cfunction := Some \<lparr>cf_addr = ''00000256'', cf_name = ''f''\<rparr>,
       current_src_file := Some ''a.c'', current_src_line := LineText ''7'',
       current_src_code := ''#  if (x)'' @ [nl] @ ''#    g();'', used_src := 1\<rparr>,
     ''#2'' @ [nl] @ ''#  if (x)'' @ [nl] @ ''#    g();'' @ [nl] @
     ''612 f a.c 7 00a31363 1 bne'' @ [nl])"
proof -
  let ?st = "itb_init\<lparr>current_cfunction := Some \<lparr>cf_addr = ''00000256'', cf_name = ''f''\<rparr>,
       current_src_file := Some ''a.c'', current_src_line := LineText ''7'',
       current_src_code := ''#  if (x)'' @ [nl] @ ''#    g();''\<rparr>"
  let ?src = "[''  if (x)'', ''    g();'']"
  have 1: "inst_shape ''264'' [tab] ''00a31363'' ''  '' ''bne''" by code_simp
  have 2: "list_all is_ws '' ''" by code_simp
  have 3: "current_cfunction ?st = Some \<lparr>cf_addr = ''00000256'', cf_name = ''f''\<rparr>" by simp
  have 4: "current_src_code ?st = code_of ?src" by (simp add: code_of_def)
  have 5: "list_all (\<lambda>t. nl \<notin> set t) ?src" by code_simp
  have rec: "itb_record (digits_val 16 ''264'') ''f'' (fmt_opt (Some ''a.c''))
      (fmt_line (LineText ''7'')) ''00a31363''
      (length (split_ws ''bne'')) (map (\<lambda>c. if c = tab then CHR '' '' else c) ''bne'')
      = ''612 f a.c 7 00a31363 1 bne''" by code_simp
  have hdr: "CHR ''#'' # show_nat (length ?src) @ [nl] @ unlines (map ((#) CHR ''#'') ?src) =
      ''#2'' @ [nl] @ ''#  if (x)'' @ [nl] @ ''#    g();'' @ [nl]" by code_simp
  have "CHR ''#'' # show_nat (length ?src) @ [nl] @ unlines (map ((#) CHR ''#'') ?src) @ z =
      ''#2'' @ [nl] @ ''#  if (x)'' @ [nl] @ ''#    g();'' @ [nl] @ z" for z
    using arg_cong[OF hdr, of "\<lambda>h. h @ z"] by simp
  then show ?thesis
    using itb_line_instruction[OF 1 2 3 4 5] rec by (simp del: list.map length_Cons)
qed

text \<open>
  C35: the three patterns exclude each other, so the order in which the loop tries them does
  not matter: no line matches two of them.
\<close>

theorem itb_patterns_disjoint:
  "length (filter (\<lambda>r. re_match r s \<noteq> None) [FUNC_RE, SRC_FILE_RE, INST_RE]) \<le> 1"
proof -
  have hexs: "\<not> is_hex (CHR '':'')" "\<not> is_hex (CHR '' '')" "\<not> is_hex (CHR ''/'')" by (simp_all add: is_hex_def)
  have "re_match FUNC_RE s \<noteq> None \<Longrightarrow> re_match INST_RE s \<noteq> None \<Longrightarrow> False"
    using func_head inst_head hex_run_unique[OF _ _ hexs(2) hexs(1)] by fastforce
  moreover have "re_match FUNC_RE s \<noteq> None \<Longrightarrow> re_match SRC_FILE_RE s \<noteq> None \<Longrightarrow> False"
    using func_head src_head hexs(3) by (metis append_Cons list.inject list.pred_inject(2) neq_Nil_conv)
  moreover have "re_match INST_RE s \<noteq> None \<Longrightarrow> re_match SRC_FILE_RE s \<noteq> None \<Longrightarrow> False"
    using inst_head src_head hexs(3) by (metis append_Cons list.inject list.pred_inject(2) neq_Nil_conv)
  ultimately show ?thesis by auto
qed

end
