(* ===== verification/PyValue.thy ===== *)
theory PyValue
  imports PyRegex "HOL-Library.AList"
begin

text \<open>
  Dynamic values: what PyYAML hands to the scripts, dictionaries in insertion order, and
  Python objects as dictionaries of attributes.  Mapping keys are strings.  A float is kept
  as the text \<^verbatim>\<open>str\<close> gives for it: the scripts only print the floats they read.
\<close>

subsection \<open>Dictionaries\<close>

text \<open>
  A Python dictionary (and an \<^verbatim>\<open>OrderedDict\<close>) is an association list with distinct
  keys: an assignment replaces the value in place or appends the pair.
\<close>

type_synonym 'v dict = "(string \<times> 'v) list"

abbreviation dict_set :: "string \<Rightarrow> 'v \<Rightarrow> 'v dict \<Rightarrow> 'v dict" where
  "dict_set \<equiv> AList.update"

definition dict_keys :: "'v dict \<Rightarrow> string list" where
  "dict_keys d = map fst d"

definition dict_ok :: "'v dict \<Rightarrow> bool" where
  "dict_ok d \<longleftrightarrow> distinct (dict_keys d)"

definition dict_has :: "string \<Rightarrow> 'v dict \<Rightarrow> bool" where
  "dict_has k d \<longleftrightarrow> k \<in> set (dict_keys d)"

text \<open>The promises of an insertion-ordered dictionary, as its clients use them.\<close>

locale ordered_dict =
  fixes lookup :: "'d \<Rightarrow> 'k \<Rightarrow> 'v option"
    and insert :: "'k \<Rightarrow> 'v \<Rightarrow> 'd \<Rightarrow> 'd"
    and keys :: "'d \<Rightarrow> 'k list"
    and invar :: "'d \<Rightarrow> bool"
  assumes lookup_insert: "lookup (insert k v d) = (lookup d)(k \<mapsto> v)"
    and keys_insert: "keys (insert k v d) = (if k \<in> set (keys d) then keys d else keys d @ [k])"
    and lookup_keys: "lookup d k = None \<longleftrightarrow> k \<notin> set (keys d)"
    and invar_keys: "invar d \<longleftrightarrow> distinct (keys d)"
begin

lemma invar_insert: "invar d \<Longrightarrow> invar (insert k v d)"
  by (simp add: invar_keys keys_insert)

text \<open>A loop that inserts fresh, distinct keys appends them in order.\<close>

lemma keys_insert_all:
  assumes "distinct (map fst kvs)" and "set (map fst kvs) \<inter> set (keys d) = {}"
  shows "keys (foldl (\<lambda>d p. insert (fst p) (snd p) d) d kvs) = keys d @ map fst kvs"
  using assms by (induction kvs arbitrary: d) (auto simp: keys_insert)

lemma lookup_insert_all:
  "lookup (foldl (\<lambda>d p. insert (fst p) (snd p) d) d kvs) = lookup d ++ map_of (rev kvs)"
  by (induction kvs arbitrary: d) (simp_all add: lookup_insert map_add_def fun_eq_iff split: option.splits)

text \<open>A loop that inserts only keys it has not seen keeps the first value of each.\<close>

lemma lookup_insert_new:
  "lookup (foldl (\<lambda>d p. if fst p \<in> set (keys d) then d else insert (fst p) (snd p) d) d kvs) k =
     (case lookup d k of Some v \<Rightarrow> Some v | None \<Rightarrow> map_of kvs k)"
proof (induction kvs arbitrary: d)
  case (Cons p kvs)
  show ?case
  proof (cases "fst p \<in> set (keys d)")
    case True
    then obtain v where "lookup d (fst p) = Some v" using lookup_keys by (metis not_None_eq)
    with Cons True show ?thesis by (auto split: option.splits)
  next
    case False
    then have "lookup d (fst p) = None" using lookup_keys by simp
    with Cons False show ?thesis by (auto simp: lookup_insert split: option.splits)
  qed
qed (simp split: option.splits)

lemma keys_insert_new:
  "set (keys (foldl (\<lambda>d p. if fst p \<in> set (keys d) then d else insert (fst p) (snd p) d) d kvs))
    = set (keys d) \<union> fst ` set kvs"
  by (induction kvs arbitrary: d) (auto simp: keys_insert)

lemma invar_insert_new:
  "invar d \<Longrightarrow>
   invar (foldl (\<lambda>d p. if fst p \<in> set (keys d) then d else insert (fst p) (snd p) d) d kvs)"
  by (induction kvs arbitrary: d) (auto simp: invar_insert)

end

lemma keys_update: "map fst (AList.update k v d) = (if k \<in> set (map fst d) then map fst d else map fst d @ [k])"
  by (induction d) auto

interpretation pydict: ordered_dict map_of dict_set dict_keys dict_ok
proof unfold_locales
  fix k :: string and v :: 'v and d :: "'v dict"
  show "map_of (dict_set k v d) = (map_of d)(k \<mapsto> v)" by (simp add: update_conv')
  show "dict_keys (dict_set k v d) = (if k \<in> set (dict_keys d) then dict_keys d else dict_keys d @ [k])"
    by (simp add: dict_keys_def keys_update)
  show "map_of d k = None \<longleftrightarrow> k \<notin> set (dict_keys d)"
    by (simp add: dict_keys_def map_of_eq_None_iff)
  show "dict_ok d \<longleftrightarrow> distinct (dict_keys d)" by (simp add: dict_ok_def)
qed

lemma dict_has_map_of: "dict_has k d \<longleftrightarrow> map_of d k \<noteq> None"
  by (simp add: dict_has_def dict_keys_def map_of_eq_None_iff)

lemma dict_set_lookup [simp]: "map_of (dict_set k v d) k' = (if k' = k then Some v else map_of d k')"
  by (simp add: update_conv')

lemma dict_ok_set: "dict_ok d \<Longrightarrow> dict_ok (dict_set k v d)"
  by (rule pydict.invar_insert)

lemma dict_has_set [simp]: "dict_has k (dict_set k' v d) \<longleftrightarrow> k = k' \<or> dict_has k d"
  by (simp add: dict_has_map_of)

lemma map_of_rev_dict: "dict_ok d \<Longrightarrow> map_of (rev d) = map_of d"
  by (subst map_of_inject_set) (simp_all add: dict_ok_def dict_keys_def rev_map[symmetric])

lemma dict_set_new: "\<not> dict_has k d \<Longrightarrow> dict_set k v d = d @ [(k, v)]"
  by (induction d) (auto simp: dict_has_def dict_keys_def)

subsection \<open>Values\<close>

datatype pyval =
    VNone
  | VBool bool
  | VInt int
  | VFloat string
  | VStr string
  | VList "pyval list"
  | VDict "(string \<times> pyval) list"

fun truthy :: "pyval \<Rightarrow> bool" where
  "truthy VNone = False"
| "truthy (VBool b) = b"
| "truthy (VInt i) = (i \<noteq> 0)"
| "truthy (VFloat f) = (f \<noteq> ''0.0'' \<and> f \<noteq> ''-0.0'')"
| "truthy (VStr s) = (s \<noteq> [])"
| "truthy (VList xs) = (xs \<noteq> [])"
| "truthy (VDict d) = (d \<noteq> [])"

text \<open>
  Comparing a float with zero and with one.  Its text is a sign, digits with a point and
  perhaps an exponent, which is there only below a ten-thousandth and from ten to the sixteenth
  on, or one of \<^verbatim>\<open>nan\<close>, \<^verbatim>\<open>inf\<close> and \<^verbatim>\<open>-inf\<close>.
\<close>

definition float_pos :: "string \<Rightarrow> bool" where
  "float_pos f \<longleftrightarrow> f \<noteq> ''0.0'' \<and> f \<noteq> ''nan'' \<and> hd f \<noteq> CHR ''-''"

definition float_gt1 :: "string \<Rightarrow> bool" where
  "float_gt1 f \<longleftrightarrow> float_pos f \<and>
     (f = ''inf'' \<or> py_contains ''e+'' f \<or>
      (\<not> py_contains ''e-'' f \<and>
       (let whole = digits_val 10 (takeWhile (\<lambda>c. c \<noteq> CHR ''.'') f);
            frac = tl (dropWhile (\<lambda>c. c \<noteq> CHR ''.'') f)
        in 1 < whole \<or> (whole = 1 \<and> list_ex (\<lambda>c. c \<noteq> CHR ''0'') frac))))"

lemma float_gt1_examples:
  "float_gt1 ''1.5''" "float_gt1 ''2.0''" "float_gt1 ''1e+16''" "float_gt1 ''inf''"
  "\<not> float_gt1 ''1.0''" "\<not> float_gt1 ''0.5''" "\<not> float_gt1 ''-3.0''" "\<not> float_gt1 ''2e-05''" "\<not> float_gt1 ''nan''"
  by code_simp+

text \<open>\<^verbatim>\<open>x in v\<close> for a string \<^verbatim>\<open>x\<close>, \<^verbatim>\<open>v['k']\<close>, iteration and \<^verbatim>\<open>.items()\<close>.\<close>

fun py_in :: "string \<Rightarrow> pyval \<Rightarrow> bool res" where
  "py_in x (VStr s) = Inr (py_contains x s)"
| "py_in x (VList xs) = Inr (VStr x \<in> set xs)"
| "py_in x (VDict d) = Inr (dict_has x d)"
| "py_in x _ = Inl TypeError"

fun py_getitem :: "pyval \<Rightarrow> string \<Rightarrow> pyval res" where
  "py_getitem (VDict d) k = (case map_of d k of None \<Rightarrow> Inl (KeyError k) | Some v \<Rightarrow> Inr v)"
| "py_getitem _ k = Inl TypeError"

fun py_iter :: "pyval \<Rightarrow> pyval list res" where
  "py_iter (VStr s) = Inr (map (\<lambda>c. VStr [c]) s)"
| "py_iter (VList xs) = Inr xs"
| "py_iter (VDict d) = Inr (map (\<lambda>p. VStr (fst p)) d)"
| "py_iter _ = Inl TypeError"

fun py_items :: "pyval \<Rightarrow> pyval dict res" where
  "py_items (VDict d) = Inr d"
| "py_items _ = Inl (AttributeError ''items'')"

text \<open>The mapping after \<^verbatim>\<open>**\<close> in a call.\<close>

fun py_kwargs :: "pyval \<Rightarrow> pyval dict res" where
  "py_kwargs (VDict d) = Inr d"
| "py_kwargs _ = Inl TypeError"

subsection \<open>Text of values\<close>

definition hex_digit :: "nat \<Rightarrow> char" where
  "hex_digit d = ''0123456789abcdef'' ! d"

definition repr_char :: "char \<Rightarrow> char \<Rightarrow> string" where
  "repr_char q c =
     (if c = q \<or> c = backslash then [backslash, c]
      else if c = nl then [backslash, CHR ''n'']
      else if c = CHR 0x0D then [backslash, CHR ''r'']
      else if c = tab then [backslash, CHR ''t'']
      else (let n = of_char c :: nat in
        if n < 32 \<or> (127 \<le> n \<and> n \<le> 160) \<or> n = 173
        then [backslash, CHR ''x'', hex_digit (n div 16), hex_digit (n mod 16)] else [c]))"

text \<open>\<^verbatim>\<open>repr\<close> of a string: double quotes only when it has a single and no double quote.\<close>

definition repr_str :: "string \<Rightarrow> string" where
  "repr_str s =
     (let q = (if quote1 \<in> set s \<and> quote2 \<notin> set s then quote2 else quote1)
      in q # concat (map (repr_char q) s) @ [q])"

fun py_repr :: "pyval \<Rightarrow> string" where
  "py_repr VNone = ''None''"
| "py_repr (VBool b) = (if b then ''True'' else ''False'')"
| "py_repr (VInt i) = show_int i"
| "py_repr (VFloat f) = f"
| "py_repr (VStr s) = repr_str s"
| "py_repr (VList xs) = ''['' @ py_join '', '' (map py_repr xs) @ '']''"
| "py_repr (VDict d) = ''{'' @ py_join '', '' (map (\<lambda>(k, v). repr_str k @ '': '' @ py_repr v) d) @ ''}''"

definition py_str :: "pyval \<Rightarrow> string" where
  "py_str v = (case v of VStr s \<Rightarrow> s | _ \<Rightarrow> py_repr v)"

subsection \<open>Objects\<close>

text \<open>
  An object is the dictionary of its instance attributes.  Reading an attribute that is not
  there raises; a method is found only while no instance attribute of its name hides it.
\<close>

type_synonym obj = "pyval dict"

definition get_attr :: "obj \<Rightarrow> string \<Rightarrow> pyval res" where
  "get_attr ob k = (case map_of ob k of None \<Rightarrow> Inl (AttributeError k) | Some v \<Rightarrow> Inr v)"

definition set_attrs :: "obj \<Rightarrow> pyval dict \<Rightarrow> obj" where
  "set_attrs ob kw = foldl (\<lambda>ob p. dict_set (fst p) (snd p) ob) ob kw"

definition call_method :: "obj \<Rightarrow> string \<Rightarrow> 'a res \<Rightarrow> 'a res" where
  "call_method ob name body = (if dict_has name ob then Inl TypeError else body)"

definition str_attr :: "obj \<Rightarrow> string \<Rightarrow> string res" where
  "str_attr ob k = bindE (get_attr ob k) (\<lambda>v. case v of VStr s \<Rightarrow> Inr s | _ \<Rightarrow> Inl TypeError)"

lemma set_attrs_lookup: "map_of (set_attrs ob kw) = map_of ob ++ map_of (rev kw)"
  unfolding set_attrs_def by (rule pydict.lookup_insert_all)

lemma get_attr_set [simp]:
  "get_attr (dict_set k v ob) k' = (if k' = k then Inr v else get_attr ob k')"
  by (simp add: get_attr_def)

lemma get_attr_Inr: "get_attr ob k = Inr v \<longleftrightarrow> map_of ob k = Some v"
  by (simp add: get_attr_def split: option.splits)

lemma str_attr_Inr: "str_attr ob k = Inr s \<longleftrightarrow> map_of ob k = Some (VStr s)"
  by (auto simp: str_attr_def get_attr_def split: option.splits pyval.splits)

end
