(* ===== verification/CvRegression.thy ===== *)
theory CvRegression
  imports PyValue
begin

text \<open>
  \<^verbatim>\<open>bin/lib/cv_regression.py\<close>: builds, tests and the regression that holds them.
  A build or a test is an object, that is, the dictionary of the attributes that its
  constructor set from defaults and keyword arguments; the regression keeps both in
  insertion-ordered dictionaries under their names.
\<close>

subsection \<open>Constants and the project root\<close>

definition DEFAULT_ISS :: string where "DEFAULT_ISS = ''YES''"
definition DEFAULT_CFG :: string where "DEFAULT_CFG = ''default''"
definition DEFAULT_SIMULATION_PASSED :: string where "DEFAULT_SIMULATION_PASSED = ''SIMULATION PASSED''"
definition DEFAULT_SIMULATION_FAILED :: string where "DEFAULT_SIMULATION_FAILED = ''SIMULATION FAILED''"
definition DEFAULT_SKIP_SIM :: "pyval list" where "DEFAULT_SKIP_SIM = []"

text \<open>The directory of the module's file, and the working directory, are arguments.\<close>

definition get_proj_root :: "string \<Rightarrow> string \<Rightarrow> string" where
  "get_proj_root cwd lib_dir = abspath cwd (path_join lib_dir [''..'', ''..''])"

text \<open>
  The keyword arguments of a constructor call \<^verbatim>\<open>C(name=k, simulator=s, **d)\<close>:
  a repeated keyword, or one named \<^verbatim>\<open>self\<close>, is a \<^verbatim>\<open>TypeError\<close>.
\<close>

definition ctor_kwargs :: "pyval dict \<Rightarrow> pyval dict \<Rightarrow> pyval dict res" where
  "ctor_kwargs fixed d =
     (if list_ex (\<lambda>p. dict_has (fst p) fixed \<or> fst p = ''self'') d then Inl TypeError else Inr (fixed @ d))"

definition abs_dir_attr :: "string \<Rightarrow> string \<Rightarrow> obj \<Rightarrow> obj res" where
  "abs_dir_attr cwd lib_dir ob =
     bindE (str_attr ob ''dir'') (\<lambda>dir.
       Inr (dict_set ''abs_dir'' (VStr (abspath cwd (path_join (get_proj_root cwd lib_dir) [dir]))) ob))"

subsection \<open>Builds\<close>

definition build_init :: "string \<Rightarrow> string \<Rightarrow> pyval dict \<Rightarrow> obj res" where
  "build_init cwd lib_dir kw =
     abs_dir_attr cwd lib_dir
       (set_attrs [(''iss'', VStr DEFAULT_ISS), (''cfg'', VStr DEFAULT_CFG)] kw)"

definition set_cov :: "obj \<Rightarrow> obj res" where
  "set_cov ob = call_method ob ''set_cov''
     (case get_attr ob ''cov'' of
        Inr _ \<Rightarrow> Inr ob
      | Inl _ \<Rightarrow> Inr (dict_set ''cov'' (VBool True) ob))"

text \<open>
  \<^verbatim>\<open>self.k = re.sub('make', make_sub, self.k)\<close>: the attribute is read, then the
  template is parsed, then the subject must be a string.
\<close>

definition sub_attr :: "string \<Rightarrow> string \<Rightarrow> obj \<Rightarrow> obj res" where
  "sub_attr k make_sub ob =
     bindE (get_attr ob k) (\<lambda>v.
     bindE (expand_repl ''make'' make_sub) (\<lambda>r.
       case v of VStr s \<Rightarrow> Inr (dict_set k (VStr (replace_all ''make'' r s)) ob)
       | _ \<Rightarrow> Inl TypeError))"

definition build_sub_make :: "string \<Rightarrow> obj \<Rightarrow> obj res" where
  "build_sub_make make_sub ob = call_method ob ''sub_make'' (sub_attr ''cmd'' make_sub ob)"

definition build_str :: "obj \<Rightarrow> string res" where
  "build_str ob =
     bindE (get_attr ob ''name'') (\<lambda>n. bindE (get_attr ob ''cmd'') (\<lambda>c. bindE (get_attr ob ''dir'') (\<lambda>d.
       Inr (py_str n @ '' '' @ py_str c @ '' '' @ py_str d))))"

subsection \<open>Tests\<close>

definition test_defaults :: "pyval dict" where
  "test_defaults =
     [(''skip_sim'', VList DEFAULT_SKIP_SIM),
      (''simulation_passed'', VStr DEFAULT_SIMULATION_PASSED),
      (''simulation_failed'', VStr DEFAULT_SIMULATION_FAILED),
      (''iss'', VStr DEFAULT_ISS), (''num'', VInt 1), (''builds'', VList [])]"

definition test_init :: "string \<Rightarrow> string \<Rightarrow> pyval dict \<Rightarrow> obj res" where
  "test_init cwd lib_dir kw =
     bindE (abs_dir_attr cwd lib_dir (set_attrs test_defaults kw)) (\<lambda>ob.
       if dict_has ''log'' ob then Inr ob
       else bindE (get_attr ob ''name'') (\<lambda>n. Inr (dict_set ''log'' n ob)))"

definition test_sub_make :: "string \<Rightarrow> obj \<Rightarrow> obj res" where
  "test_sub_make make_sub ob = call_method ob ''sub_make''
     (bindE (sub_attr ''cmd'' make_sub ob) (\<lambda>ob'.
        case sub_attr ''precmd'' make_sub ob' of
          Inl (AttributeError a) \<Rightarrow> Inr ob'
        | r \<Rightarrow> r))"

subsection \<open>Regressions\<close>

record regression =
  r_attrs :: "pyval dict"
  r_builds :: "obj dict"
  r_tests :: "obj dict"

definition regression_init :: "pyval dict \<Rightarrow> regression" where
  "regression_init kw = \<lparr>r_attrs = set_attrs [] kw, r_builds = [], r_tests = []\<rparr>"

text \<open>
  A repeated name does not reach \<^verbatim>\<open>sys.exit(2)\<close>: the message that is formatted first
  subscripts the object, which raises a \<^verbatim>\<open>TypeError\<close>.
\<close>

definition add_build :: "regression \<Rightarrow> obj \<Rightarrow> regression res" where
  "add_build r b =
     bindE (str_attr b ''name'') (\<lambda>n.
       if dict_has n (r_builds r) then Inl TypeError
       else Inr (r\<lparr>r_builds := dict_set n b (r_builds r)\<rparr>))"

definition check_builds :: "regression \<Rightarrow> pyval \<Rightarrow> unit res" where
  "check_builds r v =
     (case py_iter v of
        Inl e \<Rightarrow> Inl (SystemExit 2)
      | Inr bs \<Rightarrow> foldE (\<lambda>u b. case b of
            VStr s \<Rightarrow> if dict_has s (r_builds r) then Inr () else Inl (SystemExit 2)
          | _ \<Rightarrow> Inl (SystemExit 2)) () bs)"

definition add_test :: "regression \<Rightarrow> obj \<Rightarrow> regression res" where
  "add_test r t =
     bindE (str_attr t ''name'') (\<lambda>n.
       if dict_has n (r_tests r) then Inl TypeError
       else bindE (get_attr t ''builds'') (\<lambda>v.
            bindE (check_builds r v) (\<lambda>u.
              Inr (r\<lparr>r_tests := dict_set n t (r_tests r)\<rparr>))))"

text \<open>The build names a test lists, and the objects they name, as \<^verbatim>\<open>get_builds\<close> reads them.\<close>

definition lookup_build :: "regression \<Rightarrow> pyval \<Rightarrow> (string \<times> obj) res" where
  "lookup_build r b = (case b of
      VStr s \<Rightarrow> (case map_of (r_builds r) s of None \<Rightarrow> Inl (KeyError s) | Some x \<Rightarrow> Inr (s, x))
    | VList _ \<Rightarrow> Inl TypeError
    | VDict _ \<Rightarrow> Inl TypeError
    | v \<Rightarrow> Inl (KeyError (py_repr v)))"

text \<open>
  The set comprehension of \<^verbatim>\<open>get_builds\<close>; objects are identified by the key they are
  stored under, and the order of the returned list is not determined, so it is a set here.
\<close>

definition get_builds :: "regression \<Rightarrow> (string \<times> obj) set res" where
  "get_builds r =
     bindE (mapE (\<lambda>t. bindE (get_attr (snd t) ''builds'') (\<lambda>v.
              bindE (py_iter v) (mapE (lookup_build r)))) (r_tests r))
       (\<lambda>bs. Inr (set (concat bs)))"

definition get_builds_with_no_tests :: "regression \<Rightarrow> obj list res" where
  "get_builds_with_no_tests r =
     foldE (\<lambda>acc b.
        bindE (foldE (\<lambda>found t.
                 bindE (str_attr (snd b) ''name'') (\<lambda>n.
                 bindE (get_attr (snd t) ''builds'') (\<lambda>v.
                 bindE (py_in n v) (\<lambda>i. Inr (found \<or> i))))) False (r_tests r))
          (\<lambda>found. Inr (if found then acc else acc @ [snd b]))) [] (r_builds r)"

definition get_tests_of_build :: "regression \<Rightarrow> string \<Rightarrow> obj list res" where
  "get_tests_of_build r build =
     bindE (mapE (\<lambda>t. bindE (get_attr (snd t) ''builds'') (\<lambda>v.
              bindE (py_in build v) (\<lambda>i. Inr (if i then [snd t] else [])))) (r_tests r))
       (\<lambda>ts. Inr (concat ts))"

end
