(* ===== verification/PyIO.thy ===== *)
theory PyIO
  imports PyValue
begin

text \<open>
  Scripts that act on the outside: a computation is the list of its effects, in order, with
  its result or the exception that ended it.  Also \<^verbatim>\<open>str.format\<close> and the remaining
  string operations of the scripts that build command lines.
\<close>

subsection \<open>Effects in order\<close>

type_synonym ('e, 'a) io = "'e list \<times> 'a res"

definition retIO :: "'a \<Rightarrow> ('e, 'a) io" where
  "retIO x = ([], Inr x)"

definition liftIO :: "'a res \<Rightarrow> ('e, 'a) io" where
  "liftIO r = ([], r)"

definition doIO :: "'e \<Rightarrow> ('e, unit) io" where
  "doIO e = ([e], Inr ())"

definition bindIO :: "('e, 'a) io \<Rightarrow> ('a \<Rightarrow> ('e, 'b) io) \<Rightarrow> ('e, 'b) io" where
  "bindIO m f = (case snd m of Inl e \<Rightarrow> (fst m, Inl e) | Inr x \<Rightarrow> (fst m @ fst (f x), snd (f x)))"

text \<open>For evaluation: the continuation runs once.\<close>

lemma bindIO_once [code]:
  "bindIO m f = (case m of (es, r) \<Rightarrow> (case r of Inl e \<Rightarrow> (es, Inl e)
     | Inr x \<Rightarrow> (case f x of (fs, r') \<Rightarrow> (es @ fs, r'))))"
  by (simp add: bindIO_def split: prod.split sum.split)

primrec forIO :: "('a \<Rightarrow> ('e, unit) io) \<Rightarrow> 'a list \<Rightarrow> ('e, unit) io" where
  "forIO f [] = retIO ()"
| "forIO f (x # xs) = bindIO (f x) (\<lambda>u. forIO f xs)"

lemma bindIO_lift [simp, py_simps]:
  "bindIO (liftIO (Inr x)) f = f x"
  "bindIO (liftIO (Inl e)) f = liftIO (Inl e)"
  by (simp_all add: bindIO_def liftIO_def)

lemma bindIO_ret [simp, py_simps]: "bindIO (retIO x) f = f x"
  by (simp add: bindIO_def retIO_def)

lemma bindIO_do [simp, py_simps]: "bindIO (doIO a) f = (a # fst (f ()), snd (f ()))"
  by (simp add: bindIO_def doIO_def)

lemma bindIO_pair [simp, py_simps]:
  "bindIO (es, Inr x) f = (es @ fst (f x), snd (f x))"
  "bindIO (es, Inl e) f = (es, Inl e)"
  by (simp_all add: bindIO_def)

lemma IO_sel [simp, py_simps]:
  "fst (retIO x) = []" "snd (retIO x) = Inr x"
  "fst (liftIO r) = []" "snd (liftIO r) = r"
  "fst (doIO e) = [e]" "snd (doIO e) = Inr ()"
  by (simp_all add: retIO_def liftIO_def doIO_def)

lemma bindIO_assoc: "bindIO (bindIO m f) g = bindIO m (\<lambda>x. bindIO (f x) g)"
  by (auto simp: bindIO_def split: sum.splits)

lemma bindIO_eq_Inr:
  "bindIO m f = (es, Inr y) \<longleftrightarrow>
   (\<exists>as bs x. m = (as, Inr x) \<and> f x = (bs, Inr y) \<and> es = as @ bs)"
  by (cases m; cases "snd m") (auto simp: bindIO_def prod_eq_iff)

lemma snd_bindIO: "snd (bindIO m f) = bindE (snd m) (\<lambda>x. snd (f x))"
  by (cases m; cases "snd m") (auto simp: bindIO_def)

text \<open>A loop whose body always returns does the effects of its rounds in order.\<close>

lemma forIO_returns:
  "(\<And>x. x \<in> set xs \<Longrightarrow> snd (f x) = Inr ()) \<Longrightarrow> forIO f xs = (concat (map (\<lambda>x. fst (f x)) xs), Inr ())"
  by (induction xs) (simp_all add: bindIO_def retIO_def)

lemma forIO_Inr:
  "forIO f xs = (es, Inr u) \<Longrightarrow>
   es = concat (map (\<lambda>x. fst (f x)) xs) \<and> list_all (\<lambda>x. snd (f x) = Inr ()) xs"
  by (induction xs arbitrary: es) (auto simp: bindIO_eq_Inr retIO_def)

lemma forIO_Inl: "snd (forIO f xs) = Inl e \<Longrightarrow> \<exists>x \<in> set xs. snd (f x) = Inl e"
  by (induction xs) (auto simp: snd_bindIO bindE_eq_Inl)

text \<open>The effects of a sequence and of a loop are effects of their parts.\<close>

lemma bindIO_effects: "e \<in> set (fst (bindIO m f)) \<Longrightarrow> e \<in> set (fst m) \<or> (\<exists>x. snd m = Inr x \<and> e \<in> set (fst (f x)))"
  by (cases "snd m") (auto simp: bindIO_def)

lemma forIO_effects: "e \<in> set (fst (forIO f xs)) \<Longrightarrow> \<exists>x \<in> set xs. e \<in> set (fst (f x))"
  by (induction xs) (auto dest: bindIO_effects)

subsection \<open>More strings\<close>

text \<open>\<^verbatim>\<open>s.replace(old, new)\<close>; an empty \<open>old\<close> is found between all characters.\<close>

definition py_replace :: "string \<Rightarrow> string \<Rightarrow> string \<Rightarrow> string" where
  "py_replace old new s =
     (if old = [] then new @ concat (map (\<lambda>c. c # new) s) else replace_all old new s)"

text \<open>\<^verbatim>\<open>s[:-n]\<close>\<close>

definition drop_last :: "nat \<Rightarrow> 'a list \<Rightarrow> 'a list" where
  "drop_last n s = take (length s - n) s"

text \<open>\<^verbatim>\<open>s.rsplit('/', 1)[1]\<close>: what follows the last slash, which must be there.\<close>

definition after_slash :: "string \<Rightarrow> string res" where
  "after_slash s = (if CHR ''/'' \<in> set s then Inr (basename s) else Inl IndexError)"

lemma drop_last_append [simp]: "length b = n \<Longrightarrow> drop_last n (a @ b) = a"
  by (simp add: drop_last_def)

lemma after_slash_append: "CHR ''/'' \<notin> set b \<Longrightarrow> after_slash (a @ CHR ''/'' # b) = Inr b"
proof -
  assume b: "CHR ''/'' \<notin> set b"
  have "takeWhile (\<lambda>c. c \<noteq> CHR ''/'') (rev b @ CHR ''/'' # rev a) = rev b"
    using b by (subst takeWhile_append2) auto
  then show ?thesis by (simp add: after_slash_def basename_def)
qed

subsection \<open>Format\<close>

text \<open>
  \<^verbatim>\<open>str.format\<close> with string arguments and numbered fields.  Doubled braces stand for a
  brace; a field that is a number selects an argument; a single closing brace, an unclosed
  field and an unnumbered one are \<^verbatim>\<open>ValueError\<close>s (the numbered ones come first), and a
  name is a missing keyword.  Attribute, index, conversion and format parts of a field are not
  used by the templates and are errors here.
\<close>

definition brace :: "char \<Rightarrow> bool" where
  "brace c \<longleftrightarrow> c = CHR ''{'' \<or> c = CHR ''}''"

definition field_value :: "string \<Rightarrow> string list \<Rightarrow> string res" where
  "field_value fld as =
     (if fld = [] \<or> list_ex (\<lambda>c. c \<in> set ''{.[!:'') fld then Inl ValueError
      else if list_all is_digit fld
      then (let i = digits_val 10 fld in if i < length as then Inr (as ! i) else Inl IndexError)
      else Inl (KeyError fld))"

function py_format :: "string \<Rightarrow> string list \<Rightarrow> string res" where
  "py_format [] as = Inr []"
| "py_format (c # s) as =
     (if c = CHR ''{'' then
        (if s \<noteq> [] \<and> hd s = CHR ''{'' then bindE (py_format (tl s) as) (\<lambda>r. Inr (c # r))
         else (let fld = takeWhile (\<lambda>d. d \<noteq> CHR ''}'') s; rest = drop (length fld) s in
           if rest = [] then Inl ValueError
           else bindE (field_value fld as) (\<lambda>v. bindE (py_format (tl rest) as) (\<lambda>r. Inr (v @ r)))))
      else if c = CHR ''}'' then
        (if s \<noteq> [] \<and> hd s = CHR ''}'' then bindE (py_format (tl s) as) (\<lambda>r. Inr (c # r))
         else Inl ValueError)
      else bindE (py_format s as) (\<lambda>r. Inr (c # r)))"
  by pat_completeness auto
termination by (relation "measure (\<lambda>(s, as). length s)") auto

lemma py_format_plain:
  "list_all (\<lambda>c. \<not> brace c) t \<Longrightarrow> py_format (t @ s) as = bindE (py_format s as) (\<lambda>r. Inr (t @ r))"
proof (induction t)
  case Nil
  then show ?case by (cases "py_format s as") simp_all
next
  case (Cons c t)
  then show ?case by (cases "py_format s as") (simp_all add: brace_def)
qed

lemma py_format_no_braces: "list_all (\<lambda>c. \<not> brace c) t \<Longrightarrow> py_format t as = Inr t"
  using py_format_plain[of t "[]" as] by simp

text \<open>Formatting is done piece by piece, when the pieces are whole.\<close>

lemma py_format_append:
  "py_format a as = Inr x \<Longrightarrow> py_format (a @ b) as = bindE (py_format b as) (\<lambda>r. Inr (x @ r))"
proof (induction a as arbitrary: x rule: py_format.induct)
  case (1 as)
  then show ?case by (cases "py_format b as") simp_all
next
  case (2 c s as)
  show ?case
  proof (cases "c = CHR ''{''")
    case True
    show ?thesis
    proof (cases "s \<noteq> [] \<and> hd s = CHR ''{''")
      case dbl: True
      then show ?thesis using 2 True by (cases "py_format b as") (auto simp: bindE_eq_Inr bindE_assoc)
    next
      case False
      let ?f = "takeWhile (\<lambda>d. d \<noteq> CHR ''}'') s"
      have r: "drop (length ?f) s \<noteq> []" using 2 True False by (auto simp: Let_def split: if_splits)
      have "\<exists>d \<in> set s. d = CHR ''}''"
      proof (rule ccontr)
        assume "\<not> ?thesis"
        then have "?f = s" by (subst takeWhile_eq_all_conv) blast
        with r show False by simp
      qed
      then have t: "takeWhile (\<lambda>d. d \<noteq> CHR ''}'') (s @ b) = ?f" by auto
      have l: "length ?f \<le> length s" by (rule length_takeWhile_le)
      obtain v y where v: "field_value ?f as = Inr v" and y: "py_format (tl (drop (length ?f) s)) as = Inr y"
        and x: "x = v @ y"
        using 2 True False r by (auto simp: Let_def bindE_eq_Inr)
      have "py_format (tl (drop (length ?f) s) @ b) as = bindE (py_format b as) (\<lambda>r. Inr (y @ r))"
        by (rule "2.IH"(2)[OF True False refl refl r v y])
      moreover have "s \<noteq> []" using r by auto
      ultimately show ?thesis using True False r t l v x
        by (cases "py_format b as") (simp_all add: Let_def)
    qed
  next
    case False
    then show ?thesis using 2
      by (cases "py_format b as") (auto simp: bindE_eq_Inr bindE_assoc split: if_splits)
  qed
qed

lemma digit_fields:
  "digits_val 10 ''0'' = 0"
  "digits_val 10 ''1'' = 1"
  "digits_val 10 ''2'' = 2"
  "digits_val 10 ''3'' = 3"
  "digits_val 10 ''4'' = 4"
  "digits_val 10 ''5'' = 5"
  "digits_val 10 ''6'' = 6"
  "digits_val 10 ''7'' = 7"
  "digits_val 10 ''8'' = 8"
  by code_simp+

lemma field_values [simp, py_simps]:
  "field_value ''0'' as = (if 0 < length as then Inr (as ! 0) else Inl IndexError)"
  "field_value ''1'' as = (if 1 < length as then Inr (as ! 1) else Inl IndexError)"
  "field_value ''2'' as = (if 2 < length as then Inr (as ! 2) else Inl IndexError)"
  "field_value ''3'' as = (if 3 < length as then Inr (as ! 3) else Inl IndexError)"
  "field_value ''4'' as = (if 4 < length as then Inr (as ! 4) else Inl IndexError)"
  "field_value ''5'' as = (if 5 < length as then Inr (as ! 5) else Inl IndexError)"
  "field_value ''6'' as = (if 6 < length as then Inr (as ! 6) else Inl IndexError)"
  "field_value ''7'' as = (if 7 < length as then Inr (as ! 7) else Inl IndexError)"
  "field_value ''8'' as = (if 8 < length as then Inr (as ! 8) else Inl IndexError)"
  by (simp_all add: field_value_def is_digit_def digit_fields)

end
