(* ===== verification/CvRegress.thy ===== *)
theory CvRegress
  imports CvRegression PyIO
begin

text \<open>
  \<^verbatim>\<open>bin/cv_regress\<close>: reading a regression YAML into a regression object and writing
  the outputs.  The file system, PyYAML and the location of the script are fields of
  \<open>world\<close>; the jinja2 templates are only called, so an output is the call of a template
  with its arguments, and rendering is taken to return.
\<close>

subsection \<open>Arguments and surroundings\<close>

record world =
  w_script_dir :: string
  w_cwd :: string
  w_isdir :: "string \<Rightarrow> bool"
  w_read :: "string \<Rightarrow> string option"
  w_yaml :: "string \<Rightarrow> pyval res"
  w_writable :: "string \<Rightarrow> bool"
  w_chmod :: "string \<Rightarrow> bool"

record cvr_args =
  a_file :: "string list option"
  a_project :: string
  a_outfile :: "string option"
  a_results :: "string option"
  a_simulator :: string
  a_cov :: bool
  a_cfg :: "string option"
  a_iss :: "string option"
  a_parallel :: string
  a_metrics :: bool
  a_num :: "string option"
  a_lsf :: "string option"
  a_make :: "string option"
  a_makearg :: "string list option"
  a_sh :: bool
  a_vsif :: bool
  a_toolchain :: string

subsection \<open>Paths and test names\<close>

definition get_project_path :: "world \<Rightarrow> string \<Rightarrow> string" where
  "get_project_path w project = abspath (w_cwd w) (path_join (w_script_dir w) [''..'', project])"

definition test_dirs :: "world \<Rightarrow> string \<Rightarrow> string list" where
  "test_dirs w project =
     [path_join (get_project_path w project) [''tests/programs/corev-dv''],
      path_join (get_project_path w project) [''tests/programs/custom''],
      path_join (get_project_path w project) [''tests/programs/embench'']]"

definition check_valid_test :: "world \<Rightarrow> string \<Rightarrow> string \<Rightarrow> unit res" where
  "check_valid_test w project name =
     (if list_ex (\<lambda>t. w_isdir w (path_join t [name])) (test_dirs w project)
      then Inr () else Inl (SystemExit 2))"

definition get_filter_dir :: "world \<Rightarrow> string" where
  "get_filter_dir w = abspath (w_cwd w) (path_join (w_script_dir w) [''vmgr''])"

definition get_regress_path :: "world \<Rightarrow> string \<Rightarrow> string" where
  "get_regress_path w project = abspath (w_cwd w) (path_join (get_project_path w project) [''regress''])"

definition get_results_path :: "world \<Rightarrow> string \<Rightarrow> string" where
  "get_results_path w project = abspath (w_cwd w) (path_join (get_project_path w project) [''sim'', ''uvmt''])"

definition lib_dir :: "world \<Rightarrow> string" where
  "lib_dir w = path_join (w_script_dir w) [''lib'']"

subsection \<open>Validation of the YAML\<close>

definition assert_in :: "string \<Rightarrow> pyval \<Rightarrow> string \<Rightarrow> unit res" where
  "assert_in k v msg = bindE (py_in k v) (\<lambda>b. assertE b msg)"

definition validate_build :: "string \<times> pyval \<Rightarrow> unit res" where
  "validate_build bd = (case bd of (b, d) \<Rightarrow>
     bindE (assert_in ''cmd'' d (''cmd must be specified in test: '' @ b)) (\<lambda>u.
     assert_in ''dir'' d (''dir must be specified in test: '' @ b)))"

definition is_list :: "pyval \<Rightarrow> bool" where
  "is_list v = (case v of VList _ \<Rightarrow> True | _ \<Rightarrow> False)"

definition validate_test :: "string \<times> pyval \<Rightarrow> unit res" where
  "validate_test td = (case td of (t, d) \<Rightarrow>
     bindE (case py_getitem d ''builds'' of
              Inr v \<Rightarrow> assertE (is_list v) (''builds must be a list in test: '' @ t)
            | Inl (KeyError k) \<Rightarrow> assert_in ''build'' d (''builds or build must be specified in test: '' @ t)
            | Inl e \<Rightarrow> Inl e) (\<lambda>u.
     bindE (assert_in ''cmd'' d (''cmd must be specified in test: '' @ t)) (\<lambda>u.
     assert_in ''dir'' d (''dir must be specified in test: '' @ t))))"

definition validate :: "pyval \<Rightarrow> unit res" where
  "validate spec =
     bindE (assert_in ''name'' spec ''Must specify a testlist name in YAML header'') (\<lambda>u.
     bindE (assert_in ''description'' spec ''Must specify a testlist description in YAML header'') (\<lambda>u.
     bindE (assert_in ''tests'' spec ''A test section with at least one test must be defined'') (\<lambda>u.
     bindE (bindE (py_getitem spec ''builds'') py_items) (\<lambda>bs.
     bindE (foldE (\<lambda>u bd. validate_build bd) () bs) (\<lambda>u.
     bindE (bindE (py_getitem spec ''tests'') py_items) (\<lambda>ts.
     foldE (\<lambda>u td. validate_test td) () ts))))))"

subsection \<open>Builds and tests of a testlist\<close>

definition make_build :: "world \<Rightarrow> cvr_args \<Rightarrow> string \<times> pyval \<Rightarrow> obj res" where
  "make_build w args kb =
     bindE (py_kwargs (snd kb)) (\<lambda>d.
     bindE (ctor_kwargs [(''name'', VStr (fst kb)), (''simulator'', VStr (a_simulator args))] d) (\<lambda>kw.
     bindE (build_init (w_cwd w) (lib_dir w) kw) (\<lambda>b.
     bindE (if a_cov args then set_cov b else Inr b) (\<lambda>b.
     bindE (if given (a_make args) then build_sub_make (the (a_make args)) b else Inr b) (\<lambda>b.
       Inr (if given (a_cfg args) then dict_set ''cfg'' (VStr (the (a_cfg args))) b else b))))))"

definition skip_test :: "cvr_args \<Rightarrow> pyval \<Rightarrow> bool res" where
  "skip_test args t =
     (case py_getitem t ''skip_sim'' of
        Inl (KeyError k) \<Rightarrow> Inr False
      | Inl e \<Rightarrow> Inl e
      | Inr v \<Rightarrow> py_in (a_simulator args) v)"

definition default_builds :: "obj \<Rightarrow> obj res" where
  "default_builds t =
     bindE (get_attr t ''builds'') (\<lambda>bs.
       if truthy bs then Inr t
       else bindE (get_attr t ''build'') (\<lambda>b.
         Inr (if truthy b then dict_set ''builds'' (VList [b]) t else t)))"

definition make_test :: "world \<Rightarrow> cvr_args \<Rightarrow> string \<times> pyval \<Rightarrow> obj res" where
  "make_test w args kt =
     bindE (py_kwargs (snd kt)) (\<lambda>d.
     bindE (ctor_kwargs [(''name'', VStr (fst kt)), (''simulator'', VStr (a_simulator args))] d) (\<lambda>kw.
     bindE (test_init (w_cwd w) (lib_dir w) kw) (\<lambda>t.
     bindE (if a_cov args then set_cov t else Inr t) (\<lambda>t.
     bindE (if given (a_make args) then test_sub_make (the (a_make args)) t else Inr t) (\<lambda>t.
     let t = (case a_iss args of None \<Rightarrow> t | Some i \<Rightarrow> dict_set ''iss'' (VStr i) t);
         t = (if given (a_cfg args) then dict_set ''cfg'' (VStr (the (a_cfg args))) t else t)
     in bindE (default_builds t) (\<lambda>t.
     bindE (bindE (get_attr t ''cmd'') (py_in ''compliance'')) (\<lambda>c.
     bindE (if c then Inr () else bindE (str_attr t ''name'') (check_valid_test w (a_project args))) (\<lambda>u.
     if given (a_num args)
     then bindE (py_int (the (a_num args))) (\<lambda>n. Inr (dict_set ''num'' (VInt n) t))
     else Inr t))))))))"

definition build_step :: "world \<Rightarrow> cvr_args \<Rightarrow> regression \<Rightarrow> string \<times> pyval \<Rightarrow> regression res" where
  "build_step w args r kb = bindE (make_build w args kb) (add_build r)"

definition test_step :: "world \<Rightarrow> cvr_args \<Rightarrow> regression \<Rightarrow> string \<times> pyval \<Rightarrow> regression res" where
  "test_step w args r kt =
     bindE (skip_test args (snd kt)) (\<lambda>skip.
       if skip then Inr r else bindE (make_test w args kt) (add_test r))"

definition read_testlist :: "world \<Rightarrow> cvr_args \<Rightarrow> pyval \<Rightarrow> regression res" where
  "read_testlist w args spec =
     bindE (validate spec) (\<lambda>u.
     bindE (py_getitem spec ''name'') (\<lambda>name.
     bindE (py_getitem spec ''description'') (\<lambda>desc.
     bindE (bindE (py_getitem spec ''builds'') py_items) (\<lambda>bs.
     bindE (foldE (build_step w args)
              (regression_init [(''name'', name), (''description'', desc)]) bs) (\<lambda>r.
     bindE (bindE (py_getitem spec ''tests'') py_items) (\<lambda>ts.
     foldE (test_step w args) r ts))))))"

definition read_file :: "world \<Rightarrow> cvr_args \<Rightarrow> string \<Rightarrow> regression res" where
  "read_file w args file =
     (case w_read w (path_join (get_regress_path w (a_project args)) [file]) of
        None \<Rightarrow> Inl OSError
      | Some text \<Rightarrow> bindE (w_yaml w text) (read_testlist w args))"

subsection \<open>The script\<close>

datatype render =
    RegressSh "regression list" string "string option" string "string option" string string "obj dict"
  | MetricsJson "regression list" string "string option" string string "obj dict"
  | RegressVsif string string string string "regression list" "string option" string "string option"
      string string string string "obj dict"
  | RegressSve

datatype effect = WriteFile string render | Chmod string nat

definition default_outfile :: "cvr_args \<Rightarrow> string list \<Rightarrow> string" where
  "default_outfile args files =
     (if given (a_outfile args) then the (a_outfile args)
      else fst (splitext (hd files)) @
        (if a_metrics args then ''.json'' else if a_sh args then ''.sh''
         else if a_vsif args then ''.vsif'' else []))"

definition yaml_name :: "string \<Rightarrow> string" where
  "yaml_name f = (if snd (splitext f) \<noteq> ''yaml'' then fst (splitext f) @ ''.yaml'' else f)"

definition unique_step :: "obj dict \<Rightarrow> regression \<Rightarrow> obj dict res" where
  "unique_step ub r =
     foldE (\<lambda>ub b. bindE (str_attr (snd b) ''name'') (\<lambda>n.
        Inr (if dict_has n ub then ub else dict_set n (snd b) ub))) ub (r_builds r)"

definition read_all :: "world \<Rightarrow> cvr_args \<Rightarrow> string list \<Rightarrow> (regression list \<times> obj dict) res" where
  "read_all w args files =
     foldE (\<lambda>acc f. bindE (read_file w args (yaml_name f)) (\<lambda>r.
        bindE (unique_step (snd acc) r) (\<lambda>ub. Inr (fst acc @ [r], ub)))) ([], []) files"

definition outputs :: "world \<Rightarrow> cvr_args \<Rightarrow> string \<Rightarrow> regression list \<Rightarrow> obj dict \<Rightarrow> effect list" where
  "outputs w args outfile regs ub =
     (let makeargs = (case a_makearg args of None \<Rightarrow> [] | Some xs \<Rightarrow> py_join '' '' xs);
          session = fst (splitext (basename outfile));
          sve = fst (splitext outfile) @ ''.sve''
      in (if a_sh args then
            [WriteFile outfile (RegressSh regs (a_project args) (a_cfg args) (a_toolchain args)
               (a_results args) makeargs session ub), Chmod outfile 0x1FD] else [])
       @ (if a_metrics args then
            [WriteFile outfile (MetricsJson regs (a_project args) (a_cfg args) (a_toolchain args)
               makeargs ub), Chmod outfile 0x1FD] else [])
       @ (if a_vsif args then
            [WriteFile outfile (RegressVsif session (get_results_path w (a_project args))
               (a_project args) (a_parallel args) regs (a_results args) makeargs (a_lsf args)
               (abspath (w_cwd w) sve) (a_toolchain args) (a_simulator args) (get_filter_dir w) ub),
             WriteFile sve RegressSve] else []))"

text \<open>
  An output is written when its file can be opened for writing, and a mode is set when the
  system allows it; otherwise the script ends with the \<^verbatim>\<open>OSError\<close>, and what came
  before has been done.
\<close>

definition perform :: "world \<Rightarrow> effect \<Rightarrow> (effect, unit) io" where
  "perform w e = (case e of
      WriteFile p r \<Rightarrow> if w_writable w p then doIO e else liftIO (Inl OSError)
    | Chmod p n \<Rightarrow> if w_chmod w p then doIO e else liftIO (Inl OSError))"

definition cv_regress :: "world \<Rightarrow> cvr_args \<Rightarrow> (effect, unit) io" where
  "cv_regress w args =
     (case a_file args of
        None \<Rightarrow> liftIO (Inl (SystemExit 2))
      | Some [] \<Rightarrow> liftIO (Inl (SystemExit 2))
      | Some files \<Rightarrow>
          bindIO (liftIO (read_all w args files)) (\<lambda>(regs, ub).
            forIO (perform w) (outputs w args (default_outfile args files) regs ub)))"

text \<open>What the files hold after the effects: the last write of a path stays.\<close>

definition written :: "effect list \<Rightarrow> (string \<rightharpoonup> render)" where
  "written es = foldl (\<lambda>m e. case e of WriteFile p r \<Rightarrow> m(p \<mapsto> r) | Chmod p n \<Rightarrow> m) Map.empty es"

end
