(* ===== verification/CvRegressProps.thy ===== *)
theory CvRegressProps
  imports CvRegress
begin

text \<open>
  Correctness of the regression objects and of \<^verbatim>\<open>cv_regress\<close>: the contract a
  regression offers the script that fills it, stated as a locale and interpreted on the
  model of \<^verbatim>\<open>Regression\<close>, and the properties of reading and writing.
\<close>

subsection \<open>The contract between the script and the regression\<close>

locale regression_store =
  fixes add_b :: "'r \<Rightarrow> 'b \<Rightarrow> 'r res"
    and add_t :: "'r \<Rightarrow> 't \<Rightarrow> 'r res"
    and bnames :: "'r \<Rightarrow> string list"
    and tnames :: "'r \<Rightarrow> string list"
    and ok :: "'r \<Rightarrow> bool"
    and bname :: "'b \<Rightarrow> string res"
    and tname :: "'t \<Rightarrow> string res"
  assumes add_b_new: "ok r \<Longrightarrow> bname b = Inr n \<Longrightarrow> n \<notin> set (bnames r) \<Longrightarrow>
      \<exists>r'. add_b r b = Inr r' \<and> ok r' \<and> bnames r' = bnames r @ [n] \<and> tnames r' = tnames r"
    and add_t_done: "ok r \<Longrightarrow> add_t r t = Inr r' \<Longrightarrow>
      ok r' \<and> bnames r' = bnames r \<and> (\<exists>n. tname t = Inr n \<and> tnames r' = tnames r @ [n])"
    and ok_distinct: "ok r \<Longrightarrow> distinct (bnames r) \<and> distinct (tnames r)"
begin

text \<open>
  Filling a store from a mapping: no build name is ever met twice, so the only failures
  are those of constructing a build, and the names end up in the order of the mapping.
\<close>

lemma load_builds:
  assumes "ok r" and "distinct (map fst xs)" and "set (map fst xs) \<inter> set (bnames r) = {}"
    and "\<And>x b. x \<in> set xs \<Longrightarrow> mk x = Inr b \<Longrightarrow> bname b = Inr (fst x)"
  shows "case foldE (\<lambda>r x. bindE (mk x) (add_b r)) r xs of
      Inl e \<Rightarrow> (\<exists>x \<in> set xs. mk x = Inl e)
    | Inr r' \<Rightarrow> ok r' \<and> bnames r' = bnames r @ map fst xs \<and> tnames r' = tnames r"
  using assms
proof (induction xs arbitrary: r)
  case Nil
  then show ?case by simp
next
  case (Cons x xs)
  show ?case
  proof (cases "mk x")
    case (Inl e)
    then show ?thesis by simp
  next
    case (Inr b)
    have bn: "bname b = Inr (fst x)" using Cons.prems(4)[OF _ Inr] by simp
    moreover have "fst x \<notin> set (bnames r)" using Cons.prems(3) by auto
    ultimately obtain r' where r': "add_b r b = Inr r'" "ok r'"
        "bnames r' = bnames r @ [fst x]" "tnames r' = tnames r"
      using add_b_new[OF Cons.prems(1)] by blast
    have "case foldE (\<lambda>r x. bindE (mk x) (add_b r)) r' xs of
        Inl e \<Rightarrow> (\<exists>x \<in> set xs. mk x = Inl e)
      | Inr r'' \<Rightarrow> ok r'' \<and> bnames r'' = bnames r' @ map fst xs \<and> tnames r'' = tnames r'"
      by (rule Cons.IH) (use Cons.prems r' in auto)
    with r' Inr show ?thesis by (auto split: sum.splits)
  qed
qed

lemma load_tests:
  assumes "foldE (\<lambda>r x. bindE (skip x) (\<lambda>s. if s then Inr r else bindE (mk x) (add_t r))) r xs = Inr r'"
    and "ok r" and "\<And>x t. x \<in> set xs \<Longrightarrow> mk x = Inr t \<Longrightarrow> tname t = Inr (fst x)"
  shows "ok r' \<and> bnames r' = bnames r
    \<and> tnames r' = tnames r @ map fst (filter (\<lambda>x. skip x = Inr False) xs)"
  using assms
proof (induction xs arbitrary: r)
  case Nil
  then show ?case by simp
next
  case (Cons x xs)
  from Cons.prems(1) obtain s where s: "skip x = Inr s" by (auto simp: bindE_eq_Inr)
  show ?case
  proof (cases s)
    case True
    with Cons.IH[of r] Cons.prems s show ?thesis by simp
  next
    case False
    with Cons.prems(1) s obtain t r1 where t: "mk x = Inr t" and r1: "add_t r t = Inr r1"
      and rest: "foldE (\<lambda>r x. bindE (skip x) (\<lambda>s. if s then Inr r else bindE (mk x) (add_t r))) r1 xs = Inr r'"
      by (auto simp: bindE_eq_Inr)
    have 1: "ok r1" "bnames r1 = bnames r" "tnames r1 = tnames r @ [fst x]"
      using add_t_done[OF Cons.prems(2) r1] Cons.prems(3)[OF _ t] by auto
    from Cons.IH[OF rest 1(1)] Cons.prems(3) 1 False s show ?thesis by simp
  qed
qed

end

subsection \<open>Regressions meet the contract\<close>

definition refs_ok :: "obj dict \<Rightarrow> obj \<Rightarrow> bool" where
  "refs_ok bs t = (case get_attr t ''builds'' of
      Inl e \<Rightarrow> False
    | Inr v \<Rightarrow> (case py_iter v of
          Inl e \<Rightarrow> False
        | Inr xs \<Rightarrow> list_all (\<lambda>x. case x of VStr s \<Rightarrow> dict_has s bs | _ \<Rightarrow> False) xs))"

definition reg_ok :: "regression \<Rightarrow> bool" where
  "reg_ok r \<longleftrightarrow> dict_ok (r_builds r) \<and> dict_ok (r_tests r)
     \<and> list_all (\<lambda>p. str_attr (snd p) ''name'' = Inr (fst p)) (r_builds r)
     \<and> list_all (\<lambda>p. str_attr (snd p) ''name'' = Inr (fst p) \<and> refs_ok (r_builds r) (snd p)) (r_tests r)"

lemma refs_ok_mono:
  "refs_ok bs t \<Longrightarrow> (\<And>s. dict_has s bs \<Longrightarrow> dict_has s bs') \<Longrightarrow> refs_ok bs' t"
  by (auto simp: refs_ok_def elim!: list.pred_mono_strong split: sum.splits pyval.splits)

lemma add_build_new:
  assumes "str_attr b ''name'' = Inr n" and "\<not> dict_has n (r_builds r)"
  shows "add_build r b = Inr (r\<lparr>r_builds := r_builds r @ [(n, b)]\<rparr>)"
  using assms by (simp add: add_build_def dict_set_new)

lemma check_builds_refs:
  assumes "check_builds r v = Inr u"
  shows "\<exists>xs. py_iter v = Inr xs \<and> list_all (\<lambda>x. case x of VStr s \<Rightarrow> dict_has s (r_builds r) | _ \<Rightarrow> False) xs"
proof -
  have loop: "foldE (\<lambda>u b. case b of VStr s \<Rightarrow> if dict_has s (r_builds r) then Inr () else Inl (SystemExit 2)
        | _ \<Rightarrow> Inl (SystemExit 2)) () bs = Inr u \<Longrightarrow>
      list_all (\<lambda>x. case x of VStr s \<Rightarrow> dict_has s (r_builds r) | _ \<Rightarrow> False) bs" for bs
    by (induction bs) (auto simp: bindE_eq_Inr split: pyval.splits if_splits)
  show ?thesis using assms loop by (auto simp: check_builds_def split: sum.splits)
qed

lemma add_test_done:
  assumes "add_test r t = Inr r'"
  shows "\<exists>n. str_attr t ''name'' = Inr n \<and> \<not> dict_has n (r_tests r) \<and> refs_ok (r_builds r) t
    \<and> r' = r\<lparr>r_tests := r_tests r @ [(n, t)]\<rparr>"
proof -
  from assms obtain n v u where n: "str_attr t ''name'' = Inr n" "\<not> dict_has n (r_tests r)"
    and v: "get_attr t ''builds'' = Inr v" and c: "check_builds r v = Inr u"
    and r': "r' = r\<lparr>r_tests := dict_set n t (r_tests r)\<rparr>"
    by (auto simp: add_test_def bindE_eq_Inr split: if_splits)
  from check_builds_refs[OF c] v have "refs_ok (r_builds r) t" by (auto simp: refs_ok_def)
  with n r' show ?thesis by (auto simp: dict_set_new)
qed

interpretation regs: regression_store add_build add_test
  "\<lambda>r. dict_keys (r_builds r)" "\<lambda>r. dict_keys (r_tests r)" reg_ok
  "\<lambda>b. str_attr b ''name''" "\<lambda>t. str_attr t ''name''"
proof unfold_locales
  fix r b n
  assume ok: "reg_ok r" and n: "str_attr b ''name'' = Inr n" "n \<notin> set (dict_keys (r_builds r))"
  let ?r = "r\<lparr>r_builds := r_builds r @ [(n, b)]\<rparr>"
  have add: "add_build r b = Inr ?r"
    using n by (intro add_build_new) (simp_all add: dict_has_def)
  have "list_all (\<lambda>p. str_attr (snd p) ''name'' = Inr (fst p) \<and> refs_ok (r_builds r @ [(n, b)]) (snd p)) (r_tests r)"
    using ok by (auto simp: reg_ok_def dict_has_def dict_keys_def elim!: list.pred_mono_strong refs_ok_mono)
  then have "reg_ok ?r" using ok n by (auto simp: reg_ok_def dict_ok_def dict_keys_def)
  with add show "\<exists>r'. add_build r b = Inr r' \<and> reg_ok r' \<and>
      dict_keys (r_builds r') = dict_keys (r_builds r) @ [n] \<and> dict_keys (r_tests r') = dict_keys (r_tests r)"
    by (auto simp: dict_keys_def)
next
  fix r t r'
  assume ok: "reg_ok r" and add: "add_test r t = Inr r'"
  from add_test_done[OF add] ok show "reg_ok r' \<and> dict_keys (r_builds r') = dict_keys (r_builds r) \<and>
      (\<exists>n. str_attr t ''name'' = Inr n \<and> dict_keys (r_tests r') = dict_keys (r_tests r) @ [n])"
    by (auto simp: reg_ok_def dict_ok_def dict_has_def dict_keys_def)
next
  fix r
  assume "reg_ok r"
  then show "distinct (dict_keys (r_builds r)) \<and> distinct (dict_keys (r_tests r))"
    by (simp add: reg_ok_def dict_ok_def)
qed

subsection \<open>What the constructors set\<close>

lemma kwargs_lookup:
  assumes "ctor_kwargs given_kw d = Inr kw" and "dict_ok given_kw" and "map_of given_kw k = Some v"
  shows "map_of (set_attrs ob kw) k = Some v"
proof -
  from assms(1) have kw: "kw = given_kw @ d" and fresh: "\<forall>p \<in> set d. \<not> dict_has (fst p) given_kw"
    by (auto simp: ctor_kwargs_def list_ex_iff split: if_splits)
  have "dict_has k given_kw" using assms(3) by (simp add: dict_has_map_of)
  with fresh have "k \<notin> fst ` set d" by auto
  then have "map_of (rev d) k = None" by (simp add: map_of_eq_None_iff)
  moreover have "map_of (rev given_kw) k = Some v"
    using assms(2,3) by (simp add: map_of_rev_dict)
  ultimately show ?thesis using kw by (simp add: set_attrs_lookup map_add_def)
qed

lemma abs_dir_attr_keeps:
  "abs_dir_attr cwd ld ob = Inr ob' \<Longrightarrow> k \<noteq> ''abs_dir'' \<Longrightarrow> map_of ob' k = map_of ob k"
  by (auto simp: abs_dir_attr_def bindE_eq_Inr)

lemma set_cov_keeps: "set_cov ob = Inr ob' \<Longrightarrow> k \<noteq> ''cov'' \<Longrightarrow> map_of ob' k = map_of ob k"
  by (auto simp: set_cov_def call_method_def split: if_splits sum.splits)

lemma sub_attr_done:
  assumes "sub_attr a ms ob = Inr ob'"
  shows "\<exists>s r. map_of ob a = Some (VStr s) \<and> expand_repl ''make'' ms = Inr r
    \<and> ob' = dict_set a (VStr (replace_all ''make'' r s)) ob"
proof -
  from assms obtain v where "get_attr ob a = Inr v" by (auto simp: sub_attr_def bindE_eq_Inr)
  with assms show ?thesis by (cases v) (auto simp: sub_attr_def bindE_eq_Inr get_attr_Inr)
qed

lemma sub_attr_keeps: "sub_attr a ms ob = Inr ob' \<Longrightarrow> k \<noteq> a \<Longrightarrow> map_of ob' k = map_of ob k"
  by (auto dest: sub_attr_done)

lemma test_sub_make_cases:
  assumes "test_sub_make ms ob = Inr ob'"
  obtains ob1 where "sub_attr ''cmd'' ms ob = Inr ob1"
    and "ob' = ob1 \<or> sub_attr ''precmd'' ms ob1 = Inr ob'"
proof -
  from assms obtain ob1 where 1: "sub_attr ''cmd'' ms ob = Inr ob1"
    and 2: "(case sub_attr ''precmd'' ms ob1 of Inl (AttributeError a) \<Rightarrow> Inr ob1 | r \<Rightarrow> r) = Inr ob'"
    by (auto simp: test_sub_make_def call_method_def bindE_eq_Inr split: if_splits)
  show ?thesis
  proof (cases "sub_attr ''precmd'' ms ob1")
    case (Inl e)
    with 1 2 that show ?thesis by (cases e) simp_all
  next
    case (Inr x)
    with 1 2 that show ?thesis by simp
  qed
qed

lemma test_sub_make_keeps:
  assumes "test_sub_make ms ob = Inr ob'" and "k \<noteq> ''cmd''" and "k \<noteq> ''precmd''"
  shows "map_of ob' k = map_of ob k"
proof -
  from assms(1) obtain ob1 where 1: "sub_attr ''cmd'' ms ob = Inr ob1"
    and 2: "ob' = ob1 \<or> sub_attr ''precmd'' ms ob1 = Inr ob'"
    using assms(1) by (blast elim: test_sub_make_cases)
  from sub_attr_keeps[OF 1 assms(2)] 2 sub_attr_keeps[OF _ assms(3)] show ?thesis by auto
qed

lemma build_sub_make_keeps:
  "build_sub_make ms ob = Inr ob' \<Longrightarrow> k \<noteq> ''cmd'' \<Longrightarrow> map_of ob' k = map_of ob k"
  by (auto simp: build_sub_make_def call_method_def split: if_splits dest: sub_attr_keeps)

lemma default_builds_keeps:
  "default_builds t = Inr t' \<Longrightarrow> k \<noteq> ''builds'' \<Longrightarrow> map_of t' k = map_of t k"
  by (auto simp: default_builds_def bindE_eq_Inr split: if_splits)

subsection \<open>What a loaded build or test holds\<close>

lemma make_build_name:
  assumes "make_build w args kb = Inr b"
  shows "str_attr b ''name'' = Inr (fst kb)"
proof -
  let ?g = "[(''name'', VStr (fst kb)), (''simulator'', VStr (a_simulator args))]"
  from assms obtain d kw b1 b2 b3 where kw: "ctor_kwargs ?g d = Inr kw"
    and b1: "build_init (w_cwd w) (lib_dir w) kw = Inr b1"
    and b2: "(if a_cov args then set_cov b1 else Inr b1) = Inr b2"
    and b3: "(if given (a_make args) then build_sub_make (the (a_make args)) b2 else Inr b2) = Inr b3"
    and b: "b = (if given (a_cfg args) then dict_set ''cfg'' (VStr (the (a_cfg args))) b3 else b3)"
    unfolding make_build_def bindE_eq_Inr by blast
  have "map_of b1 ''name'' = Some (VStr (fst kb))"
    using kwargs_lookup[OF kw] abs_dir_attr_keeps[OF b1[unfolded build_init_def]]
    by (simp add: dict_ok_def dict_keys_def)
  moreover have "map_of b2 ''name'' = map_of b1 ''name''"
    using b2 set_cov_keeps by (auto split: if_splits)
  moreover have "map_of b3 ''name'' = map_of b2 ''name''"
    using b3 build_sub_make_keeps by (auto split: if_splits)
  ultimately show ?thesis using b by (simp add: str_attr_Inr)
qed

lemma make_test_chain:
  assumes "make_test w args kt = Inr t"
  obtains d kw t0 t1 t2 t3 t4 where "snd kt = VDict d"
    and "ctor_kwargs [(''name'', VStr (fst kt)), (''simulator'', VStr (a_simulator args))] d = Inr kw"
    and "abs_dir_attr (w_cwd w) (lib_dir w) (set_attrs test_defaults kw) = Inr t0"
    and "t1 = t0 \<or> (\<exists>n. t1 = dict_set ''log'' n t0)"
    and "(if a_cov args then set_cov t1 else Inr t1) = Inr t2"
    and "(if given (a_make args) then test_sub_make (the (a_make args)) t2 else Inr t2) = Inr t3"
    and "default_builds (let t = (case a_iss args of None \<Rightarrow> t3 | Some i \<Rightarrow> dict_set ''iss'' (VStr i) t3)
       in if given (a_cfg args) then dict_set ''cfg'' (VStr (the (a_cfg args))) t else t) = Inr t4"
    and "(if given (a_num args)
       then bindE (py_int (the (a_num args))) (\<lambda>n. Inr (dict_set ''num'' (VInt n) t4)) else Inr t4) = Inr t"
proof -
  from assms obtain d kw t1 t2 t3 t4 where d: "py_kwargs (snd kt) = Inr d"
    and kw: "ctor_kwargs [(''name'', VStr (fst kt)), (''simulator'', VStr (a_simulator args))] d = Inr kw"
    and t1: "test_init (w_cwd w) (lib_dir w) kw = Inr t1"
    and r: "(if a_cov args then set_cov t1 else Inr t1) = Inr t2"
      "(if given (a_make args) then test_sub_make (the (a_make args)) t2 else Inr t2) = Inr t3"
      "default_builds (let t = (case a_iss args of None \<Rightarrow> t3 | Some i \<Rightarrow> dict_set ''iss'' (VStr i) t3)
         in if given (a_cfg args) then dict_set ''cfg'' (VStr (the (a_cfg args))) t else t) = Inr t4"
      "(if given (a_num args)
       then bindE (py_int (the (a_num args))) (\<lambda>n. Inr (dict_set ''num'' (VInt n) t4)) else Inr t4) = Inr t"
    unfolding make_test_def Let_def bindE_eq_Inr by blast
  from t1 obtain t0 where t0: "abs_dir_attr (w_cwd w) (lib_dir w) (set_attrs test_defaults kw) = Inr t0"
    and t1': "t1 = t0 \<or> (\<exists>n. t1 = dict_set ''log'' n t0)"
    by (auto simp: test_init_def bindE_eq_Inr split: if_splits)
  from d have "snd kt = VDict d" by (cases "snd kt") auto
  from that[OF this kw t0 t1' r] show ?thesis .
qed

text \<open>
  What a loaded test holds, in terms of its YAML mapping \<open>d\<close> and the command line: the
  command line wins, then the mapping, then the constructor's default.
\<close>

definition yaml_attr :: "pyval dict \<Rightarrow> string \<Rightarrow> pyval option" where
  "yaml_attr d k = (case map_of d k of None \<Rightarrow> map_of test_defaults k | Some v \<Rightarrow> Some v)"

definition test_attrs_from :: "cvr_args \<Rightarrow> pyval dict \<Rightarrow> string \<Rightarrow> obj \<Rightarrow> bool" where
  "test_attrs_from args d name t \<longleftrightarrow>
     map_of t ''name'' = Some (VStr name) \<and> map_of t ''simulator'' = Some (VStr (a_simulator args))
     \<and> map_of t ''iss'' = (case a_iss args of None \<Rightarrow> yaml_attr d ''iss'' | Some i \<Rightarrow> Some (VStr i))
     \<and> map_of t ''cfg'' = (if given (a_cfg args) then Some (VStr (the (a_cfg args))) else yaml_attr d ''cfg'')
     \<and> (if given (a_num args) then \<exists>n. py_int (the (a_num args)) = Inr n \<and> map_of t ''num'' = Some (VInt n)
        else map_of t ''num'' = yaml_attr d ''num'')
     \<and> map_of t ''cov'' = (if a_cov args \<and> yaml_attr d ''cov'' = None then Some (VBool True)
        else yaml_attr d ''cov'')
     \<and> (\<forall>k. k \<notin> set [''name'', ''simulator'', ''iss'', ''cfg'', ''num'', ''cov'', ''cmd'', ''precmd'',
           ''builds'', ''abs_dir'', ''log''] \<longrightarrow> map_of t k = yaml_attr d k)"

lemma last_attr_cases:
  "map_of (set_attrs ob kw) k = (case map_of (rev kw) k of None \<Rightarrow> map_of ob k | Some v \<Rightarrow> Some v)"
  by (simp add: set_attrs_lookup map_add_def)

lemma set_cov_lookup:
  "set_cov ob = Inr ob' \<Longrightarrow>
    map_of ob' ''cov'' = (if map_of ob ''cov'' = None then Some (VBool True) else map_of ob ''cov'')"
  by (auto simp: set_cov_def call_method_def get_attr_def split: if_splits option.splits)

lemma ctor_attrs:
  assumes "ctor_kwargs g d = Inr kw" and "dict_ok g" and "dict_ok d"
  shows "map_of (set_attrs test_defaults kw) k =
    (case map_of g k of None \<Rightarrow> yaml_attr d k | Some v \<Rightarrow> Some v)"
proof (cases "map_of g k")
  case None
  from assms(1) have "kw = g @ d" by (auto simp: ctor_kwargs_def split: if_splits)
  then show ?thesis using None assms(2,3)
    by (simp add: last_attr_cases yaml_attr_def map_of_rev_dict map_add_def split: option.split)
next
  case (Some v)
  then show ?thesis using kwargs_lookup[OF assms(1,2) Some] by simp
qed

lemma make_test_from:
  assumes "make_test w args kt = Inr t" and "\<And>d. snd kt = VDict d \<Longrightarrow> dict_ok d"
  shows "\<exists>d. snd kt = VDict d \<and> test_attrs_from args d (fst kt) t"
proof (rule make_test_chain[OF assms(1)])
  fix d kw t0 t1 t2 t3 t4
  let ?g = "[(''name'', VStr (fst kt)), (''simulator'', VStr (a_simulator args))]"
  assume d: "snd kt = VDict d" and kw: "ctor_kwargs ?g d = Inr kw"
    and t0: "abs_dir_attr (w_cwd w) (lib_dir w) (set_attrs test_defaults kw) = Inr t0"
    and t1: "t1 = t0 \<or> (\<exists>n. t1 = dict_set ''log'' n t0)"
    and t2: "(if a_cov args then set_cov t1 else Inr t1) = Inr t2"
    and t3: "(if given (a_make args) then test_sub_make (the (a_make args)) t2 else Inr t2) = Inr t3"
    and t4: "default_builds (let t = (case a_iss args of None \<Rightarrow> t3 | Some i \<Rightarrow> dict_set ''iss'' (VStr i) t3)
       in if given (a_cfg args) then dict_set ''cfg'' (VStr (the (a_cfg args))) t else t) = Inr t4"
    and t: "(if given (a_num args)
       then bindE (py_int (the (a_num args))) (\<lambda>n. Inr (dict_set ''num'' (VInt n) t4)) else Inr t4) = Inr t"
  have init: "map_of t1 k = (case map_of ?g k of None \<Rightarrow> yaml_attr d k | Some v \<Rightarrow> Some v)"
    if "k \<noteq> ''abs_dir''" "k \<noteq> ''log''" for k
    using ctor_attrs[OF kw _ assms(2)[OF d]] abs_dir_attr_keeps[OF t0 that(1)] t1 that(2)
    by (auto simp: dict_ok_def dict_keys_def)
  have keep2: "map_of t2 k = map_of t1 k" if "k \<noteq> ''cov''" for k
    using t2 set_cov_keeps that by (auto split: if_splits)
  have cov2: "map_of t2 ''cov'' =
      (if a_cov args \<and> map_of t1 ''cov'' = None then Some (VBool True) else map_of t1 ''cov'')"
    using t2 set_cov_lookup by (auto split: if_splits)
  have keep3: "map_of t3 k = map_of t2 k" if "k \<noteq> ''cmd''" "k \<noteq> ''precmd''" for k
    using t3 test_sub_make_keeps that by (auto split: if_splits)
  have over4: "map_of t4 k = (if k = ''cfg'' \<and> given (a_cfg args) then Some (VStr (the (a_cfg args)))
      else if k = ''iss'' \<and> a_iss args \<noteq> None then map_option VStr (a_iss args) else map_of t3 k)"
    if "k \<noteq> ''builds''" for k
    using default_builds_keeps[OF t4 that] by (auto simp: Let_def split: option.splits if_splits)
  have num: "if given (a_num args)
      then \<exists>n. py_int (the (a_num args)) = Inr n \<and> t = dict_set ''num'' (VInt n) t4 else t = t4"
    using t by (auto simp: bindE_eq_Inr split: if_splits)
  have last: "map_of t k = map_of t4 k" if "k \<noteq> ''num''" for k
    using num that by (auto split: if_splits)
  have "test_attrs_from args d (fst kt) t"
    unfolding test_attrs_from_def
    using num by (simp add: last over4 keep3 keep2 cov2 init split: option.split) (auto simp: over4 keep3 keep2 init)
  with d show ?thesis by blast
qed

lemma make_test_name:
  assumes "make_test w args kt = Inr t"
  shows "str_attr t ''name'' = Inr (fst kt)"
proof (rule make_test_chain[OF assms])
  fix d kw t0 t1 t2 t3 t4
  let ?g = "[(''name'', VStr (fst kt)), (''simulator'', VStr (a_simulator args))]"
  assume kw: "ctor_kwargs ?g d = Inr kw"
    and t0: "abs_dir_attr (w_cwd w) (lib_dir w) (set_attrs test_defaults kw) = Inr t0"
    and t1: "t1 = t0 \<or> (\<exists>n. t1 = dict_set ''log'' n t0)"
    and t2: "(if a_cov args then set_cov t1 else Inr t1) = Inr t2"
    and t3: "(if given (a_make args) then test_sub_make (the (a_make args)) t2 else Inr t2) = Inr t3"
    and t4: "default_builds (let t = (case a_iss args of None \<Rightarrow> t3 | Some i \<Rightarrow> dict_set ''iss'' (VStr i) t3)
       in if given (a_cfg args) then dict_set ''cfg'' (VStr (the (a_cfg args))) t else t) = Inr t4"
    and t: "(if given (a_num args)
       then bindE (py_int (the (a_num args))) (\<lambda>n. Inr (dict_set ''num'' (VInt n) t4)) else Inr t4) = Inr t"
  have "map_of t1 ''name'' = Some (VStr (fst kt))"
    using kwargs_lookup[OF kw] abs_dir_attr_keeps[OF t0] t1 by (auto simp: dict_ok_def dict_keys_def)
  moreover have "map_of t2 ''name'' = map_of t1 ''name''"
    using t2 set_cov_keeps by (auto split: if_splits)
  moreover have "map_of t3 ''name'' = map_of t2 ''name''"
    using t3 test_sub_make_keeps by (auto split: if_splits)
  moreover have "map_of t4 ''name'' = map_of t3 ''name''"
    using default_builds_keeps[OF t4] by (auto simp: Let_def split: option.splits if_splits)
  ultimately show ?thesis
    using t by (auto simp: str_attr_Inr bindE_eq_Inr split: if_splits)
qed

subsection \<open>Reading a testlist\<close>

lemma reg_ok_init: "reg_ok (regression_init kw)"
  by (simp add: reg_ok_def regression_init_def dict_ok_def dict_keys_def)

lemma build_step_eq: "build_step w args = (\<lambda>r x. bindE (make_build w args x) (add_build r))"
  by (simp add: build_step_def fun_eq_iff)

lemma test_step_eq:
  "test_step w args = (\<lambda>r x. bindE (skip_test args (snd x))
     (\<lambda>s. if s then Inr r else bindE (make_test w args x) (add_test r)))"
  by (simp add: test_step_def fun_eq_iff)

lemma py_items_Inr: "py_items v = Inr d \<longleftrightarrow> v = VDict d"
  by (cases v) auto

text \<open>The parts of a testlist that was read without an exception.\<close>

lemma read_testlist_parts:
  assumes "read_testlist w args spec = Inr r"
  obtains bs ts r1 name desc where "py_getitem spec ''builds'' = Inr (VDict bs)"
    and "py_getitem spec ''tests'' = Inr (VDict ts)"
    and "foldE (build_step w args) (regression_init [(''name'', name), (''description'', desc)]) bs = Inr r1"
    and "foldE (test_step w args) r1 ts = Inr r"
  using assms unfolding read_testlist_def by (auto simp: bindE_eq_Inr py_items_Inr)

lemma testlist_loaded:
  assumes "foldE (build_step w args) (regression_init kw) bs = Inr r1" and "dict_ok bs"
    and "foldE (test_step w args) r1 ts = Inr r"
  shows "reg_ok r \<and> dict_keys (r_builds r) = dict_keys bs
    \<and> dict_keys (r_tests r) = dict_keys (filter (\<lambda>t. skip_test args (snd t) = Inr False) ts)"
proof -
  have "case foldE (\<lambda>r x. bindE (make_build w args x) (add_build r)) (regression_init kw) bs of
      Inl e \<Rightarrow> \<exists>x \<in> set bs. make_build w args x = Inl e
    | Inr r' \<Rightarrow> reg_ok r' \<and> dict_keys (r_builds r') = dict_keys (r_builds (regression_init kw)) @ map fst bs
        \<and> dict_keys (r_tests r') = dict_keys (r_tests (regression_init kw))"
    by (rule regs.load_builds[OF reg_ok_init])
       (use assms(2) make_build_name in \<open>auto simp: dict_ok_def dict_keys_def regression_init_def\<close>)
  then have 1: "reg_ok r1" "dict_keys (r_builds r1) = dict_keys bs" "dict_keys (r_tests r1) = []"
    using assms(1)[unfolded build_step_eq]
    by (simp_all add: regression_init_def dict_keys_def)
  show ?thesis
    using regs.load_tests[OF assms(3)[unfolded test_step_eq] 1(1)] 1 make_test_name
    by (simp add: dict_keys_def)
qed

lemma read_testlist_ok:
  assumes "read_testlist w args spec = Inr r" and "py_getitem spec ''builds'' = Inr (VDict bs)"
    and "py_getitem spec ''tests'' = Inr (VDict ts)" and "dict_ok bs"
  shows "reg_ok r \<and> dict_keys (r_builds r) = dict_keys bs
    \<and> dict_keys (r_tests r) = dict_keys (filter (\<lambda>t. skip_test args (snd t) = Inr False) ts)"
proof (rule read_testlist_parts[OF assms(1)])
  fix bs' ts' r1 name desc
  assume "py_getitem spec ''builds'' = Inr (VDict bs')" and "py_getitem spec ''tests'' = Inr (VDict ts')"
    and b: "foldE (build_step w args) (regression_init [(''name'', name), (''description'', desc)]) bs' = Inr r1"
    and t: "foldE (test_step w args) r1 ts' = Inr r"
  then have "bs' = bs" "ts' = ts" using assms(2,3) by simp_all
  with testlist_loaded[OF b _ t] assms(4) show ?thesis by simp
qed

text \<open>Every test in the result was made from an entry of the YAML.\<close>

lemma tests_made:
  assumes "foldE (test_step w args) r1 ts = Inr r" and "p \<in> set (r_tests r)"
  shows "p \<in> set (r_tests r1) \<or> (\<exists>kt \<in> set ts. fst kt = fst p \<and> make_test w args kt = Inr (snd p))"
proof (rule foldE_invariant[OF assms(1), where P =
    "\<lambda>r. \<forall>p \<in> set (r_tests r). p \<in> set (r_tests r1) \<or>
      (\<exists>kt \<in> set ts. fst kt = fst p \<and> make_test w args kt = Inr (snd p))", rule_format, OF _ _ assms(2)])
  fix p assume "p \<in> set (r_tests r1)"
  then show "p \<in> set (r_tests r1) \<or> (\<exists>kt \<in> set ts. fst kt = fst p \<and> make_test w args kt = Inr (snd p))" ..
next
  fix s kt s' p
  assume kt: "kt \<in> set ts" and step: "test_step w args s kt = Inr s'" and p: "p \<in> set (r_tests s')"
    and IH: "\<And>p. p \<in> set (r_tests s) \<Longrightarrow> p \<in> set (r_tests r1) \<or>
      (\<exists>kt \<in> set ts. fst kt = fst p \<and> make_test w args kt = Inr (snd p))"
  from step have "s' = s \<or> (\<exists>t. make_test w args kt = Inr t \<and> add_test s t = Inr s')"
    by (auto simp: test_step_def bindE_eq_Inr split: if_splits)
  then show "p \<in> set (r_tests r1) \<or> (\<exists>kt \<in> set ts. fst kt = fst p \<and> make_test w args kt = Inr (snd p))"
  proof
    assume "s' = s"
    with IH p show ?thesis by blast
  next
    assume "\<exists>t. make_test w args kt = Inr t \<and> add_test s t = Inr s'"
    then obtain t where t: "make_test w args kt = Inr t" and "add_test s t = Inr s'" by blast
    from add_test_done[OF this(2)] make_test_name[OF t]
    have "r_tests s' = r_tests s @ [(fst kt, t)]" by auto
    with p consider "p \<in> set (r_tests s)" | "p = (fst kt, t)" by auto
    then show ?thesis
    proof cases
      case 1
      then show ?thesis by (rule IH)
    next
      case 2
      with kt t show ?thesis by auto
    qed
  qed
qed

text \<open>The build lists of loaded tests are lists.\<close>

definition builds_list :: "obj \<Rightarrow> bool" where
  "builds_list t = (case get_attr t ''builds'' of Inr v \<Rightarrow> is_list v | Inl e \<Rightarrow> False)"

lemma validate_test_builds:
  assumes "validate_test (k, VDict d) = Inr u"
  shows "case map_of d ''builds'' of None \<Rightarrow> True | Some v \<Rightarrow> is_list v"
proof (cases "map_of d ''builds''")
  case (Some v)
  with assms show ?thesis by (cases "is_list v") (auto simp: validate_test_def bindE_eq_Inr)
qed simp

lemma make_test_builds_list:
  assumes "make_test w args (n, v) = Inr t" and "validate_test (n, v) = Inr u"
    and "\<And>d. v = VDict d \<Longrightarrow> dict_ok d"
  shows "builds_list t"
proof (rule make_test_chain[OF assms(1)], unfold fst_conv snd_conv)
  fix d kw t0 t1 t2 t3 t4
  let ?g = "[(''name'', VStr n), (''simulator'', VStr (a_simulator args))]"
  let ?o = "let t = (case a_iss args of None \<Rightarrow> t3 | Some i \<Rightarrow> dict_set ''iss'' (VStr i) t3)
       in if given (a_cfg args) then dict_set ''cfg'' (VStr (the (a_cfg args))) t else t"
  assume v: "v = VDict d" and kw: "ctor_kwargs ?g d = Inr kw"
    and t0: "abs_dir_attr (w_cwd w) (lib_dir w) (set_attrs test_defaults kw) = Inr t0"
    and t1: "t1 = t0 \<or> (\<exists>n. t1 = dict_set ''log'' n t0)"
    and t2: "(if a_cov args then set_cov t1 else Inr t1) = Inr t2"
    and t3: "(if given (a_make args) then test_sub_make (the (a_make args)) t2 else Inr t2) = Inr t3"
    and t4: "default_builds ?o = Inr t4"
    and t: "(if given (a_num args)
       then bindE (py_int (the (a_num args))) (\<lambda>n. Inr (dict_set ''num'' (VInt n) t4)) else Inr t4) = Inr t"
  have "\<exists>x. yaml_attr d ''builds'' = Some x \<and> is_list x"
    using validate_test_builds[OF assms(2)[unfolded v]]
    by (auto simp: yaml_attr_def test_defaults_def is_list_def split: option.splits)
  then obtain x where x: "yaml_attr d ''builds'' = Some x" "is_list x" by blast
  have "map_of t1 ''builds'' = Some x"
    using ctor_attrs[OF kw _ assms(3)[OF v]] abs_dir_attr_keeps[OF t0] t1 x
    by (auto simp: dict_ok_def dict_keys_def)
  moreover have "map_of t2 ''builds'' = map_of t1 ''builds''"
    using t2 set_cov_keeps by (auto split: if_splits)
  moreover have "map_of t3 ''builds'' = map_of t2 ''builds''"
    using t3 test_sub_make_keeps by (auto split: if_splits)
  ultimately have "map_of ?o ''builds'' = Some x" by (simp add: Let_def split: option.split)
  with t4 x(2) have "\<exists>y. map_of t4 ''builds'' = Some y \<and> is_list y"
    by (auto simp: default_builds_def bindE_eq_Inr get_attr_Inr is_list_def split: if_splits)
  then show "builds_list t"
    using t by (auto simp: builds_list_def get_attr_def bindE_eq_Inr split: if_splits)
qed

lemma foldE_unit: "foldE (\<lambda>u x. f x) () xs = Inr u \<Longrightarrow> x \<in> set xs \<Longrightarrow> f x = Inr ()"
  by (induction xs arbitrary: u) (auto simp: bindE_eq_Inr)

lemma read_testlist_validated:
  assumes "read_testlist w args spec = Inr r" and "py_getitem spec ''tests'' = Inr (VDict ts)"
    and "kt \<in> set ts"
  shows "validate_test kt = Inr ()"
proof -
  from assms(1) have "validate spec = Inr ()" by (auto simp: read_testlist_def bindE_eq_Inr)
  with assms(2) have "foldE (\<lambda>u td. validate_test td) () ts = Inr ()"
    by (auto simp: validate_def bindE_eq_Inr)
  from foldE_unit[OF this assms(3)] show ?thesis .
qed

text \<open>The mappings of a YAML document, at the two levels the script reads, have distinct keys.\<close>

fun yaml_ok :: "pyval \<Rightarrow> bool" where
  "yaml_ok (VDict d) = (dict_ok d \<and> list_all (\<lambda>p. yaml_ok (snd p)) d)"
| "yaml_ok (VList xs) = list_all yaml_ok xs"
| "yaml_ok _ = True"

lemma yaml_ok_item: "yaml_ok v \<Longrightarrow> py_getitem v k = Inr x \<Longrightarrow> yaml_ok x"
  by (cases v) (auto simp: list_all_iff split: option.splits dest!: map_of_SomeD)

lemma loaded_tests:
  assumes "read_testlist w args spec = Inr r" and "yaml_ok spec" and "p \<in> set (r_tests r)"
    and "py_getitem spec ''tests'' = Inr (VDict ts)"
  shows "builds_list (snd p) \<and> (\<exists>d. (fst p, VDict d) \<in> set ts \<and> test_attrs_from args d (fst p) (snd p))"
proof (rule read_testlist_parts[OF assms(1)])
  fix bs ts' r1 name desc
  assume ts': "py_getitem spec ''tests'' = Inr (VDict ts')"
    and b: "foldE (build_step w args) (regression_init [(''name'', name), (''description'', desc)]) bs = Inr r1"
    and t: "foldE (test_step w args) r1 ts' = Inr r"
    and bs: "py_getitem spec ''builds'' = Inr (VDict bs)"
  have ts: "ts' = ts" using ts' assms(4) by simp
  have "r_tests r1 = []"
  proof (rule foldE_invariant[OF b, where P = "\<lambda>r. r_tests r = []"])
    fix s x s'
    assume "build_step w args s x = Inr s'" and "r_tests s = []"
    then show "r_tests s' = []" by (auto simp: build_step_def add_build_def bindE_eq_Inr split: if_splits)
  qed (simp add: regression_init_def)
  with tests_made[OF t assms(3)] ts obtain v where v: "(fst p, v) \<in> set ts"
    and mk: "make_test w args (fst p, v) = Inr (snd p)" by force
  have "yaml_ok v" using yaml_ok_item[OF assms(2,4)] v by (auto simp: list_all_iff)
  then have d: "\<And>d. v = VDict d \<Longrightarrow> dict_ok d" by auto
  from make_test_builds_list[OF mk read_testlist_validated[OF assms(1,4) v] d] make_test_from[OF mk] d v
  show ?thesis by auto
qed

lemma read_file_testlist:
  assumes "read_file w args file = Inr r"
  obtains content spec where "w_read w (path_join (get_regress_path w (a_project args)) [file]) = Some content"
    and "w_yaml w content = Inr spec" and "read_testlist w args spec = Inr r"
  using assms by (auto simp: read_file_def bindE_eq_Inr split: option.splits)

lemma read_file_tests:
  assumes "read_file w args file = Inr r"
  obtains content spec ts where "w_read w (path_join (get_regress_path w (a_project args)) [file]) = Some content"
    and "w_yaml w content = Inr spec" and "py_getitem spec ''tests'' = Inr (VDict ts)"
    and "read_testlist w args spec = Inr r"
proof (rule read_file_testlist[OF assms])
  fix content spec
  assume 1: "w_read w (path_join (get_regress_path w (a_project args)) [file]) = Some content"
    "w_yaml w content = Inr spec" and r: "read_testlist w args spec = Inr r"
  show thesis by (rule read_testlist_parts[OF r]) (rule that[OF 1 _ r])
qed

lemma read_testlist_reg_ok:
  assumes "read_testlist w args spec = Inr r" and "yaml_ok spec"
  shows "reg_ok r"
proof (rule read_testlist_parts[OF assms(1)])
  fix bs ts r1 name desc
  assume bs: "py_getitem spec ''builds'' = Inr (VDict bs)" and ts: "py_getitem spec ''tests'' = Inr (VDict ts)"
  have "dict_ok bs" using yaml_ok_item[OF assms(2) bs] by simp
  with read_testlist_ok[OF assms(1) bs ts] show ?thesis by simp
qed

subsection \<open>Queries on a regression\<close>

lemma test_builds_list:
  assumes "refs_ok bs t" and "builds_list t"
  shows "\<exists>ns. get_attr t ''builds'' = Inr (VList (map VStr ns)) \<and> list_all (\<lambda>s. dict_has s bs) ns"
proof -
  from assms(2) obtain xs where xs: "get_attr t ''builds'' = Inr (VList xs)"
    by (auto simp: builds_list_def is_list_def split: sum.splits pyval.splits)
  with assms(1) have all: "list_all (\<lambda>x. case x of VStr s \<Rightarrow> dict_has s bs | _ \<Rightarrow> False) xs"
    by (simp add: refs_ok_def)
  then have "\<exists>ns. xs = map VStr ns \<and> list_all (\<lambda>s. dict_has s bs) ns"
  proof (induction xs)
    case (Cons x xs)
    then obtain ns where "xs = map VStr ns" "list_all (\<lambda>s. dict_has s bs) ns" by auto
    moreover from Cons.prems obtain s where "x = VStr s" "dict_has s bs" by (cases x) auto
    ultimately have "x # xs = map VStr (s # ns) \<and> list_all (\<lambda>s. dict_has s bs) (s # ns)" by simp
    then show ?case by (intro exI[of _ "s # ns"])
  qed simp
  with xs show ?thesis by auto
qed

text \<open>The names a test lists.\<close>

definition build_names :: "obj \<Rightarrow> string list" where
  "build_names t = (case get_attr t ''builds'' of
      Inr (VList xs) \<Rightarrow> concat (map (\<lambda>x. case x of VStr s \<Rightarrow> [s] | _ \<Rightarrow> []) xs) | _ \<Rightarrow> [])"

lemma build_names_eq:
  "get_attr t ''builds'' = Inr (VList (map VStr ns)) \<Longrightarrow> build_names t = ns"
  by (simp add: build_names_def comp_def)

lemma get_builds_eq:
  assumes "list_all (\<lambda>p. refs_ok (r_builds r) (snd p) \<and> builds_list (snd p)) (r_tests r)"
  shows "get_builds r = Inr ((\<lambda>s. (s, the (map_of (r_builds r) s))) `
    (\<Union>p \<in> set (r_tests r). set (build_names (snd p))))"
proof -
  have inner: "mapE (lookup_build r) (map VStr ns) = Inr (map (\<lambda>s. (s, the (map_of (r_builds r) s))) ns)"
    if "list_all (\<lambda>s. dict_has s (r_builds r)) ns" for ns
    using that by (induction ns) (auto simp: lookup_build_def dict_has_map_of)
  have "mapE (\<lambda>t. bindE (get_attr (snd t) ''builds'') (\<lambda>v. bindE (py_iter v) (mapE (lookup_build r)))) (r_tests r)
      = Inr (map (\<lambda>p. map (\<lambda>s. (s, the (map_of (r_builds r) s))) (build_names (snd p))) (r_tests r))"
  proof (rule mapE_Inr)
    fix p assume "p \<in> set (r_tests r)"
    with assms have "refs_ok (r_builds r) (snd p)" "builds_list (snd p)" by (simp_all add: list_all_iff)
    from test_builds_list[OF this] obtain ns where
      ns: "get_attr (snd p) ''builds'' = Inr (VList (map VStr ns))"
      and all: "list_all (\<lambda>s. dict_has s (r_builds r)) ns" by blast
    show "bindE (get_attr (snd p) ''builds'') (\<lambda>v. bindE (py_iter v) (mapE (lookup_build r)))
        = Inr (map (\<lambda>s. (s, the (map_of (r_builds r) s))) (build_names (snd p)))"
      by (simp add: ns build_names_eq[OF ns] inner[OF all])
  qed
  then show ?thesis by (auto simp: get_builds_def)
qed

lemma found_loop:
  assumes "\<And>t. t \<in> set ts \<Longrightarrow> \<exists>ns. get_attr (snd t) ''builds'' = Inr (VList (map VStr ns))"
    and "str_attr b ''name'' = Inr n"
  shows "foldE (\<lambda>found t. bindE (str_attr b ''name'') (\<lambda>n. bindE (get_attr (snd t) ''builds'') (\<lambda>v.
      bindE (py_in n v) (\<lambda>i. Inr (found \<or> i))))) f ts
    = Inr (f \<or> (\<exists>t \<in> set ts. n \<in> set (build_names (snd t))))"
  using assms
proof (induction ts arbitrary: f)
  case (Cons t ts)
  from Cons.prems(1)[of t] obtain ns where ns: "get_attr (snd t) ''builds'' = Inr (VList (map VStr ns))" by auto
  have "VStr n \<in> VStr ` set ns \<longleftrightarrow> n \<in> set ns" by auto
  with Cons ns build_names_eq[OF ns] show ?case by auto
qed simp

lemma no_tests_loop:
  assumes "\<And>t. t \<in> set (r_tests r) \<Longrightarrow> \<exists>ns. get_attr (snd t) ''builds'' = Inr (VList (map VStr ns))"
    and "list_all (\<lambda>p. str_attr (snd p) ''name'' = Inr (fst p)) bs"
  shows "foldE (\<lambda>acc b.
        bindE (foldE (\<lambda>found t. bindE (str_attr (snd b) ''name'') (\<lambda>n. bindE (get_attr (snd t) ''builds'') (\<lambda>v.
                 bindE (py_in n v) (\<lambda>i. Inr (found \<or> i))))) False (r_tests r))
          (\<lambda>found. Inr (if found then acc else acc @ [snd b]))) acc bs
    = Inr (acc @ map snd (filter (\<lambda>p. \<not> (\<exists>t \<in> set (r_tests r). fst p \<in> set (build_names (snd t)))) bs))"
  using assms(2)
proof (induction bs arbitrary: acc)
  case (Cons b bs)
  then have n: "str_attr (snd b) ''name'' = Inr (fst b)" by simp
  show ?case using Cons
    by (simp only: foldE.simps found_loop[OF assms(1) n] bindE_simps) auto
qed simp

end
