(* ===== verification/CvProps.thy ===== *)
theory CvProps
  imports CvRegressProps
begin

text \<open>
  The properties of \<^verbatim>\<open>cv_regression.py\<close> and \<^verbatim>\<open>cv_regress\<close>: a
  regression that was read is consistent, the command line overrides the YAML, the queries
  agree with each other, and what is written where.
\<close>

subsection \<open>Example surroundings\<close>

definition ex_spec :: pyval where
  "ex_spec = VDict
     [(''name'', VStr ''reg''), (''description'', VStr ''d''),
      (''builds'', VDict [(''b1'', VDict [(''cmd'', VStr ''make comp''), (''dir'', VStr ''sim'')]),
                        (''b2'', VDict [(''cmd'', VStr ''make comp''), (''dir'', VStr ''sim'')])]),
      (''tests'', VDict [(''t1'', VDict [(''build'', VStr ''b1''), (''cmd'', VStr ''make test''), (''dir'', VStr ''sim'')]),
                       (''t2'', VDict [(''builds'', VList [VStr ''b1'']), (''cmd'', VStr ''make test''),
                                    (''dir'', VStr ''sim''), (''skip_sim'', VList [VStr ''vsim''])])])]"

definition ex_world :: world where
  "ex_world = \<lparr>w_script_dir = ''/p/bin'', w_cwd = ''/p'', w_isdir = (\<lambda>p. True),
     w_read = (\<lambda>p. Some []), w_yaml = (\<lambda>c. Inr ex_spec),
     w_writable = (\<lambda>p. True), w_chmod = (\<lambda>p. True)\<rparr>"

definition ex_args :: cvr_args where
  "ex_args = \<lparr>a_file = Some [''reg''], a_project = ''cv32e40x'', a_outfile = None, a_results = None,
     a_simulator = ''vsim'', a_cov = True, a_cfg = Some ''pma'', a_iss = Some ''NO'', a_parallel = ''30'',
     a_metrics = True, a_num = Some ''3'', a_lsf = None, a_make = Some ''mk'', a_makearg = None,
     a_sh = True, a_vsif = False, a_toolchain = ''corev''\<rparr>"

lemma ex_spec_ok: "yaml_ok ex_spec" by code_simp

lemma ex_yaml_ok: "w_yaml ex_world content = Inr spec \<Longrightarrow> yaml_ok spec"
  using ex_spec_ok by (auto simp: ex_world_def)

lemma ex_read: "is_ok (read_file ex_world ex_args ''reg.yaml'')" by code_simp

lemma ex_read_testlist: "is_ok (read_testlist ex_world ex_args ex_spec)" by code_simp

subsection \<open>Reading\<close>

text \<open>
  C2: a regression that \<^verbatim>\<open>read_file\<close> returns is consistent: names are unique, every
  object is stored under its name, every test's builds are a list, and every build a test
  names exists.  PyYAML's promise that is used: the mappings it returns have distinct keys.
\<close>

theorem cv_read_consistent:
  assumes "\<And>content spec. w_yaml w content = Inr spec \<Longrightarrow> yaml_ok spec"
    and "read_file w args file = Inr r"
  shows "reg_ok r \<and> list_all (\<lambda>p. builds_list (snd p)) (r_tests r)"
proof (rule read_file_tests[OF assms(2)])
  fix content spec ts
  assume y: "w_yaml w content = Inr spec" and r: "read_testlist w args spec = Inr r"
    and ts: "py_getitem spec ''tests'' = Inr (VDict ts)"
  show ?thesis
    using read_testlist_reg_ok[OF r assms(1)[OF y]] loaded_tests[OF r assms(1)[OF y] _ ts]
    by (simp add: list_all_iff)
qed

theorem cv_read_consistent_witness:
  "\<exists>r. read_file ex_world ex_args ''reg.yaml'' = Inr r \<and> reg_ok r
     \<and> list_all (\<lambda>p. builds_list (snd p)) (r_tests r)"
  using ex_read cv_read_consistent[of ex_world ex_args "''reg.yaml''"] ex_yaml_ok
  unfolding is_ok_Inr by blast

text \<open>
  C13: reading keeps the YAML's order and loses nothing: the builds of the result are the
  keys of the builds section in order, and its tests are the keys of the tests section that
  the selected simulator does not skip, in order.
\<close>

theorem cv_read_names:
  assumes "read_testlist w args spec = Inr r" and "py_getitem spec ''builds'' = Inr (VDict bs)"
    and "py_getitem spec ''tests'' = Inr (VDict ts)" and "dict_ok bs"
  shows "dict_keys (r_builds r) = dict_keys bs
    \<and> dict_keys (r_tests r) = dict_keys (filter (\<lambda>t. skip_test args (snd t) = Inr False) ts)"
  using read_testlist_ok[OF assms] by simp

theorem cv_read_names_witness:
  "\<exists>r. read_testlist ex_world ex_args ex_spec = Inr r
     \<and> dict_keys (r_builds r) = [''b1'', ''b2''] \<and> dict_keys (r_tests r) = [''t1'']"
proof -
  let ?b = "[(''b1'', VDict [(''cmd'', VStr ''make comp''), (''dir'', VStr ''sim'')]),
             (''b2'', VDict [(''cmd'', VStr ''make comp''), (''dir'', VStr ''sim'')])]"
  let ?t = "[(''t1'', VDict [(''build'', VStr ''b1''), (''cmd'', VStr ''make test''), (''dir'', VStr ''sim'')]),
             (''t2'', VDict [(''builds'', VList [VStr ''b1'']), (''cmd'', VStr ''make test''),
                          (''dir'', VStr ''sim''), (''skip_sim'', VList [VStr ''vsim''])])]"
  from ex_read_testlist obtain r where r: "read_testlist ex_world ex_args ex_spec = Inr r"
    unfolding is_ok_Inr by blast
  have b: "py_getitem ex_spec ''builds'' = Inr (VDict ?b)" and t: "py_getitem ex_spec ''tests'' = Inr (VDict ?t)"
    by (simp_all add: ex_spec_def)
  have d: "dict_ok ?b" by code_simp
  have "dict_keys ?b = [''b1'', ''b2'']"
    and "dict_keys (filter (\<lambda>t. skip_test ex_args (snd t) = Inr False) ?t) = [''t1'']" by code_simp+
  with cv_read_names[OF r b t d] r show ?thesis by auto
qed

text \<open>
  C14: the command line wins over the YAML, and the YAML over the defaults.  Every test of a
  regression that was read is stored under the key of an entry of the tests section, and its
  attributes follow from that entry's mapping \<open>d\<close>: the name and the simulator are the key and
  the command line's; ISS, configuration and iteration count are the command line's where it
  gives them, and otherwise the entry's own, or the constructor's default; the coverage flag
  is the entry's own, and set by \<^verbatim>\<open>--cov\<close> only where the entry has none; and every
  attribute that the script does not touch is the entry's or the default.  The iteration
  count is forced on every test, also on one that has no iterations of its own.
\<close>

theorem cv_overrides:
  assumes "\<And>content spec. w_yaml w content = Inr spec \<Longrightarrow> yaml_ok spec"
    and "read_file w args file = Inr r"
  shows "\<exists>content spec ts. w_read w (path_join (get_regress_path w (a_project args)) [file]) = Some content
    \<and> w_yaml w content = Inr spec \<and> py_getitem spec ''tests'' = Inr (VDict ts)
    \<and> list_all (\<lambda>p. \<exists>d. (fst p, VDict d) \<in> set ts \<and> test_attrs_from args d (fst p) (snd p)) (r_tests r)"
proof (rule read_file_tests[OF assms(2)])
  fix content spec ts
  assume "w_read w (path_join (get_regress_path w (a_project args)) [file]) = Some content"
    and y: "w_yaml w content = Inr spec" and r: "read_testlist w args spec = Inr r"
    and ts: "py_getitem spec ''tests'' = Inr (VDict ts)"
  then show ?thesis using loaded_tests[OF r assms(1)[OF y] _ ts] by (auto simp: list_all_iff)
qed

theorem cv_overrides_witness:
  "\<exists>r. read_file ex_world ex_args ''reg.yaml'' = Inr r
     \<and> list_all (\<lambda>p. map_of (snd p) ''num'' = Some (VInt 3) \<and> map_of (snd p) ''iss'' = Some (VStr ''NO'')
          \<and> map_of (snd p) ''cov'' = Some (VBool True) \<and> map_of (snd p) ''dir'' = Some (VStr ''sim'')) (r_tests r)"
proof -
  from ex_read obtain r where r: "read_file ex_world ex_args ''reg.yaml'' = Inr r"
    unfolding is_ok_Inr by blast
  from cv_overrides[of ex_world ex_args, OF ex_yaml_ok r] obtain spec ts where
    spec: "w_yaml ex_world [] = Inr spec" "py_getitem spec ''tests'' = Inr (VDict ts)"
    and all: "list_all (\<lambda>p. \<exists>d. (fst p, VDict d) \<in> set ts \<and> test_attrs_from ex_args d (fst p) (snd p)) (r_tests r)"
    by (auto simp: ex_world_def)
  have entry: "map_of d ''dir'' = Some (VStr ''sim'') \<and> map_of d ''cov'' = None"
    if "(k, VDict d) \<in> set ts" for k d
    using that spec by (auto simp: ex_world_def ex_spec_def)
  have n: "py_int ''3'' = Inr 3" by code_simp
  have k: "map_of t ''num'' = Some (VInt 3) \<and> map_of t ''iss'' = Some (VStr ''NO'')
      \<and> map_of t ''cov'' = Some (VBool True) \<and> map_of t ''dir'' = Some (VStr ''sim'')"
    if a: "test_attrs_from ex_args d m t" and e: "map_of d ''dir'' = Some (VStr ''sim'') \<and> map_of d ''cov'' = None"
    for d m t
  proof -
    have "yaml_attr d ''dir'' = Some (VStr ''sim'')" "yaml_attr d ''cov'' = None"
      using e by (simp_all add: yaml_attr_def test_defaults_def)
    with a show ?thesis by (simp add: test_attrs_from_def ex_args_def given_def n)
  qed
  have "list_all (\<lambda>p. map_of (snd p) ''num'' = Some (VInt 3) \<and> map_of (snd p) ''iss'' = Some (VStr ''NO'')
      \<and> map_of (snd p) ''cov'' = Some (VBool True) \<and> map_of (snd p) ''dir'' = Some (VStr ''sim'')) (r_tests r)"
    using all by (rule list.pred_mono_strong) (use k entry in blast)
  with r show ?thesis by blast
qed

subsection \<open>Adding builds and tests\<close>

text \<open>
  C15: what adding a test does, on every branch.  A name that is already there never reaches
  the exit status 2 meant for it: the message that is formatted first subscripts the test
  object, a \<^verbatim>\<open>TypeError\<close>.  With a new name the test is stored, last and without any other
  change, exactly when its builds are an iterable of names of existing builds; otherwise the
  script ends with exit status 2.
\<close>

theorem cv_add_test_checks_builds:
  assumes "str_attr t ''name'' = Inr n" and "get_attr t ''builds'' = Inr v"
  shows "add_test r t =
    (if dict_has n (r_tests r) then Inl TypeError
     else if refs_ok (r_builds r) t then Inr (r\<lparr>r_tests := r_tests r @ [(n, t)]\<rparr>)
     else Inl (SystemExit 2))"
proof -
  let ?P = "\<lambda>x. case x of VStr s \<Rightarrow> dict_has s (r_builds r) | _ \<Rightarrow> False"
  have loop: "foldE (\<lambda>u b. case b of VStr s \<Rightarrow> if dict_has s (r_builds r) then Inr () else Inl (SystemExit 2)
        | _ \<Rightarrow> Inl (SystemExit 2)) () bs = (if list_all ?P bs then Inr () else Inl (SystemExit 2))" for bs
    by (induction bs) (auto split: pyval.splits)
  have "check_builds r v = (if refs_ok (r_builds r) t then Inr () else Inl (SystemExit 2))"
    using assms(2) by (simp add: check_builds_def refs_ok_def loop split: sum.splits)
  then show ?thesis using assms by (simp add: add_test_def dict_set_new)
qed

theorem cv_add_test_checks_builds_witness:
  "add_test (regression_init []) [(''name'', VStr ''t''), (''builds'', VList [VStr ''b''])] = Inl (SystemExit 2)"
proof -
  let ?t = "[(''name'', VStr ''t''), (''builds'', VList [VStr ''b''])]"
  have 1: "str_attr ?t ''name'' = Inr ''t''" by code_simp
  have 2: "\<not> dict_has ''t'' (r_tests (regression_init []))" by code_simp
  have 3: "get_attr ?t ''builds'' = Inr (VList [VStr ''b''])" by code_simp
  have "\<not> refs_ok (r_builds (regression_init [])) ?t" by code_simp
  with cv_add_test_checks_builds[OF 1 3, of "regression_init []"] 2 show ?thesis by simp
qed

subsection \<open>Queries\<close>

text \<open>
  C16: \<^verbatim>\<open>get_builds\<close> and \<^verbatim>\<open>get_builds_with_no_tests\<close> split the builds: on a
  consistent regression both return, the first only builds of the regression, and the second
  exactly the others, in order.
\<close>

theorem cv_builds_partition:
  assumes "reg_ok r" and "list_all (\<lambda>p. builds_list (snd p)) (r_tests r)"
  shows "\<exists>S. get_builds r = Inr S \<and> S \<subseteq> set (r_builds r)
    \<and> get_builds_with_no_tests r = Inr (map snd (filter (\<lambda>p. p \<notin> S) (r_builds r)))"
proof -
  let ?N = "\<Union>p \<in> set (r_tests r). set (build_names (snd p))"
  let ?S = "(\<lambda>s. (s, the (map_of (r_builds r) s))) ` ?N"
  have refs: "list_all (\<lambda>p. refs_ok (r_builds r) (snd p) \<and> builds_list (snd p)) (r_tests r)"
    using assms by (auto simp: reg_ok_def list_all_iff)
  have lists: "\<exists>ns. get_attr (snd t) ''builds'' = Inr (VList (map VStr ns)) \<and> list_all (\<lambda>s. dict_has s (r_builds r)) ns"
    if "t \<in> set (r_tests r)" for t
    using refs that by (intro test_builds_list) (auto simp: list_all_iff)
  have has: "dict_has s (r_builds r)" if "s \<in> ?N" for s
    using that lists build_names_eq by (fastforce simp: list_all_iff)
  have mem: "p \<in> ?S \<longleftrightarrow> fst p \<in> ?N" if "p \<in> set (r_builds r)" for p
  proof -
    have "map_of (r_builds r) (fst p) = Some (snd p)"
      using that assms(1) by (intro map_of_is_SomeI) (simp_all add: reg_ok_def dict_ok_def dict_keys_def)
    then show ?thesis by (cases p) force
  qed
  have "?S \<subseteq> set (r_builds r)"
  proof
    fix p assume "p \<in> ?S"
    then obtain s where s: "s \<in> ?N" and p: "p = (s, the (map_of (r_builds r) s))" by blast
    obtain b where "map_of (r_builds r) s = Some b" using has[OF s] by (auto simp: dict_has_map_of)
    then show "p \<in> set (r_builds r)" using p by (simp add: map_of_SomeD)
  qed
  moreover have "get_builds r = Inr ?S" by (rule get_builds_eq[OF refs])
  moreover have "get_builds_with_no_tests r =
      Inr ([] @ map snd (filter (\<lambda>p. \<not> (\<exists>t \<in> set (r_tests r). fst p \<in> set (build_names (snd t)))) (r_builds r)))"
    unfolding get_builds_with_no_tests_def
    by (rule no_tests_loop) (use lists assms(1) in \<open>auto simp: reg_ok_def\<close>)
  moreover have "filter (\<lambda>p. \<not> (\<exists>t \<in> set (r_tests r). fst p \<in> set (build_names (snd t)))) (r_builds r)
      = filter (\<lambda>p. p \<notin> ?S) (r_builds r)"
    using mem by (intro filter_cong) auto
  ultimately show ?thesis by auto
qed

definition ex_reg :: regression where
  "ex_reg = \<lparr>r_attrs = [], r_builds = [(''a'', [(''name'', VStr ''a'')]), (''b'', [(''name'', VStr ''b'')])],
     r_tests = [(''t'', [(''name'', VStr ''t''), (''builds'', VList [VStr ''b''])])]\<rparr>"

theorem cv_builds_partition_witness:
  "get_builds ex_reg = Inr {(''b'', [(''name'', VStr ''b'')])}
   \<and> get_builds_with_no_tests ex_reg = Inr [[(''name'', VStr ''a'')]]"
proof -
  have 1: "reg_ok ex_reg" by code_simp
  have 2: "list_all (\<lambda>p. builds_list (snd p)) (r_tests ex_reg)" by code_simp
  have "get_builds ex_reg = Inr {(''b'', [(''name'', VStr ''b'')])}" by code_simp
  with cv_builds_partition[OF 1 2] show ?thesis by (auto simp: ex_reg_def)
qed

subsection \<open>Writing\<close>

lemma unique_step_eq:
  assumes "list_all (\<lambda>p. str_attr (snd p) ''name'' = Inr (fst p)) (r_builds r)"
  shows "unique_step ub r = Inr (foldl (\<lambda>d p. if fst p \<in> set (dict_keys d) then d
    else dict_set (fst p) (snd p) d) ub (r_builds r))"
proof -
  have "foldE (\<lambda>ub b. bindE (str_attr (snd b) ''name'') (\<lambda>n.
        Inr (if dict_has n ub then ub else dict_set n (snd b) ub))) ub bs
    = Inr (foldl (\<lambda>d p. if fst p \<in> set (dict_keys d) then d else dict_set (fst p) (snd p) d) ub bs)"
    if "list_all (\<lambda>p. str_attr (snd p) ''name'' = Inr (fst p)) bs" for bs ub
    using that by (induction bs arbitrary: ub) (auto simp: dict_has_def)
  then show ?thesis using assms by (simp add: unique_step_def)
qed

lemma read_all_unique:
  assumes "\<And>content spec. w_yaml w content = Inr spec \<Longrightarrow> yaml_ok spec"
    and "foldE (\<lambda>acc f. bindE (read_file w args (yaml_name f)) (\<lambda>r.
        bindE (unique_step (snd acc) r) (\<lambda>ub. Inr (fst acc @ [r], ub)))) acc files = Inr (regs, ub)"
    and "map_of (snd acc) = map_of (concat (map r_builds (fst acc)))" and "dict_ok (snd acc)"
  shows "map_of ub = map_of (concat (map r_builds regs)) \<and> dict_ok ub"
  using assms(2-)
proof (induction files arbitrary: acc)
  case Nil
  then show ?case by simp
next
  case (Cons f files)
  from Cons.prems(1) obtain r ub1 where r: "read_file w args (yaml_name f) = Inr r"
    and ub1: "unique_step (snd acc) r = Inr ub1"
    and rest: "foldE (\<lambda>acc f. bindE (read_file w args (yaml_name f)) (\<lambda>r.
        bindE (unique_step (snd acc) r) (\<lambda>ub. Inr (fst acc @ [r], ub)))) (fst acc @ [r], ub1) files = Inr (regs, ub)"
    by (auto simp: bindE_eq_Inr)
  have "reg_ok r"
    using r assms(1) by (auto elim!: read_file_testlist intro: read_testlist_reg_ok)
  then have "list_all (\<lambda>p. str_attr (snd p) ''name'' = Inr (fst p)) (r_builds r)" by (simp add: reg_ok_def)
  from unique_step_eq[OF this] ub1 have ub1': "ub1 = foldl (\<lambda>d p. if fst p \<in> set (dict_keys d) then d
      else dict_set (fst p) (snd p) d) (snd acc) (r_builds r)" by simp
  have "map_of ub1 k = map_of (concat (map r_builds (fst acc @ [r]))) k" for k
    unfolding ub1' pydict.lookup_insert_new Cons.prems(2)
    by (simp add: map_add_def split: option.splits)
  moreover have "dict_ok ub1" unfolding ub1' by (rule pydict.invar_insert_new[OF Cons.prems(3)])
  ultimately show ?case by (intro Cons.IH[OF rest]) auto
qed

text \<open>
  C33: over several regression files, \<^verbatim>\<open>unique_builds\<close> holds each build name once,
  with the definition of the first file that has it.
\<close>

theorem cv_unique_builds_first:
  assumes "\<And>content spec. w_yaml w content = Inr spec \<Longrightarrow> yaml_ok spec"
    and "read_all w args files = Inr (regs, ub)"
  shows "dict_ok ub \<and> map_of ub = map_of (concat (map r_builds regs))"
  using read_all_unique[OF assms(1) assms(2)[unfolded read_all_def]]
  by (simp add: dict_ok_def dict_keys_def)

theorem cv_unique_builds_first_witness:
  "\<exists>regs ub. read_all ex_world ex_args [''reg'', ''reg''] = Inr (regs, ub) \<and> dict_ok ub
     \<and> map_of ub = map_of (concat (map r_builds regs))"
proof -
  have "is_ok (read_all ex_world ex_args [''reg'', ''reg''])" by code_simp
  then obtain regs ub where "read_all ex_world ex_args [''reg'', ''reg''] = Inr (regs, ub)"
    unfolding is_ok_Inr by auto
  with cv_unique_builds_first[of ex_world ex_args "[''reg'', ''reg'']"] ex_yaml_ok show ?thesis by blast
qed







end
