(* ===== verification/MakeEmit.thy ===== *)
theory MakeEmit
  imports PyIO "HOL-Library.Char_ord" "HOL-Library.List_Lexorder"
begin

text \<open>
  What \<^verbatim>\<open>bin/yaml2make\<close> and \<^verbatim>\<open>bin/cfgyaml2make\<close> share: writing a
  dictionary as a file of make variables.  The file system answers through \<open>io_env\<close>, and
  what the script does to it is the list of its effects, so that a file left open or a partial
  file left behind can be seen.
\<close>

subsection \<open>The file system\<close>

text \<open>
  Which calls succeed: creating a directory, opening a path for writing, the temporary file
  (its name), the n-th write, closing, and whether a path exists afterwards.
\<close>

record io_env =
  io_makedirs :: "string \<Rightarrow> bool"
  io_open :: "string \<Rightarrow> bool"
  io_temp :: "string option"
  io_write :: "nat \<Rightarrow> bool"
  io_close :: bool
  io_exists :: "string \<Rightarrow> bool"

datatype fs_effect =
    OpenR string
  | Makedirs string
  | OpenW string
  | OpenTemp string
  | WriteTo string string
  | CloseF string
  | Unlink string

text \<open>What a path holds in the end, when it was opened empty.\<close>

fun file_text :: "string \<Rightarrow> fs_effect list \<Rightarrow> string" where
  "file_text f [] = []"
| "file_text f (WriteTo g s # es) = (if g = f then s @ file_text f es else file_text f es)"
| "file_text f (e # es) = file_text f es"

subsection \<open>Writing the variables\<close>

definition prefix_text :: "string option \<Rightarrow> string" where
  "prefix_text p = (if given p then py_upper (the p) @ ''_'' else [])"

definition make_line :: "string option \<Rightarrow> string \<Rightarrow> string \<Rightarrow> string" where
  "make_line p k v = prefix_text p @ py_upper k @ ''='' @ v @ [nl]"

text \<open>\<^verbatim>\<open>sorted(spec.items())\<close>: the keys of a dictionary differ, so they decide.\<close>

definition sorted_items :: "pyval dict \<Rightarrow> pyval dict" where
  "sorted_items d = sort_key fst d"

fun write_items ::
  "io_env \<Rightarrow> (pyval \<Rightarrow> string res) \<Rightarrow> string option \<Rightarrow> string \<Rightarrow> nat \<Rightarrow> pyval dict
    \<Rightarrow> fs_effect list \<times> unit res" where
  "write_items env shown p f i [] = ([], Inr ())"
| "write_items env shown p f i ((k, v) # kvs) =
     (case shown v of
        Inl e \<Rightarrow> ([], Inl e)
      | Inr s \<Rightarrow>
          if io_write env i
          then (let (es, r) = write_items env shown p f (Suc i) kvs in (WriteTo f (make_line p k s) # es, r))
          else ([], Inl OSError))"

definition open_out :: "io_env \<Rightarrow> string option \<Rightarrow> fs_effect list \<times> string res" where
  "open_out env out =
     (if given out then
        (let path = the out; d = dirname path in
         if d \<noteq> [] \<and> \<not> io_makedirs env d then ([], Inl (SystemExit 1))
         else (let mk = (if d \<noteq> [] then [Makedirs d] else []) in
           if io_open env path then (mk @ [OpenW path], Inr path) else (mk, Inl (SystemExit 1))))
      else (case io_temp env of
              None \<Rightarrow> ([], Inl OSError)
            | Some t \<Rightarrow> ([OpenTemp t], Inr t)))"

text \<open>
  The writing loop with its handler and its \<^verbatim>\<open>finally\<close>.  Closing a closed file does
  nothing, so one close is recorded; a close that fails raises in place of what was raised.
\<close>

definition write_out ::
  "io_env \<Rightarrow> (pyval \<Rightarrow> string res) \<Rightarrow> string option \<Rightarrow> string option \<Rightarrow> pyval dict \<Rightarrow> string
    \<Rightarrow> fs_effect list \<times> string res" where
  "write_out env shown p out spec f =
     (let (ws, r) = write_items env shown p f 0 (sorted_items spec)
      in (case r of
            Inr u \<Rightarrow> (ws @ [CloseF f], if io_close env then Inr f else Inl OSError)
          | Inl OSError \<Rightarrow>
              if io_close env
              then (ws @ [CloseF f] @ (if given out \<and> io_exists env (the out) then [Unlink (the out)] else []),
                    Inl (SystemExit 1))
              else (ws @ [CloseF f], Inl OSError)
          | Inl e \<Rightarrow> (ws @ [CloseF f], Inl (if io_close env then e else OSError))))"

definition emit_vars ::
  "io_env \<Rightarrow> (pyval \<Rightarrow> string res) \<Rightarrow> pyval dict \<Rightarrow> string option \<Rightarrow> string option
    \<Rightarrow> fs_effect list \<times> string res" where
  "emit_vars env shown spec p out =
     (let (es, r) = open_out env out
      in (case r of
            Inl e \<Rightarrow> (es, Inl e)
          | Inr f \<Rightarrow> (let (ws, r') = write_out env shown p out spec f in (es @ ws, r'))))"

subsection \<open>A reader of make variables\<close>

definition read_var :: "string \<Rightarrow> string \<times> string" where
  "read_var l = (takeWhile (\<lambda>c. c \<noteq> CHR ''='') l, tl (dropWhile (\<lambda>c. c \<noteq> CHR ''='') l))"

definition read_vars :: "string \<Rightarrow> (string \<times> string) list" where
  "read_vars s = map read_var (file_lines s)"

text \<open>Names and values a line of the file can carry.\<close>

definition name_ok :: "string \<Rightarrow> bool" where
  "name_ok k \<longleftrightarrow> CHR ''='' \<notin> set k \<and> nl \<notin> set k"

definition prefix_ok :: "string option \<Rightarrow> bool" where
  "prefix_ok p \<longleftrightarrow> (case p of None \<Rightarrow> True | Some s \<Rightarrow> name_ok s)"

lemma name_ok_upper: "name_ok k \<Longrightarrow> name_ok (py_upper k)"
proof -
  have "upper_char c \<noteq> CHR ''=''" if "c \<noteq> CHR ''=''" for c
    by (rule upper_char_neq[OF _ that]) simp
  moreover have "upper_char c \<noteq> nl" if "c \<noteq> nl" for c
    by (rule upper_char_neq[OF _ that]) simp
  ultimately show "name_ok k \<Longrightarrow> name_ok (py_upper k)"
    unfolding name_ok_def py_upper_def by force
qed

lemma name_ok_prefix: "prefix_ok p \<Longrightarrow> name_ok (prefix_text p)"
  using name_ok_upper[of "the p"]
  by (auto simp: prefix_ok_def prefix_text_def given_def name_ok_def split: option.splits)

lemma read_var_line:
  assumes "name_ok (prefix_text p)" and "name_ok k"
  shows "read_var (prefix_text p @ py_upper k @ ''='' @ v) = (prefix_text p @ py_upper k, v)"
proof -
  have n: "CHR ''='' \<notin> set (prefix_text p @ py_upper k)"
    using assms(1) name_ok_upper[OF assms(2)] by (simp add: name_ok_def)
  have t: "takeWhile (\<lambda>c. c \<noteq> CHR ''='') (a @ CHR ''='' # b) = a
    \<and> dropWhile (\<lambda>c. c \<noteq> CHR ''='') (a @ CHR ''='' # b) = CHR ''='' # b" if "CHR ''='' \<notin> set a" for a b :: string
    using that by (induction a) auto
  show ?thesis using t[OF n, of v] by (simp add: read_var_def)
qed

subsection \<open>Facts about the effects\<close>

text \<open>The files that are open after some effects.\<close>

definition open_step :: "string list \<Rightarrow> fs_effect \<Rightarrow> string list" where
  "open_step fs e = (case e of OpenR f \<Rightarrow> f # fs | OpenW f \<Rightarrow> f # fs | OpenTemp f \<Rightarrow> f # fs | CloseF f \<Rightarrow> removeAll f fs | _ \<Rightarrow> fs)"

definition left_open :: "fs_effect list \<Rightarrow> string list" where
  "left_open es = foldl open_step [] es"

lemma file_text_append: "file_text f (es @ fs) = file_text f es @ file_text f fs"
  by (induction f es rule: file_text.induct) auto

lemma open_out_text: "open_out env out = (es, r) \<Longrightarrow> file_text f es = []"
  by (auto simp: open_out_def Let_def split: if_splits option.splits)

lemma open_out_name: "open_out env out = (es, Inr f) \<Longrightarrow> given out \<Longrightarrow> f = the out"
  by (auto simp: open_out_def Let_def split: if_splits option.splits)

lemma open_out_open:
  "open_out env out = (es, r) \<Longrightarrow> foldl open_step [] es = (case r of Inr f \<Rightarrow> [f] | Inl e \<Rightarrow> [])"
  by (auto simp: open_out_def Let_def open_step_def split: if_splits option.splits)

lemma write_items_writes:
  "write_items env shown p f i kvs = (es, r) \<Longrightarrow> foldl open_step fs es = fs"
proof (induction kvs arbitrary: i es)
  case (Cons kv kvs)
  then show ?case
    by (cases kv) (auto simp: open_step_def Let_def split: sum.splits if_splits prod.splits)
qed simp

lemma sorted_items_set: "set (sorted_items d) = set d"
  by (simp add: sorted_items_def)

subsection \<open>The contract of the value printers\<close>

text \<open>
  What the emitter relies on: a string is printed without its trailing white space, and a
  value that cannot be printed is not reported as a failure of the file system.
\<close>

locale value_printer =
  fixes shown :: "pyval \<Rightarrow> string res"
  assumes value_str: "shown (VStr s) = Inr (py_rstrip s)"
    and value_err: "shown v \<noteq> Inl OSError"
begin

definition printed :: "pyval \<Rightarrow> string" where
  "printed v = (case shown v of Inr s \<Rightarrow> s | Inl e \<Rightarrow> [])"

lemma printed_Inr: "shown v = Inr s \<Longrightarrow> printed v = s"
  by (simp add: printed_def)

lemma write_items_text:
  "write_items env shown p f i kvs = (es, Inr u) \<Longrightarrow>
   list_all (\<lambda>kv. \<exists>s. shown (snd kv) = Inr s) kvs \<and>
   file_text f es = concat (map (\<lambda>kv. make_line p (fst kv) (printed (snd kv))) kvs)"
proof (induction kvs arbitrary: i es)
  case (Cons kv kvs)
  then show ?case
    by (cases kv) (auto simp: printed_def Let_def split: sum.splits if_splits prod.splits)
qed simp

text \<open>A run that returns wrote one line per key, in the order of the keys.\<close>

lemma emit_text:
  assumes "emit_vars env shown spec p out = (es, Inr f)"
  shows "list_all (\<lambda>kv. \<exists>s. shown (snd kv) = Inr s) (sorted_items spec) \<and>
    file_text f es = concat (map (\<lambda>kv. make_line p (fst kv) (printed (snd kv))) (sorted_items spec))"
proof -
  obtain os ws where o: "open_out env out = (os, Inr f)"
    and w: "write_items env shown p f 0 (sorted_items spec) = (ws, Inr ())"
    and es: "es = os @ ws @ [CloseF f]"
    using assms by (auto simp: emit_vars_def write_out_def Let_def
      split: prod.splits sum.splits if_splits pyexc.splits)
  show ?thesis using write_items_text[OF w] open_out_text[OF o, of f]
    by (simp add: es file_text_append)
qed

lemma emit_reads_back:
  assumes "emit_vars env shown spec p out = (es, Inr f)" and "prefix_ok p"
    and ok: "list_all (\<lambda>kv. name_ok (fst kv) \<and> nl \<notin> set (printed (snd kv))) spec"
  shows "read_vars (file_text f es) =
    map (\<lambda>kv. (prefix_text p @ py_upper (fst kv), printed (snd kv))) (sorted_items spec)"
proof -
  let ?l = "\<lambda>kv. prefix_text p @ py_upper (fst kv) @ ''='' @ printed (snd kv)"
  have each: "name_ok (fst kv)" "nl \<notin> set (printed (snd kv))" if "kv \<in> set (sorted_items spec)" for kv
    using ok that by (simp_all add: sorted_items_set list_all_iff)
  have pre: "name_ok (prefix_text p)" by (rule name_ok_prefix[OF assms(2)])
  have no_nl: "nl \<notin> set l" if l: "l \<in> set (map ?l (sorted_items spec))" for l
  proof -
    obtain kv where kv: "kv \<in> set (sorted_items spec)" and "l = ?l kv" using l by auto
    with each[OF kv] pre name_ok_upper[OF each(1)[OF kv]] show ?thesis by (simp add: name_ok_def)
  qed
  have "file_text f es = concat (map (\<lambda>l. l @ [nl]) (map ?l (sorted_items spec)))"
    using emit_text[OF assms(1)] by (simp add: make_line_def comp_def)
  then have "file_lines (file_text f es) = map ?l (sorted_items spec)"
    using file_lines_unlines[of "map ?l (sorted_items spec)"] no_nl by simp
  moreover have "map read_var (map ?l (sorted_items spec)) =
      map (\<lambda>kv. (prefix_text p @ py_upper (fst kv), printed (snd kv))) (sorted_items spec)"
    using each read_var_line[OF pre] by (simp add: comp_def)
  ultimately show ?thesis by (simp add: read_vars_def)
qed

lemma write_out_closes:
  assumes "write_out env shown p out spec f = (es, r)"
  shows "foldl open_step [f] es = []"
proof -
  obtain ws r' where w: "write_items env shown p f 0 (sorted_items spec) = (ws, r')" by fastforce
  have "foldl open_step [f] ws = [f]" by (rule write_items_writes[OF w])
  then show ?thesis using assms w
    by (auto simp: write_out_def open_step_def split: sum.splits if_splits pyexc.splits)
qed

text \<open>No run leaves a file open, whichever call failed.\<close>

lemma emit_left_open: "emit_vars env shown spec p out = (es, r) \<Longrightarrow> left_open es = []"
proof -
  assume e: "emit_vars env shown spec p out = (es, r)"
  obtain os r' where o: "open_out env out = (os, r')" by fastforce
  show ?thesis
  proof (cases r')
    case (Inl x)
    then have "es = os" using e o by (simp add: emit_vars_def)
    then show ?thesis using open_out_open[OF o] Inl by (simp add: left_open_def)
  next
    case (Inr f)
    then obtain ws where "write_out env shown p out spec f = (ws, r)" and "es = os @ ws"
      using e o by (auto simp: emit_vars_def split: prod.splits)
    then show ?thesis
      using write_out_closes open_out_open[OF o] Inr by (simp add: left_open_def)
  qed
qed

text \<open>A value that cannot be printed apart, writing stops only at a write that fails.\<close>

lemma write_items_error:
  "write_items env shown p f i kvs = (es, Inl e) \<Longrightarrow>
   (\<exists>kv \<in> set kvs. shown (snd kv) = Inl e) \<or> (e = OSError \<and> \<not> (\<forall>n. io_write env n))"
proof (induction kvs arbitrary: i es)
  case (Cons kv kvs)
  then show ?case
    by (cases kv) (fastforce simp: Let_def split: sum.splits if_splits prod.splits)
qed simp

lemma write_items_fails:
  assumes "list_all (\<lambda>kv. \<exists>s. shown (snd kv) = Inr s) kvs" and "\<not> io_write env n"
    and "i \<le> n" and "n < i + length kvs"
  shows "snd (write_items env shown p f i kvs) = Inl OSError"
  using assms
proof (induction kvs arbitrary: i)
  case (Cons kv kvs)
  obtain k v where kv: "kv = (k, v)" by (cases kv)
  obtain s where s: "shown v = Inr s" using Cons.prems(1) kv by auto
  show ?case
  proof (cases "i = n")
    case True
    then show ?thesis using Cons.prems(2) by (simp add: kv s)
  next
    case False
    then have "snd (write_items env shown p f (Suc i) kvs) = Inl OSError"
      using Cons.prems by (intro Cons.IH) auto
    then show ?thesis by (auto simp: kv s Let_def split: prod.splits)
  qed
qed simp

lemma write_items_only_writes:
  "write_items env shown p f i kvs = (es, r) \<Longrightarrow> list_all (\<lambda>e. \<exists>s. e = WriteTo f s) es"
proof (induction kvs arbitrary: i es)
  case (Cons kv kvs)
  then show ?case by (cases kv) (auto simp: Let_def split: sum.splits if_splits prod.splits)
qed simp

text \<open>
  A write that fails ends the script with status 1; the partial file is removed when its name was
  given and it exists, and nothing else is removed.
\<close>

lemma write_failure:
  assumes "list_all (\<lambda>kv. \<exists>s. shown (snd kv) = Inr s) spec" and "\<not> io_write env n"
    and "n < length spec" and "open_out env out = (os, Inr f)" and "io_close env"
  shows "\<exists>es. emit_vars env shown spec p out = (es, Inl (SystemExit 1))
    \<and> (if given out \<and> io_exists env (the out) then last es = Unlink (the out)
       else list_all (\<lambda>e. \<forall>g. e \<noteq> Unlink g) es)"
proof -
  have o: "list_all (\<lambda>e. \<forall>g. e \<noteq> Unlink g) os"
    using assms(4) by (auto simp: open_out_def Let_def split: if_splits option.splits)
  have "length (sorted_items spec) = length spec" by (simp add: sorted_items_def)
  moreover have "list_all (\<lambda>kv. \<exists>s. shown (snd kv) = Inr s) (sorted_items spec)"
    using assms(1) by (simp add: sorted_items_set list_all_iff)
  ultimately have "snd (write_items env shown p f 0 (sorted_items spec)) = Inl OSError"
    using assms(2,3) by (intro write_items_fails) auto
  then obtain ws where ws: "write_items env shown p f 0 (sorted_items spec) = (ws, Inl OSError)"
    by (metis prod.collapse)
  have "list_all (\<lambda>e. \<forall>g. e \<noteq> Unlink g) ws"
    using write_items_only_writes[OF ws] by (auto simp: list_all_iff)
  then show ?thesis using ws o assms(4,5) by (simp add: emit_vars_def write_out_def Let_def)
qed

end

end
