(* ===== verification/Yaml2make.thy ===== *)
theory Yaml2make
  imports MakeEmit
begin

text \<open>
  \<^verbatim>\<open>bin/yaml2make\<close>: a test specification as make variables.  The repository's
  top directory, the file system and PyYAML are arguments.
\<close>

definition REQUIRED_KEYS :: "string list" where
  "REQUIRED_KEYS = [''name'', ''uvm_test'', ''description'']"

definition TEST_PATHS :: "string list" where
  "TEST_PATHS = [''<CV_CORE>/tests/programs/corev-dv/'',
                 ''<CV_CORE>/tests/programs/embench/'',
                 ''<CV_CORE>/tests/programs/custom'']"

record y2m_world =
  yw_topdir :: string
  yw_exists :: "string \<Rightarrow> bool"
  yw_read :: "string \<Rightarrow> string option"
  yw_load :: "string \<Rightarrow> pyval res"

record y2m_args =
  ya_test :: "string option"
  ya_yaml :: "string option"
  ya_core :: "string option"
  ya_prefix :: "string option"
  ya_run_index :: string
  ya_out :: "string option"

definition core_paths :: "string \<Rightarrow> string list \<Rightarrow> string list" where
  "core_paths core ps = map (replace_all ''<CV_CORE>'' (py_lower core)) ps"

subsection \<open>Reading the specification\<close>

definition test_matches :: "y2m_world \<Rightarrow> string list \<Rightarrow> string \<Rightarrow> string \<Rightarrow> string list" where
  "test_matches w paths test type =
     filter (yw_exists w) (map (\<lambda>p. path_join (yw_topdir w) [p, test, type]) paths)"

text \<open>
  The value of one key after the loop: \<^verbatim>\<open>disable_csr_check\<close> is joined with plus
  signs, everything becomes a string, and the run index is substituted.
\<close>

definition join_plus :: "pyval \<Rightarrow> pyval res" where
  "join_plus v =
     bindE (py_iter v) (\<lambda>xs.
     bindE (mapE (\<lambda>x. case x of VStr s \<Rightarrow> Inr s | _ \<Rightarrow> Inl TypeError) xs) (\<lambda>ss.
       Inr (VStr (py_join ''+'' ss))))"

definition subst_value :: "string \<Rightarrow> string \<Rightarrow> pyval \<Rightarrow> pyval res" where
  "subst_value run_index k v =
     bindE (if k = ''disable_csr_check'' then join_plus v else Inr v) (\<lambda>v.
     bindE (re_sub_lit ''<RUN_INDEX>'' run_index (py_str v)) (\<lambda>s. Inr (VStr s)))"

definition subst_values :: "string \<Rightarrow> pyval dict \<Rightarrow> pyval dict res" where
  "subst_values run_index d =
     mapE (\<lambda>kv. bindE (subst_value run_index (fst kv) (snd kv)) (\<lambda>v. Inr (fst kv, v))) d"

definition set_item :: "pyval \<Rightarrow> string \<Rightarrow> pyval \<Rightarrow> pyval dict res" where
  "set_item d k v = (case d of VDict kvs \<Rightarrow> Inr (dict_set k v kvs) | _ \<Rightarrow> Inl TypeError)"

definition check_required :: "string list \<Rightarrow> pyval dict \<Rightarrow> unit res" where
  "check_required ks d = (if list_all (\<lambda>k. dict_has k d) ks then Inr () else Inl (SystemExit 2))"

definition add_program :: "pyval dict \<Rightarrow> pyval dict" where
  "add_program d =
     (if dict_has ''program'' d then d
      else (case map_of d ''name'' of Some v \<Rightarrow> dict_set ''program'' v d | None \<Rightarrow> d))"

definition finish_spec :: "string \<Rightarrow> string \<Rightarrow> pyval \<Rightarrow> pyval dict res" where
  "finish_spec run_index file spec =
     bindE (set_item spec ''test_dir'' (VStr (dirname file))) (\<lambda>d.
     bindE (subst_values run_index d) (\<lambda>d.
     bindE (check_required REQUIRED_KEYS d) (\<lambda>u. Inr (add_program d))))"

text \<open>
  The specification file is open while PyYAML reads it, and it is closed after that only when
  the loading did not raise.
\<close>

definition load_stream :: "y2m_world \<Rightarrow> string \<Rightarrow> (fs_effect, pyval) io" where
  "load_stream w file =
     (case yw_read w file of
        None \<Rightarrow> liftIO (Inl OSError)
      | Some body \<Rightarrow>
          bindIO (doIO (OpenR file)) (\<lambda>u.
          bindIO (liftIO (yw_load w body)) (\<lambda>spec.
          bindIO (doIO (CloseF file)) (\<lambda>u. retIO spec))))"

definition read_test_spec ::
  "y2m_world \<Rightarrow> string list \<Rightarrow> string \<Rightarrow> string \<Rightarrow> string \<Rightarrow> (fs_effect, pyval dict) io" where
  "read_test_spec w paths test type run_index =
     (case test_matches w paths test type of
        [file] \<Rightarrow> bindIO (load_stream w file) (\<lambda>spec. liftIO (finish_spec run_index file spec))
      | _ \<Rightarrow> liftIO (Inl (SystemExit 2)))"

lemma load_stream_result:
  "snd (load_stream w file) = (case yw_read w file of None \<Rightarrow> Inl OSError | Some body \<Rightarrow> yw_load w body)"
  by (cases "yw_read w file"; cases "yw_load w (the (yw_read w file))") (simp_all add: load_stream_def)

lemma load_stream_keeps: "e \<in> set (fst (load_stream w file)) \<Longrightarrow> e \<noteq> Unlink g"
  by (cases "yw_read w file"; cases "yw_load w (the (yw_read w file))") (auto simp: load_stream_def)

lemma load_stream_text: "file_text f (fst (load_stream w file)) = []"
  by (cases "yw_read w file"; cases "yw_load w (the (yw_read w file))") (simp_all add: load_stream_def)

text \<open>Which file loading leaves open: the only match, when its content did not load.\<close>

definition unloaded :: "y2m_world \<Rightarrow> string list \<Rightarrow> string list" where
  "unloaded w matches =
     (case matches of
        [file] \<Rightarrow> (case yw_read w file of
            Some body \<Rightarrow> (case yw_load w body of Inl e \<Rightarrow> [file] | Inr v \<Rightarrow> [])
          | None \<Rightarrow> [])
      | _ \<Rightarrow> [])"

lemma load_stream_open: "foldl open_step [] (fst (load_stream w file)) = unloaded w [file]"
  by (cases "yw_read w file"; cases "yw_load w (the (yw_read w file))")
    (simp_all add: load_stream_def unloaded_def open_step_def)

text \<open>A reader of a specification: the effects of loading the only match, and what comes of it.\<close>

locale spec_reader =
  fixes matches :: "string list"
    and w :: y2m_world
    and finish :: "string \<Rightarrow> pyval \<Rightarrow> 'a res"
    and reader :: "(fs_effect, 'a) io"
  assumes reader_eq: "reader = (case matches of
      [file] \<Rightarrow> bindIO (load_stream w file) (\<lambda>spec. liftIO (finish file spec))
    | _ \<Rightarrow> liftIO (Inl (SystemExit 2)))"
begin

lemma result: "snd reader = (case matches of
      [file] \<Rightarrow> (case yw_read w file of None \<Rightarrow> Inl OSError | Some body \<Rightarrow> bindE (yw_load w body) (finish file))
    | _ \<Rightarrow> Inl (SystemExit 2))"
  by (simp add: reader_eq snd_bindIO load_stream_result split: list.split option.split)

lemma effects: "fst reader = (case matches of [file] \<Rightarrow> fst (load_stream w file) | _ \<Rightarrow> [])"
proof -
  have "fst (bindIO m (\<lambda>x. liftIO (f x))) = fst m" for m :: "(fs_effect, pyval) io" and f :: "pyval \<Rightarrow> 'a res"
    by (cases "snd m") (simp_all add: bindIO_def)
  then show ?thesis by (simp add: reader_eq split: list.split)
qed

lemma left_open_reader: "foldl open_step [] (fst reader) = unloaded w matches"
  by (simp add: effects load_stream_open unloaded_def split: list.split)

lemma reader_text: "file_text f (fst reader) = []"
  by (simp add: effects load_stream_text split: list.split)

lemma reader_keeps: "list_all (\<lambda>e. \<forall>g. e \<noteq> Unlink g) (fst reader)"
  using load_stream_keeps by (fastforce simp: effects list_all_iff split: list.split)

lemma reader_loaded: "snd reader = Inr x \<Longrightarrow> unloaded w matches = []"
  by (auto simp: result unloaded_def bindE_eq_Inr split: list.splits option.splits)

text \<open>A script that reads and then emits leaves open what its reader does, if emitting closes all.\<close>

lemma script_left_open:
  assumes "\<And>spec. left_open (fst (emit spec)) = []"
  shows "left_open (fst (bindIO reader emit)) = unloaded w matches"
proof (cases "snd reader")
  case (Inl e)
  then show ?thesis by (simp add: bindIO_def left_open_def left_open_reader)
next
  case (Inr x)
  then show ?thesis using assms[of x] reader_loaded[OF Inr]
    by (simp add: bindIO_def left_open_def left_open_reader)
qed

lemma script_text: "bindIO reader emit = (es, Inr r) \<Longrightarrow>
   \<exists>spec fs. snd reader = Inr spec \<and> emit spec = (fs, Inr r) \<and> file_text f es = file_text f fs"
  using reader_text[of f] by (force simp: bindIO_eq_Inr file_text_append)

end

interpretation test_reader: spec_reader "test_matches w paths test type" w "finish_spec ri"
    "read_test_spec w paths test type ri"
  for w paths test type ri
  by unfold_locales (simp add: read_test_spec_def)

subsection \<open>Emitting\<close>

definition test_value :: "pyval \<Rightarrow> string res" where
  "test_value v = (case v of VStr s \<Rightarrow> Inr (py_rstrip s) | _ \<Rightarrow> Inl (AttributeError ''rstrip''))"

definition emit_test_make ::
  "io_env \<Rightarrow> pyval dict \<Rightarrow> string option \<Rightarrow> string option \<Rightarrow> fs_effect list \<times> string res" where
  "emit_test_make env spec p out = emit_vars env test_value spec p out"

interpretation test_printer: value_printer test_value
  by unfold_locales (auto simp: test_value_def split: pyval.splits)

subsection \<open>The script\<close>

text \<open>The effects on the file system, and the printed file name or how the script ended.\<close>

definition yaml2make :: "y2m_world \<Rightarrow> io_env \<Rightarrow> y2m_args \<Rightarrow> (fs_effect, string) io" where
  "yaml2make w env args =
     (if \<not> given (ya_core args) \<or> \<not> given (ya_yaml args) \<or> \<not> given (ya_test args)
      then liftIO (Inl (SystemExit 2))
      else bindIO (read_test_spec w (core_paths (the (ya_core args)) TEST_PATHS)
                     (the (ya_test args)) (the (ya_yaml args)) (ya_run_index args)) (\<lambda>spec.
           emit_test_make env spec (ya_prefix args) (ya_out args)))"

end
