(* ===== verification/Cfgyaml2make.thy ===== *)
theory Cfgyaml2make
  imports Yaml2make
begin

text \<open>
  \<^verbatim>\<open>bin/cfgyaml2make\<close>: a build configuration as make variables.  Unlike
  \<^verbatim>\<open>yaml2make\<close> it hands the values over as PyYAML read them, and prints a value
  that is not a string as an empty one.
\<close>

definition CFG_REQUIRED_KEYS :: "string list" where
  "CFG_REQUIRED_KEYS = [''name'', ''description'']"

definition CFG_PATHS :: "string list" where
  "CFG_PATHS = [''<CV_CORE>/tests/cfg'']"

record c2m_args =
  ca_yaml :: "string option"
  ca_core :: "string option"
  ca_prefix :: "string option"
  ca_out :: "string option"

definition cfg_matches :: "y2m_world \<Rightarrow> string list \<Rightarrow> string \<Rightarrow> string list" where
  "cfg_matches w paths file =
     filter (yw_exists w) (map (\<lambda>p. path_join (yw_topdir w) [p, file]) paths)"

definition check_cfg :: "pyval \<Rightarrow> unit res" where
  "check_cfg spec =
     foldE (\<lambda>u k. bindE (py_in k spec) (\<lambda>b. if b then Inr () else Inl (SystemExit 2))) () CFG_REQUIRED_KEYS"

definition read_cfg_spec :: "y2m_world \<Rightarrow> string list \<Rightarrow> string \<Rightarrow> (fs_effect, pyval) io" where
  "read_cfg_spec w paths file =
     (case cfg_matches w paths file of
        [m] \<Rightarrow> bindIO (load_stream w m) (\<lambda>spec. bindIO (liftIO (check_cfg spec)) (\<lambda>u. retIO spec))
      | _ \<Rightarrow> liftIO (Inl (SystemExit 2)))"

interpretation cfg_reader: spec_reader "cfg_matches w paths yaml" w "\<lambda>m spec. bindE (check_cfg spec) (\<lambda>u. Inr spec)"
    "read_cfg_spec w paths yaml"
  for w paths yaml
proof unfold_locales
  have "bindIO (liftIO (check_cfg spec)) (\<lambda>u. retIO spec) =
      (liftIO (bindE (check_cfg spec) (\<lambda>u. Inr spec)) :: (fs_effect, pyval) io)" for spec
    by (cases "check_cfg spec") (simp_all add: retIO_def liftIO_def)
  then show "read_cfg_spec w paths yaml = (case cfg_matches w paths yaml of
      [m] \<Rightarrow> bindIO (load_stream w m) (\<lambda>spec. liftIO (bindE (check_cfg spec) (\<lambda>u. Inr spec)))
    | _ \<Rightarrow> liftIO (Inl (SystemExit 2)))"
    by (simp add: read_cfg_spec_def split: list.split)
qed

definition cfg_value :: "pyval \<Rightarrow> string res" where
  "cfg_value v = (case v of VStr s \<Rightarrow> Inr (py_rstrip s) | _ \<Rightarrow> Inr [])"

interpretation cfg_printer: value_printer cfg_value
  by unfold_locales (auto simp: cfg_value_def split: pyval.splits)

text \<open>
  The file is opened before the items are read, so a specification without items leaves an
  empty file behind.
\<close>

definition emit_cfg_make ::
  "io_env \<Rightarrow> pyval \<Rightarrow> string option \<Rightarrow> string option \<Rightarrow> fs_effect list \<times> string res" where
  "emit_cfg_make env spec p out =
     (case py_items spec of
        Inr d \<Rightarrow> emit_vars env cfg_value d p out
      | Inl e \<Rightarrow> (let (es, r) = open_out env out
          in (case r of
                Inl e' \<Rightarrow> (es, Inl e')
              | Inr f \<Rightarrow> (es @ [CloseF f], Inl (if io_close env then e else OSError)))))"

definition cfgyaml2make :: "y2m_world \<Rightarrow> io_env \<Rightarrow> c2m_args \<Rightarrow> (fs_effect, string) io" where
  "cfgyaml2make w env args =
     (if \<not> given (ca_core args) \<or> \<not> given (ca_yaml args) then liftIO (Inl (SystemExit 2))
      else bindIO (read_cfg_spec w (core_paths (the (ca_core args)) CFG_PATHS) (the (ca_yaml args))) (\<lambda>spec.
           emit_cfg_make env spec (ca_prefix args) (ca_out args)))"

end
