(* ===== verification/MakeProps.thy ===== *)
theory MakeProps
  imports Cfgyaml2make
begin

text \<open>
  What the two make-variable generators guarantee: when reading a test specification
  succeeds and what it returns, that the file they print reads back as the specification,
  and that no failure leaves a file open or half-written.
\<close>

subsection \<open>Reading a test specification\<close>

text \<open>PyYAML's promise that is used: the keys of the mappings it returns are distinct.\<close>

definition loads_dicts :: "y2m_world \<Rightarrow> bool" where
  "loads_dicts w \<longleftrightarrow> (\<forall>body d. yw_load w body = Inr (VDict d) \<longrightarrow> dict_ok d)"

lemma loads_dictsD: "loads_dicts w \<Longrightarrow> yw_load w body = Inr (VDict d) \<Longrightarrow> dict_ok d"
  by (simp add: loads_dicts_def)

text \<open>The text of a value before the run index is put in.\<close>

definition plain_text :: "string \<Rightarrow> pyval \<Rightarrow> string" where
  "plain_text k v =
     (if k = ''disable_csr_check'' then (case join_plus v of Inr j \<Rightarrow> py_str j | Inl e \<Rightarrow> []) else py_str v)"

definition indexed :: "string \<Rightarrow> string \<Rightarrow> pyval \<Rightarrow> pyval" where
  "indexed run_index k v = VStr (replace_all ''<RUN_INDEX>'' run_index (plain_text k v))"

definition joinable :: "pyval dict \<Rightarrow> bool" where
  "joinable d \<longleftrightarrow> (case map_of d ''disable_csr_check'' of None \<Rightarrow> True | Some v \<Rightarrow> (\<exists>j. join_plus v = Inr j))"

lemma subst_value_eq:
  assumes "backslash \<notin> set ri" and "k = ''disable_csr_check'' \<Longrightarrow> \<exists>j. join_plus v = Inr j"
  shows "subst_value ri k v = Inr (indexed ri k v)"
  using assms by (auto simp: subst_value_def indexed_def plain_text_def re_sub_lit_plain)

lemma subst_value_joins:
  "subst_value ri ''disable_csr_check'' v = Inr x \<Longrightarrow> \<exists>j. join_plus v = Inr j"
  by (auto simp: subst_value_def bindE_eq_Inr)

lemma subst_values_eq:
  assumes "backslash \<notin> set ri" and "\<And>v. (''disable_csr_check'', v) \<in> set d \<Longrightarrow> \<exists>j. join_plus v = Inr j"
  shows "subst_values ri d = Inr (map (\<lambda>kv. (fst kv, indexed ri (fst kv) (snd kv))) d)"
  unfolding subst_values_def
proof (rule mapE_Inr)
  fix kv assume kv: "kv \<in> set d"
  have "subst_value ri (fst kv) (snd kv) = Inr (indexed ri (fst kv) (snd kv))"
    using assms kv by (intro subst_value_eq) (simp, metis prod.collapse)
  then show "bindE (subst_value ri (fst kv) (snd kv)) (\<lambda>v. Inr (fst kv, v)) =
      Inr (fst kv, indexed ri (fst kv) (snd kv))" by simp
qed

lemma subst_values_joins:
  "subst_values ri d = Inr d' \<Longrightarrow> (''disable_csr_check'', v) \<in> set d \<Longrightarrow> \<exists>j. join_plus v = Inr j"
  unfolding subst_values_def
  by (induction d arbitrary: d') (auto simp: bindE_eq_Inr intro: subst_value_joins)

lemma joinable_iff:
  "dict_ok d \<Longrightarrow> joinable d \<longleftrightarrow> (\<forall>v. (''disable_csr_check'', v) \<in> set d \<longrightarrow> (\<exists>j. join_plus v = Inr j))"
  by (auto simp: joinable_def dict_ok_def dict_keys_def split: option.splits dest: map_of_SomeD)
    (metis map_of_is_SomeI option.inject)

lemma dict_has_map: "dict_has k (map (\<lambda>kv. (fst kv, g (fst kv) (snd kv))) d) \<longleftrightarrow> dict_has k d"
  by (simp add: dict_has_def dict_keys_def comp_def)

lemma map_of_indexed:
  "map_of (map (\<lambda>kv. (fst kv, g (fst kv) (snd kv))) d) k = map_option (g k) (map_of d k)"
  by (induction d) auto

text \<open>Reading after a load that returned a mapping: a success or an exit with status 2.\<close>

lemma finish_spec_eq:
  assumes "backslash \<notin> set ri" and "dict_ok d" and "joinable d"
    and d1: "d1 = dict_set ''test_dir'' (VStr (dirname src)) d"
  shows "finish_spec ri src (VDict d) =
    (if list_all (\<lambda>k. dict_has k d) REQUIRED_KEYS
     then Inr (add_program (map (\<lambda>kv. (fst kv, indexed ri (fst kv) (snd kv))) d1))
     else Inl (SystemExit 2))"
proof -
  have ok: "dict_ok d1" unfolding d1 by (rule dict_ok_set[OF assms(2)])
  have "joinable d1" using assms(3) by (simp add: joinable_def d1)
  then have "subst_values ri d1 = Inr (map (\<lambda>kv. (fst kv, indexed ri (fst kv) (snd kv))) d1)"
    using assms(1) ok by (intro subst_values_eq) (auto simp: joinable_iff)
  moreover have "list_all (\<lambda>k. dict_has k d1) REQUIRED_KEYS = list_all (\<lambda>k. dict_has k d) REQUIRED_KEYS"
    by (simp add: REQUIRED_KEYS_def d1)
  ultimately show ?thesis
    by (simp add: finish_spec_def set_item_def check_required_def dict_has_map flip: d1)
qed

lemma read_test_spec_Inr:
  assumes "loads_dicts w" and "backslash \<notin> set ri"
    and "snd (read_test_spec w paths test type ri) = Inr spec"
  shows "\<exists>src body d. test_matches w paths test type = [src] \<and> yw_read w src = Some body
      \<and> yw_load w body = Inr (VDict d) \<and> list_all (\<lambda>k. dict_has k d) REQUIRED_KEYS \<and> joinable d"
proof -
  obtain src body v where f: "test_matches w paths test type = [src]" "yw_read w src = Some body"
    and l: "yw_load w body = Inr v" and fin: "finish_spec ri src v = Inr spec"
    using assms(3) by (auto simp: test_reader.result bindE_eq_Inr split: list.splits option.splits)
  from fin obtain d d' where v: "v = VDict d"
    and s: "subst_values ri (dict_set ''test_dir'' (VStr (dirname src)) d) = Inr d'"
    by (auto simp: finish_spec_def set_item_def bindE_eq_Inr split: pyval.splits)
  have ok: "dict_ok d" using loads_dictsD[OF assms(1)] l v by simp
  have "joinable (dict_set ''test_dir'' (VStr (dirname src)) d)"
    unfolding joinable_iff[OF dict_ok_set[OF ok]] using subst_values_joins[OF s] by blast
  then have j: "joinable d" by (simp add: joinable_def)
  have "list_all (\<lambda>k. dict_has k d) REQUIRED_KEYS"
    using fin[unfolded v finish_spec_eq[OF assms(2) ok j refl]] by (metis Inl_Inr_False)
  with f l v j show ?thesis by blast
qed






subsection \<open>A concrete run\<close>

definition ex_spec :: "pyval dict" where
  "ex_spec = [(''uvm_test'', VStr ''uvmt''), (''name'', VStr ''t_<RUN_INDEX>''), (''description'', VStr ''d''),
     (''disable_csr_check'', VList [VStr ''minstret'', VStr ''mcycle'']), (''num'', VInt 12)]"

definition ex_y2m :: y2m_world where
  "ex_y2m = \<lparr>yw_topdir = ''/dv'', yw_exists = (\<lambda>p. p = ''/dv/cv/tests/programs/custom/t/test.yaml''),
     yw_read = (\<lambda>p. Some []), yw_load = (\<lambda>b. Inr (VDict ex_spec))\<rparr>"

definition ex_io :: "bool \<Rightarrow> io_env" where
  "ex_io w = \<lparr>io_makedirs = (\<lambda>d. True), io_open = (\<lambda>p. True), io_temp = Some ''/tmp/x'',
     io_write = (\<lambda>n. w \<or> n = 0), io_close = True, io_exists = (\<lambda>p. True)\<rparr>"

definition ex_y2m_args :: y2m_args where
  "ex_y2m_args = \<lparr>ya_test = Some ''t'', ya_yaml = Some ''test.yaml'', ya_core = Some ''CV'',
     ya_prefix = Some ''test'', ya_run_index = ''3'', ya_out = Some ''o/t.mk''\<rparr>"

definition ex_cfg :: "pyval dict" where
  "ex_cfg = [(''name'', VStr ''c''), (''num'', VInt 5), (''description'', VStr ''d'')]"

definition ex_c2m :: y2m_world where
  "ex_c2m = \<lparr>yw_topdir = ''/dv'', yw_exists = (\<lambda>p. p = ''/dv/cv/tests/cfg/c.yaml''),
     yw_read = (\<lambda>p. Some []), yw_load = (\<lambda>b. Inr (VDict ex_cfg))\<rparr>"

definition ex_c2m_args :: c2m_args where
  "ex_c2m_args = \<lparr>ca_yaml = Some ''c.yaml'', ca_core = Some ''CV'', ca_prefix = Some ''cfg'', ca_out = None\<rparr>"

definition ex_paths :: "string list" where
  "ex_paths = core_paths ''CV'' TEST_PATHS"

lemma ex_loads: "loads_dicts ex_y2m"
  by (simp add: loads_dicts_def ex_y2m_def, code_simp)

lemma ex_plain: "backslash \<notin> set ''3''"
  by simp

definition ex_read :: "pyval dict" where
  "ex_read = [(''uvm_test'', VStr ''uvmt''), (''name'', VStr ''t_3''), (''description'', VStr ''d''),
     (''disable_csr_check'', VStr ''minstret+mcycle''), (''num'', VStr ''12''),
     (''test_dir'', VStr ''/dv/cv/tests/programs/custom/t''), (''program'', VStr ''t_3'')]"

lemma ex_reads: "snd (read_test_spec ex_y2m ex_paths ''t'' ''test.yaml'' ''3'') = Inr ex_read"
  by code_simp

text \<open>
  C18: for a run index without backslashes, reading a test specification succeeds exactly
  when one file matches, it can be read, it holds a mapping, the three required keys are in
  it, and the value of \<^verbatim>\<open>disable_csr_check\<close>, if any, can be joined.  PyYAML's promise
  that is used: the keys of a mapping are distinct.
\<close>

theorem y2m_read_succeeds_iff:
  assumes "loads_dicts w" and "backslash \<notin> set ri"
  shows "(\<exists>spec. snd (read_test_spec w paths test type ri) = Inr spec) \<longleftrightarrow>
    (\<exists>src body d. test_matches w paths test type = [src] \<and> yw_read w src = Some body
      \<and> yw_load w body = Inr (VDict d) \<and> list_all (\<lambda>k. dict_has k d) REQUIRED_KEYS \<and> joinable d)"
    (is "?L \<longleftrightarrow> ?R")
proof
  assume ?L
  then show ?R using read_test_spec_Inr[OF assms] by blast
next
  assume ?R
  then obtain src body d where f: "test_matches w paths test type = [src]" "yw_read w src = Some body"
    "yw_load w body = Inr (VDict d)" and d: "list_all (\<lambda>k. dict_has k d) REQUIRED_KEYS" "joinable d" by blast
  show ?L using f d finish_spec_eq[OF assms(2) loads_dictsD[OF assms(1) f(3)] d(2) refl]
    by (simp add: test_reader.result)
qed

theorem y2m_read_succeeds_iff_witness:
  "(\<exists>spec. snd (read_test_spec ex_y2m ex_paths ''t'' ''test.yaml'' ''3'') = Inr spec) \<and>
   (\<exists>src body d. test_matches ex_y2m ex_paths ''t'' ''test.yaml'' = [src] \<and> yw_read ex_y2m src = Some body
      \<and> yw_load ex_y2m body = Inr (VDict d) \<and> list_all (\<lambda>k. dict_has k d) REQUIRED_KEYS \<and> joinable d)"
  using y2m_read_succeeds_iff[OF ex_loads ex_plain, of ex_paths "''t''" "''test.yaml''"] ex_reads
  by metis

text \<open>
  C17: what a test specification holds after reading: the keys of the YAML, the directory of
  the file and a program name that defaults to the test's name; every value is the text of
  the YAML value with the run index put in place of its marker.
\<close>

theorem y2m_spec_values:
  assumes "loads_dicts w" and "backslash \<notin> set ri"
    and "snd (read_test_spec w paths test type ri) = Inr spec"
  shows "\<exists>src body d. test_matches w paths test type = [src] \<and> yw_read w src = Some body
    \<and> yw_load w body = Inr (VDict d)
    \<and> (\<forall>k. map_of spec k =
        (if k = ''test_dir'' then Some (indexed ri k (VStr (dirname src)))
         else if k = ''program'' \<and> \<not> dict_has k d then map_option (indexed ri ''name'') (map_of d ''name'')
         else map_option (indexed ri k) (map_of d k)))"
proof -
  obtain src body d where f: "test_matches w paths test type = [src]" "yw_read w src = Some body"
    and l: "yw_load w body = Inr (VDict d)" and req: "list_all (\<lambda>k. dict_has k d) REQUIRED_KEYS"
    and j: "joinable d"
    using read_test_spec_Inr[OF assms] by blast
  let ?d1 = "dict_set ''test_dir'' (VStr (dirname src)) d"
  let ?s = "map (\<lambda>kv. (fst kv, indexed ri (fst kv) (snd kv))) ?d1"
  have "finish_spec ri src (VDict d) = Inr (add_program ?s)"
    using finish_spec_eq[OF assms(2) loads_dictsD[OF assms(1) l] j refl] req by simp
  then have spec: "spec = add_program ?s" using assms(3) f l by (simp add: test_reader.result)
  obtain n where "map_of d ''name'' = Some n"
    using req by (auto simp: REQUIRED_KEYS_def dict_has_map_of)
  then have "\<forall>k. map_of spec k =
        (if k = ''test_dir'' then Some (indexed ri k (VStr (dirname src)))
         else if k = ''program'' \<and> \<not> dict_has k d then map_option (indexed ri ''name'') (map_of d ''name'')
         else map_option (indexed ri k) (map_of d k))"
    by (auto simp: spec add_program_def map_of_indexed dict_has_map dict_has_map_of)
  with f l show ?thesis by blast
qed

theorem y2m_spec_values_witness:
  "map_of ex_read ''program'' = Some (VStr ''t_3'')
   \<and> map_of ex_read ''disable_csr_check'' = Some (VStr ''minstret+mcycle'')"
proof -
  obtain src body d where d: "yw_load ex_y2m body = Inr (VDict d)"
    and v: "\<forall>k. map_of ex_read k =
        (if k = ''test_dir'' then Some (indexed ''3'' k (VStr (dirname src)))
         else if k = ''program'' \<and> \<not> dict_has k d then map_option (indexed ''3'' ''name'') (map_of d ''name'')
         else map_option (indexed ''3'' k) (map_of d k))"
    using y2m_spec_values[OF ex_loads ex_plain ex_reads] by blast
  have "d = ex_spec" using d by (simp add: ex_y2m_def)
  moreover have "\<not> dict_has ''program'' ex_spec" by code_simp
  moreover have "map_option (indexed ''3'' ''name'') (map_of ex_spec ''name'') = Some (VStr ''t_3'')" by code_simp
  moreover have "map_option (indexed ''3'' ''disable_csr_check'') (map_of ex_spec ''disable_csr_check'')
      = Some (VStr ''minstret+mcycle'')" by code_simp
  ultimately show ?thesis using v by simp
qed

subsection \<open>The file that is printed\<close>

text \<open>
  C5: the file whose name \<^verbatim>\<open>yaml2make\<close> prints reads back as the specification: one
  variable per key, sorted by key, named by the upper-case key under the prefix, with the
  value's text.  Names may hold no equals sign and nothing may hold a line break.
\<close>

theorem y2m_file_reads_back:
  assumes "yaml2make w env args = (es, Inr f)" and "prefix_ok (ya_prefix args)"
  shows "\<exists>spec. snd (read_test_spec w (core_paths (the (ya_core args)) TEST_PATHS) (the (ya_test args))
        (the (ya_yaml args)) (ya_run_index args)) = Inr spec
    \<and> (list_all (\<lambda>kv. name_ok (fst kv) \<and> nl \<notin> set (py_rstrip (py_str (snd kv)))) spec \<longrightarrow>
       read_vars (file_text f es) =
         map (\<lambda>kv. (prefix_text (ya_prefix args) @ py_upper (fst kv), py_rstrip (py_str (snd kv))))
           (sort_key fst spec))"
proof -
  obtain spec fs where r: "snd (read_test_spec w (core_paths (the (ya_core args)) TEST_PATHS) (the (ya_test args))
      (the (ya_yaml args)) (ya_run_index args)) = Inr spec"
    and e: "emit_vars env test_value spec (ya_prefix args) (ya_out args) = (fs, Inr f)"
    and same: "file_text f es = file_text f fs"
    using assms(1) test_reader.script_text[where f = f]
    by (fastforce simp: yaml2make_def emit_test_make_def liftIO_def split: if_splits)
  have "\<exists>s. test_value (snd kv) = Inr s" if "kv \<in> set spec" for kv
    using test_printer.emit_text[OF e] that by (simp add: list_all_iff sorted_items_set)
  then have p: "test_printer.printed (snd kv) = py_rstrip (py_str (snd kv))" if "kv \<in> set spec" for kv
    using that by (fastforce simp: test_printer.printed_def test_value_def py_str_def split: pyval.splits)
  show ?thesis
    using r same test_printer.emit_reads_back[OF e assms(2)] p
    by (simp add: list_all_iff sorted_items_def cong: map_cong)
qed

theorem y2m_file_reads_back_witness:
  "\<exists>es f. yaml2make ex_y2m (ex_io True) ex_y2m_args = (es, Inr f)
     \<and> map_of (read_vars (file_text f es)) ''TEST_NAME'' = Some ''t_3''"
proof -
  have "is_ok (snd (yaml2make ex_y2m (ex_io True) ex_y2m_args))" by code_simp
  then obtain es f where y: "yaml2make ex_y2m (ex_io True) ex_y2m_args = (es, Inr f)"
    by (metis is_ok_Inr prod.collapse)
  have "prefix_ok (ya_prefix ex_y2m_args)" by code_simp
  then obtain spec where "snd (read_test_spec ex_y2m (core_paths (the (ya_core ex_y2m_args)) TEST_PATHS) (the (ya_test ex_y2m_args))
        (the (ya_yaml ex_y2m_args)) (ya_run_index ex_y2m_args)) = Inr spec"
    and v: "list_all (\<lambda>kv. name_ok (fst kv) \<and> nl \<notin> set (py_rstrip (py_str (snd kv)))) spec \<longrightarrow>
       read_vars (file_text f es) =
         map (\<lambda>kv. (prefix_text (ya_prefix ex_y2m_args) @ py_upper (fst kv), py_rstrip (py_str (snd kv))))
           (sort_key fst spec)"
    using y2m_file_reads_back[OF y] by blast
  then have spec: "spec = ex_read" using ex_reads by (simp add: ex_y2m_args_def ex_paths_def)
  have "list_all (\<lambda>kv. name_ok (fst kv) \<and> nl \<notin> set (py_rstrip (py_str (snd kv)))) ex_read" by code_simp
  with v spec have r: "read_vars (file_text f es) =
         map (\<lambda>kv. (prefix_text (ya_prefix ex_y2m_args) @ py_upper (fst kv), py_rstrip (py_str (snd kv))))
           (sort_key fst ex_read)" by simp
  have "map_of (map (\<lambda>kv. (prefix_text (ya_prefix ex_y2m_args) @ py_upper (fst kv), py_rstrip (py_str (snd kv))))
           (sort_key fst ex_read)) ''TEST_NAME'' = Some ''t_3''" by code_simp
  with r y show ?thesis by simp
qed

text \<open>
  C40: the configuration emitter prints every key of the mapping, but the value only when it
  is a string: a number, a truth value or a list is printed as an empty value, as the absent
  value is.
\<close>

theorem c2m_file_reads_back:
  assumes "cfgyaml2make w env args = (es, Inr f)" and "prefix_ok (ca_prefix args)"
  shows "\<exists>d. snd (read_cfg_spec w (core_paths (the (ca_core args)) CFG_PATHS) (the (ca_yaml args))) = Inr (VDict d)
    \<and> (list_all (\<lambda>kv. name_ok (fst kv) \<and> nl \<notin> set (py_rstrip (py_str (snd kv)))) d \<longrightarrow>
       read_vars (file_text f es) =
         map (\<lambda>kv. (prefix_text (ca_prefix args) @ py_upper (fst kv),
                    case snd kv of VStr s \<Rightarrow> py_rstrip s | _ \<Rightarrow> [])) (sort_key fst d))"
proof -
  obtain v fs where r: "snd (read_cfg_spec w (core_paths (the (ca_core args)) CFG_PATHS) (the (ca_yaml args))) = Inr v"
    and em: "emit_cfg_make env v (ca_prefix args) (ca_out args) = (fs, Inr f)"
    and same: "file_text f es = file_text f fs"
    using assms(1) cfg_reader.script_text[where f = f]
    by (fastforce simp: cfgyaml2make_def liftIO_def split: if_splits)
  from em obtain d where v: "v = VDict d" and e: "emit_vars env cfg_value d (ca_prefix args) (ca_out args) = (fs, Inr f)"
    by (cases v) (auto simp: emit_cfg_make_def split: prod.splits sum.splits)
  have p: "cfg_printer.printed (snd kv) = (case snd kv of VStr s \<Rightarrow> py_rstrip s | _ \<Rightarrow> [])" for kv :: "string \<times> pyval"
    by (simp add: cfg_printer.printed_def cfg_value_def split: pyval.splits)
  have n: "nl \<notin> set (cfg_printer.printed (snd kv))" if "nl \<notin> set (py_rstrip (py_str (snd kv)))" for kv :: "string \<times> pyval"
    using that by (simp add: p py_str_def split: pyval.splits)
  show ?thesis
  proof (intro exI conjI impI)
    show "snd (read_cfg_spec w (core_paths (the (ca_core args)) CFG_PATHS) (the (ca_yaml args))) = Inr (VDict d)"
      using r v by simp
    assume "list_all (\<lambda>kv. name_ok (fst kv) \<and> nl \<notin> set (py_rstrip (py_str (snd kv)))) d"
    then have "list_all (\<lambda>kv. name_ok (fst kv) \<and> nl \<notin> set (cfg_printer.printed (snd kv))) d"
      using n by (simp add: list_all_iff)
    from cfg_printer.emit_reads_back[OF e assms(2) this]
    show "read_vars (file_text f es) =
      map (\<lambda>kv. (prefix_text (ca_prefix args) @ py_upper (fst kv),
                  case snd kv of VStr s \<Rightarrow> py_rstrip s | _ \<Rightarrow> [])) (sort_key fst d)"
      by (simp add: sorted_items_def p same)
  qed
qed

theorem c2m_file_reads_back_witness:
  "\<exists>es f. cfgyaml2make ex_c2m (ex_io True) ex_c2m_args = (es, Inr f)
     \<and> read_vars (file_text f es) = [(''CFG_DESCRIPTION'', ''d''), (''CFG_NAME'', ''c''), (''CFG_NUM'', [])]"
proof -
  have "is_ok (snd (cfgyaml2make ex_c2m (ex_io True) ex_c2m_args))" by code_simp
  then obtain es f where y: "cfgyaml2make ex_c2m (ex_io True) ex_c2m_args = (es, Inr f)"
    by (metis is_ok_Inr prod.collapse)
  have "prefix_ok (ca_prefix ex_c2m_args)" by code_simp
  then obtain d where d: "snd (read_cfg_spec ex_c2m (core_paths (the (ca_core ex_c2m_args)) CFG_PATHS) (the (ca_yaml ex_c2m_args))) = Inr (VDict d)"
    and v: "list_all (\<lambda>kv. name_ok (fst kv) \<and> nl \<notin> set (py_rstrip (py_str (snd kv)))) d \<longrightarrow>
       read_vars (file_text f es) =
         map (\<lambda>kv. (prefix_text (ca_prefix ex_c2m_args) @ py_upper (fst kv),
                    case snd kv of VStr s \<Rightarrow> py_rstrip s | _ \<Rightarrow> [])) (sort_key fst d)"
    using c2m_file_reads_back[OF y] by blast
  have "snd (read_cfg_spec ex_c2m (core_paths (the (ca_core ex_c2m_args)) CFG_PATHS) (the (ca_yaml ex_c2m_args)))
      = Inr (VDict ex_cfg)" by code_simp
  then have d: "d = ex_cfg" using d by simp
  have "list_all (\<lambda>kv. name_ok (fst kv) \<and> nl \<notin> set (py_rstrip (py_str (snd kv)))) ex_cfg" by code_simp
  moreover have "map (\<lambda>kv. (prefix_text (ca_prefix ex_c2m_args) @ py_upper (fst kv),
                    case snd kv of VStr s \<Rightarrow> py_rstrip s | _ \<Rightarrow> [])) (sort_key fst ex_cfg)
      = [(''CFG_DESCRIPTION'', ''d''), (''CFG_NAME'', ''c''), (''CFG_NUM'', [])]" by code_simp
  ultimately show ?thesis using y v d by simp
qed

text \<open>
  C19: the only file that can stay open is the specification.  Whichever call of the file
  system fails, neither generator leaves its output or temporary file open; the one matching
  specification file stays open exactly when PyYAML raises on its content, as it is closed only
  after the loading.
\<close>

theorem make_files_closed:
  "left_open (fst (yaml2make w env args)) =
     (if given (ya_core args) \<and> given (ya_yaml args) \<and> given (ya_test args)
      then unloaded w (test_matches w (core_paths (the (ya_core args)) TEST_PATHS) (the (ya_test args)) (the (ya_yaml args)))
      else [])
   \<and> left_open (fst (cfgyaml2make w env cargs)) =
     (if given (ca_core cargs) \<and> given (ca_yaml cargs)
      then unloaded w (cfg_matches w (core_paths (the (ca_core cargs)) CFG_PATHS) (the (ca_yaml cargs)))
      else [])"
proof
  have no: "left_open [] = []" by (simp add: left_open_def)
  have t: "left_open (fst (emit_vars env test_value spec p out)) = []" for spec p out
    by (metis test_printer.emit_left_open prod.collapse)
  have c: "left_open (fst (emit_vars env cfg_value spec p out)) = []" for spec p out
    by (metis cfg_printer.emit_left_open prod.collapse)
  have cfg: "left_open (fst (emit_cfg_make env v p out)) = []" for v p out
  proof (cases "py_items v")
    case (Inl e)
    obtain es r where o: "open_out env out = (es, r)" by fastforce
    show ?thesis using open_out_open[OF o] Inl o
      by (cases r) (simp_all add: emit_cfg_make_def left_open_def open_step_def)
  qed (simp add: emit_cfg_make_def c)
  show "left_open (fst (yaml2make w env args)) =
     (if given (ya_core args) \<and> given (ya_yaml args) \<and> given (ya_test args)
      then unloaded w (test_matches w (core_paths (the (ya_core args)) TEST_PATHS) (the (ya_test args)) (the (ya_yaml args)))
      else [])"
    by (simp add: yaml2make_def emit_test_make_def test_reader.script_left_open t no)
  show "left_open (fst (cfgyaml2make w env cargs)) =
     (if given (ca_core cargs) \<and> given (ca_yaml cargs)
      then unloaded w (cfg_matches w (core_paths (the (ca_core cargs)) CFG_PATHS) (the (ca_yaml cargs)))
      else [])"
    by (simp add: cfgyaml2make_def cfg_reader.script_left_open cfg no)
qed



end
