(* ===== verification/Riscof.thy ===== *)
theory Riscof
  imports PyIO
begin

text \<open>
  Ground shared by the three RISCOF plugins under \<^verbatim>\<open>sim/riscof\<close>: configuration
  sections, the ISA part of the hart specification, the entries of the test list, and the calls
  to RISCOF's make utility.  RISCOF itself, the shell and the tools are outside; what a plugin
  asks of them is the list of its effects.
\<close>

subsection \<open>Configuration and specification\<close>

text \<open>A configuration section answers a key with its text or not at all.\<close>

type_synonym config = "string \<Rightarrow> string option"

definition cfg_get :: "config \<Rightarrow> string \<Rightarrow> string res" where
  "cfg_get cfg k = (case cfg k of None \<Rightarrow> Inl (KeyError k) | Some v \<Rightarrow> Inr v)"

definition cfg_or :: "config \<Rightarrow> string \<Rightarrow> string \<Rightarrow> string" where
  "cfg_or cfg k d = (case cfg k of None \<Rightarrow> d | Some v \<Rightarrow> v)"

text \<open>\<^verbatim>\<open>n in v\<close> for an integer: floats that print as the same number are equal to it.\<close>

fun int_in :: "int \<Rightarrow> pyval \<Rightarrow> bool res" where
  "int_in n (VList xs) = Inr (VInt n \<in> set xs \<or> VFloat (show_int n @ ''.0'') \<in> set xs)"
| "int_in n (VDict d) = Inr False"
| "int_in n _ = Inl TypeError"

definition has_xlen64 :: "pyval \<Rightarrow> bool res" where
  "has_xlen64 ispec = bindE (py_getitem ispec ''supported_xlen'') (int_in 64)"

definition xlen_of :: "bool \<Rightarrow> string" where
  "xlen_of b = (if b then ''64'' else ''32'')"

definition mabi_of :: "bool \<Rightarrow> string" where
  "mabi_of b = '' -mabi='' @ (if b then ''lp64 '' else ''ilp32 '')"

text \<open>
  The chain of \<^verbatim>\<open>if\<close>s that builds the architecture string: a name to look for in the
  ISA and the text to append, in the order of the code.
\<close>

definition append_ext :: "pyval \<Rightarrow> string \<Rightarrow> string \<times> string \<Rightarrow> string res" where
  "append_ext ispec acc e =
     bindE (bindE (py_getitem ispec ''ISA'') (py_in (fst e))) (\<lambda>b. Inr (if b then acc @ snd e else acc))"

definition isa_string :: "(string \<times> string) list \<Rightarrow> string \<Rightarrow> pyval \<Rightarrow> string res" where
  "isa_string exts xlen ispec = foldE (append_ext ispec) (''rv'' @ xlen) exts"

definition z_exts :: "(string \<times> string) list" where
  "z_exts = [(''Zicsr'', ''_zicsr''), (''Zifencei'', ''_zifencei''), (''Zicond'', ''_zicond''),
     (''Zba'', ''_zba''), (''Zbb'', ''_zbb''), (''Zbc'', ''_zbc''), (''Zbs'', ''_zbs'')]"

definition isa_exts :: "(string \<times> string) list" where
  "isa_exts = [(''I'', ''i''), (''M'', ''m''), (''A'', ''a''), (''F'', ''f''), (''D'', ''d''), (''C'', ''c'')] @ z_exts"

text \<open>What a plugin's \<^verbatim>\<open>initialise\<close> and \<^verbatim>\<open>build\<close> leave in the object.\<close>

record session =
  se_work_dir :: string
  se_suite :: string
  se_compile_cmd :: string

record built =
  bu_xlen :: string
  bu_isa :: string
  bu_compile_cmd :: string

subsection \<open>Tests and effects\<close>

record test_entry =
  te_path :: string
  te_work_dir :: string
  te_macros :: "string list"
  te_labels :: "string list"

datatype run_effect =
    RemoveFile string
  | MkDir string
  | CopyTree string string
  | CopyFile string string
  | NewMake string
  | SetCommand string string
  | AddTarget string string "string option"
  | ExecuteAll string string "nat option"

definition macro_flags :: "test_entry \<Rightarrow> string" where
  "macro_flags t = '' -D'' @ py_join '' -D'' (te_macros t)"

text \<open>The name of a test: the last component of its path without its last two characters.\<close>

definition test_name_of :: "test_entry \<Rightarrow> string res" where
  "test_name_of t = bindE (after_slash (te_path t)) (\<lambda>b. Inr (drop_last 2 b))"

text \<open>The targets added to a makefile, in order.\<close>

fun targets :: "string \<Rightarrow> run_effect list \<Rightarrow> (string \<times> string option) list" where
  "targets mk [] = []"
| "targets mk (AddTarget f c n # es) = (if f = mk then (c, n) # targets mk es else targets mk es)"
| "targets mk (e # es) = targets mk es"

fun executes :: "run_effect list \<Rightarrow> (string \<times> string) list" where
  "executes [] = []"
| "executes (ExecuteAll f d t # es) = (f, d) # executes es"
| "executes (e # es) = executes es"

lemma targets_append [simp]: "targets mk (es @ fs) = targets mk es @ targets mk fs"
  by (induction mk es rule: targets.induct) auto

lemma executes_append [simp]: "executes (es @ fs) = executes es @ executes fs"
  by (induction es rule: executes.induct) auto

lemma targets_concat: "targets mk (concat ess) = concat (map (targets mk) ess)"
  by (induction ess) simp_all

lemma executes_concat: "executes (concat ess) = concat (map executes ess)"
  by (induction ess) simp_all

text \<open>A target has the name of a test.\<close>

definition named_for :: "string \<times> string option \<Rightarrow> test_entry \<Rightarrow> bool" where
  "named_for p t \<longleftrightarrow> (\<exists>n. snd p = Some n \<and> test_name_of t = Inr n)"

subsection \<open>The contract of a plugin's loop\<close>

text \<open>
  What the loops over the test list rely on: the round of a test, when it returns, adds one
  target to the makefile, which is right for the test, and runs nothing.
\<close>

locale test_loop =
  fixes round :: "test_entry \<Rightarrow> (run_effect, unit) io"
    and makefile :: string
    and target_for :: "string \<times> string option \<Rightarrow> test_entry \<Rightarrow> bool"
  assumes one_target: "round t = (es, Inr u) \<Longrightarrow> \<exists>p. targets makefile es = [p] \<and> target_for p t"
    and runs_nothing: "round t = (es, r) \<Longrightarrow> executes es = []"
begin

lemma loop_targets:
  "forIO (\<lambda>t. round (snd t)) ts = (es, Inr u) \<Longrightarrow> list_all2 (\<lambda>p t. target_for p (snd t)) (targets makefile es) ts"
proof (induction ts arbitrary: es)
  case (Cons t ts)
  then obtain as bs v where a: "round (snd t) = (as, Inr v)"
    and b: "forIO (\<lambda>t. round (snd t)) ts = (bs, Inr u)" and es: "es = as @ bs"
    by (auto simp: bindIO_eq_Inr)
  show ?case using one_target[OF a] Cons.IH[OF b] es by auto
qed (simp add: retIO_def)

lemma loop_runs_nothing: "forIO (\<lambda>t. round (snd t)) ts = (es, r) \<Longrightarrow> executes es = []"
proof (induction ts arbitrary: es r)
  case (Cons t ts)
  obtain as r1 where a: "round (snd t) = (as, r1)" by fastforce
  obtain bs r2 where b: "forIO (\<lambda>t. round (snd t)) ts = (bs, r2)" by fastforce
  show ?case using Cons.prems runs_nothing[OF a] Cons.IH[OF b] a b
    by (auto simp: bindIO_def split: sum.splits)
qed (simp add: retIO_def)

end

end
