(* ===== verification/RiscofCv.thy ===== *)
theory RiscofCv
  imports Riscof
begin

text \<open>
  \<^verbatim>\<open>sim/riscof/cv32e40x/riscof_cv32e40x.py\<close>, the plugin of the device under test: one
  make target per test that compiles it, derives the files the simulation reads and runs the
  simulation.  The name is the one RISCOF's base class gave the object.
\<close>

record cv_conf =
  cv_name :: string
  cv_dut_exe :: string
  cv_num_jobs :: string
  cv_pluginpath :: string
  cv_isa_spec :: string
  cv_platform_spec :: string
  cv_tbpath :: string
  cv_imperas_iss :: string
  cv_dut_cfg :: string
  cv_toolchain :: string
  cv_sim_cov :: string
  cv_target_run :: bool
  cv_simulator :: string

definition supported_simulators :: "string list" where
  "supported_simulators = [''vsim'', ''xrun'', ''vcs'']"

definition cv_init :: "string \<Rightarrow> config \<Rightarrow> string \<Rightarrow> config option \<Rightarrow> cv_conf res" where
  "cv_init cwd environ name config =
     (case config of None \<Rightarrow> Inl (SystemExit 1) | Some cfg \<Rightarrow>
       bindE (cfg_get cfg ''pluginpath'') (\<lambda>plugin.
       bindE (cfg_get cfg ''ispec'') (\<lambda>ispec.
       bindE (cfg_get cfg ''pspec'') (\<lambda>pspec.
       bindE (cfg_get cfg ''corevverifPATH'') (\<lambda>tb.
       bindE (cfg_get environ ''CV_SIMULATOR'') (\<lambda>sim.
         if sim \<in> set supported_simulators
         then Inr \<lparr>cv_name = name, cv_dut_exe = cfg_or cfg ''PATH'' ''riscof'',
                cv_num_jobs = cfg_or cfg ''jobs'' ''1'', cv_pluginpath = abspath cwd plugin,
                cv_isa_spec = abspath cwd ispec, cv_platform_spec = abspath cwd pspec,
                cv_tbpath = abspath cwd tb,
                cv_imperas_iss = (if cfg ''imperas_iss'' = Some ''yes'' then ''yes'' else ''no''),
                cv_dut_cfg = cfg_or cfg ''dut_cfg'' ''default'',
                cv_toolchain = cfg_or cfg ''sw_toolchain_prefix'' ''unknown'',
                cv_sim_cov = (if cfg ''enable_sim_cov'' = Some ''yes'' then ''yes'' else ''no''),
                cv_target_run = (cfg ''target_run'' \<noteq> Some ''0''), cv_simulator = sim\<rparr>
         else Inl (SystemExit 1)))))))"

definition cv_initialise :: "cv_conf \<Rightarrow> string \<Rightarrow> string \<Rightarrow> string \<Rightarrow> session" where
  "cv_initialise c suite work_dir archtest_env =
     \<lparr>se_work_dir = work_dir, se_suite = suite,
      se_compile_cmd = ''riscv{1}-{2}-elf-gcc -march={0}           -static -mcmodel=medany -fvisibility=hidden -nostdlib -nostartfiles           -T ''
        @ cv_pluginpath c @ ''/env/link.ld          -I '' @ cv_pluginpath c @ ''/env/          -I ''
        @ archtest_env @ '' {3} -o {4} {5}''\<rparr>"

definition cv_build :: "(string \<Rightarrow> pyval res) \<Rightarrow> session \<Rightarrow> string \<Rightarrow> built res" where
  "cv_build load_yaml s isa_yaml =
     bindE (bindE (load_yaml isa_yaml) (\<lambda>y. py_getitem y ''hart0'')) (\<lambda>ispec.
     bindE (has_xlen64 ispec) (\<lambda>b64.
     bindE (isa_string isa_exts (xlen_of b64) ispec) (\<lambda>isa.
       Inr \<lparr>bu_xlen = xlen_of b64, bu_isa = isa, bu_compile_cmd = se_compile_cmd s @ mabi_of b64\<rparr>)))"

definition cv_makefile :: "cv_conf \<Rightarrow> session \<Rightarrow> string" where
  "cv_makefile c s = path_join2 (se_work_dir s) (''Makefile.'' @ drop_last 1 (cv_name c))"

text \<open>A binutils command: the tool's name with its prefix, and its arguments.\<close>

definition cv_tool :: "cv_conf \<Rightarrow> built \<Rightarrow> string \<Rightarrow> string" where
  "cv_tool c b args = ''riscv'' @ bu_xlen b @ ''-'' @ cv_toolchain c @ ''-elf-'' @ args"

definition cv_sim_cmd :: "cv_conf \<Rightarrow> test_entry \<Rightarrow> string \<Rightarrow> string" where
  "cv_sim_cmd c t test_name =
     (if cv_simulator c \<in> set supported_simulators
      then ''make riscof_sim_run TEST='' @ test_name @ '' USE_ISS='' @ cv_imperas_iss c
        @ '' RISCOF_TEST_RUN_DIR='' @ te_work_dir t @ '' CFG='' @ cv_dut_cfg c
        @ '' COV='' @ cv_sim_cov c @ '' SEED=random''
      else [])"

definition cv_clean_cmd :: "cv_conf \<Rightarrow> test_entry \<Rightarrow> string" where
  "cv_clean_cmd c t =
     (if cv_simulator c = ''vsim'' then ''rm -rf '' @ te_work_dir t @ ''/work/''
      else if cv_simulator c = ''xrun'' then ''rm -rf '' @ te_work_dir t @ ''/xcelium.d/''
      else if cv_simulator c = ''vcs'' then ''rm -rf '' @ te_work_dir t @ ''/simv.daidir/''
      else [])"

definition cv_itb_cmd :: "cv_conf \<Rightarrow> built \<Rightarrow> string \<Rightarrow> string \<Rightarrow> string res" where
  "cv_itb_cmd c b elf test_name =
     py_format (''riscv{0}-{1}-elf-objdump -d -S -M no-aliases -l {2} | '' @ cv_tbpath c @ ''/bin/objdump2itb - > {3}.itb'')
       [bu_xlen b, cv_toolchain c, elf, test_name]"

text \<open>The make target of one test, and the name it gets.\<close>

definition cv_execute :: "cv_conf \<Rightarrow> built \<Rightarrow> test_entry \<Rightarrow> (string \<times> string) res" where
  "cv_execute c b t =
     bindE (test_name_of t) (\<lambda>test_name.
     let elf = test_name @ ''.elf'' in
     bindE (py_format (bu_compile_cmd b)
        [bu_isa b, bu_xlen b, cv_toolchain c, te_path t, elf, macro_flags t]) (\<lambda>compile.
     bindE (cv_itb_cmd c b elf test_name) (\<lambda>itb.
       Inr (''@cd '' @ py_join ''; ''
         [te_work_dir t, compile,
          cv_tool c b (''objcopy -O verilog '' @ elf @ '' '' @ test_name @ ''.hex''),
          cv_tool c b (''readelf -a '' @ elf @ '' > '' @ test_name @ ''.readelf''),
          cv_tool c b (''objdump -D -M no-aliases -S '' @ elf @ '' > '' @ test_name @ ''.objdump''),
          itb, ''cd '' @ cv_tbpath c @ ''/cv32e40x/sim/'' @ cv_dut_exe c,
          cv_sim_cmd c t test_name, cv_clean_cmd c t], test_name))))"

definition cv_target :: "cv_conf \<Rightarrow> session \<Rightarrow> built \<Rightarrow> test_entry \<Rightarrow> (run_effect, unit) io" where
  "cv_target c s b t =
     bindIO (liftIO (cv_execute c b t)) (\<lambda>(cmd, name). doIO (AddTarget (cv_makefile c s) cmd (Some name)))"

text \<open>
  \<^verbatim>\<open>runTests\<close>.  The timeout is an attribute that the loop sets; with an empty test list
  it is what the base class has, if anything.
\<close>

definition cv_run_tests ::
  "(string \<Rightarrow> bool) \<Rightarrow> nat option \<Rightarrow> cv_conf \<Rightarrow> session \<Rightarrow> built \<Rightarrow> (string \<times> test_entry) list
    \<Rightarrow> (run_effect, unit) io" where
  "cv_run_tests exists base_timeout c s b tests =
     (let old = se_work_dir s @ ''/Makefile.'' @ drop_last 1 (cv_name c); mk = cv_makefile c s in
      bindIO (if exists old then doIO (RemoveFile old) else retIO ()) (\<lambda>u.
      bindIO (doIO (NewMake mk)) (\<lambda>u.
      bindIO (doIO (SetCommand mk (''make -j'' @ cv_num_jobs c))) (\<lambda>u.
      bindIO (forIO (\<lambda>t. cv_target c s b (snd t)) tests) (\<lambda>u.
      if cv_target_run c
      then (case (if tests = [] then base_timeout else Some 20000) of
              None \<Rightarrow> liftIO (Inl (AttributeError ''timeout''))
            | Some n \<Rightarrow> doIO (ExecuteAll mk (se_work_dir s) (Some n)))
      else retIO ())))))"

text \<open>The target of a test has its name and its command.\<close>

definition cv_target_for :: "cv_conf \<Rightarrow> built \<Rightarrow> string \<times> string option \<Rightarrow> test_entry \<Rightarrow> bool" where
  "cv_target_for c b p t \<longleftrightarrow>
     (\<exists>n. snd p = Some n \<and> test_name_of t = Inr n \<and> cv_execute c b t = Inr (fst p, n))"

lemma cv_execute_name: "cv_execute c b t = Inr (cmd, n) \<Longrightarrow> test_name_of t = Inr n"
  by (auto simp: cv_execute_def Let_def bindE_eq_Inr)

interpretation cv_loop: test_loop "cv_target c s b" "cv_makefile c s" "cv_target_for c b"
  for c s b
proof unfold_locales
  fix t es u
  show "cv_target c s b t = (es, Inr u) \<Longrightarrow> \<exists>p. targets (cv_makefile c s) es = [p] \<and> cv_target_for c b p t"
    using cv_execute_name
    by (fastforce simp: cv_target_def cv_target_for_def bindIO_eq_Inr liftIO_def doIO_def)
  fix r
  show "cv_target c s b t = (es, r) \<Longrightarrow> executes es = []"
    by (auto simp: cv_target_def bindIO_def doIO_def split: sum.splits prod.splits)
qed

end
