(* ===== verification/RiscofSail.thy ===== *)
theory RiscofSail
  imports Riscof
begin

text \<open>
  \<^verbatim>\<open>sim/riscof/sail_cSim/riscof_sail_cSim.py\<close>, the plugin of the Sail reference model,
  with its two ways of running: tools on the path, or a docker container whose makefile calls
  the first one.  The tools on the path and the success of file operations are arguments.
\<close>

record sail_conf =
  sa_name :: string
  sa_num_jobs :: string
  sa_docker :: bool
  sa_docker_img :: string
  sa_pluginpath :: string
  sa_path :: string
  sa_isa_spec :: string
  sa_platform_spec :: string
  sa_make :: string
  sa_toolchain :: string
  sa_target_run :: bool

definition sail_init :: "string \<Rightarrow> string \<Rightarrow> config option \<Rightarrow> sail_conf res" where
  "sail_init cwd name config =
     (case config of None \<Rightarrow> Inl (SystemExit 1) | Some cfg \<Rightarrow>
       bindE (cfg_get cfg ''pluginpath'') (\<lambda>plugin.
       bindE (if cfg ''ispec'' \<noteq> None then cfg_get cfg ''pspec'' else Inr []) (\<lambda>pspec.
         Inr \<lparr>sa_name = name, sa_num_jobs = cfg_or cfg ''jobs'' ''1'',
            sa_docker = (cfg ''docker'' = Some ''True''),
            sa_docker_img = cfg_or cfg ''image'' ''riscv_compliance'',
            sa_pluginpath = abspath cwd plugin, sa_path = cfg_or cfg ''PATH'' [],
            sa_isa_spec = (case cfg ''ispec'' of None \<Rightarrow> [] | Some i \<Rightarrow> abspath cwd i),
            sa_platform_spec = (if cfg ''ispec'' \<noteq> None then abspath cwd pspec else []),
            sa_make = cfg_or cfg ''make'' ''make'',
            sa_toolchain = cfg_or cfg ''sw_toolchain_prefix'' ''unknown'',
            sa_target_run = (cfg ''target_run'' \<noteq> Some ''0'')\<rparr>)))"

definition sail_exe :: "sail_conf \<Rightarrow> string \<Rightarrow> string" where
  "sail_exe c xlen = path_join2 (sa_path c) (''riscv_sim_RV'' @ xlen)"

definition sail_initialise :: "sail_conf \<Rightarrow> string \<Rightarrow> string \<Rightarrow> string \<Rightarrow> session" where
  "sail_initialise c suite work_dir archtest_env =
     \<lparr>se_work_dir = work_dir, se_suite = suite,
      se_compile_cmd = ''{0}gcc -march={1}          -static -mcmodel=medany -fvisibility=hidden -nostdlib -nostartfiles''
        @ (if \<not> sa_docker c
           then '' -T '' @ sa_pluginpath c @ ''/env/link.ld                -I '' @ sa_pluginpath c
             @ ''/env/                -I '' @ archtest_env
           else '' -T /work/sail_work/env/link.ld                -I /work/sail_work/env/                -I /work/test/includes'')\<rparr>"

text \<open>The extension C comes before D here.\<close>

definition sail_exts :: "(string \<times> string) list" where
  "sail_exts = [(''I'', ''i''), (''M'', ''m''), (''A'', ''a''), (''F'', ''f''), (''C'', ''c''), (''D'', ''d'')] @ z_exts"

record sail_target_info =
  si_built :: built
  si_prefix :: string
  si_misaligned :: string

definition misaligned_flag :: "pyval \<Rightarrow> string res" where
  "misaligned_flag ispec =
     bindE (py_in ''hw_data_misaligned_support'' ispec) (\<lambda>b.
       if \<not> b then Inr []
       else bindE (py_getitem ispec ''hw_data_misaligned_support'') (\<lambda>v.
         Inr (if v = VBool True \<or> v = VInt 1 \<or> v = VFloat ''1.0'' then ''--enable-misaligned'' else [])))"

text \<open>What \<^verbatim>\<open>build\<close> asks of its surroundings.\<close>

record sail_world =
  sw_load :: "string \<Rightarrow> pyval res"
  sw_which :: "string \<Rightarrow> bool"
  sw_mkdir :: "string \<Rightarrow> bool"
  sw_dir_util :: bool
  sw_copy_tree :: "string \<Rightarrow> bool"
  sw_copy_file :: "string \<Rightarrow> bool"

definition mkdir_io :: "sail_world \<Rightarrow> string \<Rightarrow> (run_effect, unit) io" where
  "mkdir_io w d = (if sw_mkdir w d then doIO (MkDir d) else liftIO (Inl OSError))"

text \<open>
  \<^verbatim>\<open>distutils.dir_util\<close> is an attribute only when something has imported that module.
\<close>

definition copy_tree_io :: "sail_world \<Rightarrow> string \<Rightarrow> string \<Rightarrow> (run_effect, unit) io" where
  "copy_tree_io w a d =
     (if \<not> sw_dir_util w then liftIO (Inl (AttributeError ''dir_util''))
      else if sw_copy_tree w a then doIO (CopyTree a d) else liftIO (Inl OSError))"

definition sail_build ::
  "sail_world \<Rightarrow> string \<Rightarrow> sail_conf \<Rightarrow> session \<Rightarrow> string \<Rightarrow> (run_effect, sail_target_info) io" where
  "sail_build w archtest_env c s isa_yaml =
     bindIO (liftIO (bindE (sw_load w isa_yaml) (\<lambda>y. py_getitem y ''hart0''))) (\<lambda>ispec.
     bindIO (liftIO (has_xlen64 ispec)) (\<lambda>b64.
     bindIO (liftIO (isa_string sail_exts (xlen_of b64) ispec)) (\<lambda>isa.
     bindIO (liftIO (misaligned_flag ispec)) (\<lambda>mis.
     let xlen = xlen_of b64;
         prefix = ''riscv'' @ xlen @ ''-'' @ sa_toolchain c @ ''-elf-'';
         info = \<lparr>si_built = \<lparr>bu_xlen = xlen, bu_isa = isa, bu_compile_cmd = se_compile_cmd s @ mabi_of b64\<rparr>,
                 si_prefix = prefix, si_misaligned = mis\<rparr>
     in if \<not> sa_docker c
        then (if list_all (sw_which w) [prefix @ ''objdump'', prefix @ ''gcc'', sail_exe c xlen, sa_make c]
              then retIO info else liftIO (Inl (SystemExit 1)))
        else bindIO (mkdir_io w (path_join2 (se_work_dir s) ''sail_work'')) (\<lambda>u.
             bindIO (mkdir_io w (path_join2 (se_work_dir s) ''test'')) (\<lambda>u.
             bindIO (copy_tree_io w archtest_env (path_join (se_work_dir s) [''test'', ''includes''])) (\<lambda>u.
             bindIO (copy_tree_io w (path_join2 (sa_pluginpath c) ''env'')
                      (path_join2 (se_work_dir s) ''sail_work/env'')) (\<lambda>u. retIO info))))))))"

definition sail_makefile :: "sail_conf \<Rightarrow> session \<Rightarrow> string" where
  "sail_makefile c s = path_join2 (se_work_dir s) (''Makefile.'' @ drop_last 1 (sa_name c))"

definition sail_docker_makefile :: "sail_conf \<Rightarrow> session \<Rightarrow> string" where
  "sail_docker_makefile c s = path_join2 (se_work_dir s) (''Makefile.docker.'' @ drop_last 1 (sa_name c))"

text \<open>\<^verbatim>\<open>'c' not in self.isa\<close> looks for the letter anywhere in the string.\<close>

definition sail_sim :: "sail_conf \<Rightarrow> built \<Rightarrow> string" where
  "sail_sim c b = sail_exe c (bu_xlen b) @ (if CHR ''c'' \<notin> set (bu_isa b) then '' -C'' else [])"

definition sail_coverage :: "built \<Rightarrow> string list option \<Rightarrow> test_entry \<Rightarrow> string \<Rightarrow> string" where
  "sail_coverage b cgf t test_name =
     (case cgf of None \<Rightarrow> [] | Some files \<Rightarrow>
        ''riscv_isac --verbose info coverage -d                         -t '' @ test_name
        @ ''.log --parser-name c_sail -o coverage.rpt                          --sig-label begin_signature  end_signature                         --test-label rvtest_code_begin rvtest_code_end                         -e ref.elf -c ''
        @ py_join '' -c '' files @ '' -x'' @ bu_xlen b @ '' ''
        @ '' '' @ concat (map (\<lambda>l. '' -l '' @ l) (te_labels t)) @ '';'')"

text \<open>The command of one test, for the source and the directory the tools see.\<close>

definition sail_execute ::
  "sail_conf \<Rightarrow> sail_target_info \<Rightarrow> test_entry \<Rightarrow> string \<Rightarrow> string \<Rightarrow> string \<Rightarrow> string res" where
  "sail_execute c i t test test_dir test_name =
     bindE (py_format (bu_compile_cmd (si_built i)) [si_prefix i, bu_isa (si_built i)]) (\<lambda>compile.
       Inr (''@cd '' @ test_dir @ '';'' @ compile @ '' '' @ test @ '' -o ref.elf'' @ macro_flags t @ '';''
         @ si_prefix i @ ''objdump -D ref.elf > ref.disass;''
         @ sail_sim c (si_built i) @ '' '' @ si_misaligned i @ '' --test-signature=''
         @ drop_last 1 (sa_name c) @ ''.signature ref.elf > '' @ test_name
         @ (if sa_docker c then ''.log 2>&1;'' else ''.log;'')))"

definition sail_docker_cmd :: "sail_conf \<Rightarrow> session \<Rightarrow> string \<Rightarrow> string" where
  "sail_docker_cmd c s test_name =
     ''docker run -w /work -v '' @ se_work_dir s @ '':/work -a stdout -a stderr --init '' @ sa_docker_img c
     @ '' make -f /work/Makefile.'' @ drop_last 1 (sa_name c) @ '' '' @ test_name"

definition sail_target ::
  "sail_world \<Rightarrow> sail_conf \<Rightarrow> session \<Rightarrow> sail_target_info \<Rightarrow> string list option \<Rightarrow> test_entry
    \<Rightarrow> (run_effect, unit) io" where
  "sail_target w c s i cgf t =
     bindIO (liftIO (test_name_of t)) (\<lambda>test_name.
     let dest = path_join (se_work_dir s) [''test'', test_name @ ''.S''];
         inside = py_replace (se_work_dir s) ''/work'';
         cov = sail_coverage (si_built i) cgf t test_name
     in bindIO (if sa_docker c
                then (if sw_copy_file w (te_path t) then doIO (CopyFile (te_path t) dest) else liftIO (Inl OSError))
                else retIO ()) (\<lambda>u.
        bindIO (liftIO (sail_execute c i t (if sa_docker c then inside dest else te_path t)
                  (if sa_docker c then inside (te_work_dir t) else te_work_dir t) test_name)) (\<lambda>cmd.
        bindIO (doIO (AddTarget (sail_makefile c s) (cmd @ (if sa_docker c then [] else cov)) (Some test_name))) (\<lambda>u.
        if sa_docker c
        then doIO (AddTarget (sail_docker_makefile c s)
               (sail_docker_cmd c s test_name @
                (if cov \<noteq> [] then '';cd '' @ te_work_dir t @ '';'' @ cov else [])) (Some test_name))
        else retIO ()))))"

definition sail_run_tests ::
  "sail_world \<Rightarrow> nat option \<Rightarrow> sail_conf \<Rightarrow> session \<Rightarrow> sail_target_info \<Rightarrow> string list option
    \<Rightarrow> (string \<times> test_entry) list \<Rightarrow> (run_effect, unit) io" where
  "sail_run_tests w base_timeout c s i cgf tests =
     (let mk = sail_makefile c s; dmk = sail_docker_makefile c s; cmd = sa_make c @ '' -j'' @ sa_num_jobs c in
      bindIO (doIO (NewMake mk)) (\<lambda>u.
      bindIO (if sa_docker c then bindIO (doIO (NewMake dmk)) (\<lambda>u. doIO (SetCommand dmk cmd)) else retIO ()) (\<lambda>u.
      bindIO (doIO (SetCommand mk cmd)) (\<lambda>u.
      bindIO (forIO (\<lambda>t. sail_target w c s i cgf (snd t)) tests) (\<lambda>u.
      if sa_target_run c
      then (case (if tests = [] then base_timeout else Some 20000) of
              None \<Rightarrow> liftIO (Inl (AttributeError ''timeout''))
            | Some n \<Rightarrow> doIO (ExecuteAll (if sa_docker c then dmk else mk) (se_work_dir s) (Some n)))
      else retIO ())))))"

lemma sail_makefiles_differ: "sail_docker_makefile c s \<noteq> sail_makefile c s"
proof -
  have "length (path_join2 a b) < length (path_join2 a b')" if "length b < length b'" "hd b \<noteq> CHR ''/''" "hd b' \<noteq> CHR ''/''" for a b b'
    using that by (auto simp: path_join2_def)
  from this[of "''Makefile.'' @ drop_last 1 (sa_name c)" "''Makefile.docker.'' @ drop_last 1 (sa_name c)" "se_work_dir s"]
  show ?thesis unfolding sail_docker_makefile_def sail_makefile_def by auto
qed

text \<open>
  The makefile that is executed, and what its target for a test does: with docker it has the
  container run the target of the same name in the other makefile.
\<close>

definition sail_executed :: "sail_conf \<Rightarrow> session \<Rightarrow> string" where
  "sail_executed c s = (if sa_docker c then sail_docker_makefile c s else sail_makefile c s)"

definition sail_runs :: "sail_conf \<Rightarrow> session \<Rightarrow> string \<times> string option \<Rightarrow> test_entry \<Rightarrow> bool" where
  "sail_runs c s p t \<longleftrightarrow>
     (\<exists>n. snd p = Some n \<and> test_name_of t = Inr n \<and>
        (sa_docker c \<longrightarrow> prefix (''docker run -w /work -v '' @ se_work_dir s @ '':/work -a stdout -a stderr --init ''
           @ sa_docker_img c @ '' make -f /work/Makefile.'' @ drop_last 1 (sa_name c) @ '' '' @ n) (fst p)))"

lemma sail_target_targets:
  assumes "sail_target w c s i cgf t = (es, Inr u)"
  shows "\<exists>p. targets (sail_makefile c s) es = [p] \<and> named_for p t"
    and "\<exists>p. targets (sail_executed c s) es = [p] \<and> sail_runs c s p t"
    and "executes es = []"
  using assms sail_makefiles_differ[of c s] sail_makefiles_differ[of c s, symmetric]
  by (auto simp: sail_target_def Let_def bindIO_eq_Inr liftIO_def doIO_def retIO_def sail_executed_def
      named_for_def sail_runs_def sail_docker_cmd_def split: if_splits)

lemma sail_target_runs_nothing: "sail_target w c s i cgf t = (es, r) \<Longrightarrow> executes es = []"
  by (auto simp: sail_target_def Let_def bindIO_def liftIO_def doIO_def retIO_def split: sum.splits if_splits)

interpretation sail_loop: test_loop "sail_target w c s i cgf" "sail_makefile c s" named_for
  for w c s i cgf
  by unfold_locales (fact sail_target_targets(1) sail_target_runs_nothing)+

interpretation sail_run_loop: test_loop "sail_target w c s i cgf" "sail_executed c s" "sail_runs c s"
  for w c s i cgf
  by unfold_locales (fact sail_target_targets(2) sail_target_runs_nothing)+

end
