(* ===== verification/RiscofSpike.thy ===== *)
theory RiscofSpike
  imports Riscof
begin

text \<open>
  \<^verbatim>\<open>sim/riscof/spike/riscof_spike.py\<close>, the plugin of the Spike instruction set
  simulator.
\<close>

record spike_conf =
  sp_name :: string
  sp_dut_exe :: string
  sp_num_jobs :: string
  sp_pluginpath :: string
  sp_isa_spec :: string
  sp_platform_spec :: string
  sp_target_run :: bool

definition spike_init :: "string \<Rightarrow> string \<Rightarrow> config option \<Rightarrow> spike_conf res" where
  "spike_init cwd name config =
     (case config of None \<Rightarrow> Inl (SystemExit 1) | Some cfg \<Rightarrow>
       bindE (cfg_get cfg ''pluginpath'') (\<lambda>plugin.
       bindE (cfg_get cfg ''ispec'') (\<lambda>ispec.
       bindE (cfg_get cfg ''pspec'') (\<lambda>pspec.
         Inr \<lparr>sp_name = name, sp_dut_exe = path_join2 (cfg_or cfg ''PATH'' []) ''spike'',
            sp_num_jobs = cfg_or cfg ''jobs'' ''1'', sp_pluginpath = abspath cwd plugin,
            sp_isa_spec = abspath cwd ispec, sp_platform_spec = abspath cwd pspec,
            sp_target_run = (cfg ''target_run'' \<noteq> Some ''0'')\<rparr>))))"

definition spike_initialise :: "spike_conf \<Rightarrow> string \<Rightarrow> string \<Rightarrow> string \<Rightarrow> session" where
  "spike_initialise c suite work_dir archtest_env =
     \<lparr>se_work_dir = work_dir, se_suite = suite,
      se_compile_cmd = ''riscv{1}-corev-elf-gcc -march={0}          -static -mcmodel=medany -fvisibility=hidden -nostdlib -nostartfiles -g         -T ''
        @ sp_pluginpath c @ ''/env/link.ld         -I '' @ sp_pluginpath c @ ''/env/         -I ''
        @ archtest_env @ '' {2} -o {3} {4}''\<rparr>"

definition spike_build :: "(string \<Rightarrow> pyval res) \<Rightarrow> session \<Rightarrow> string \<Rightarrow> built res" where
  "spike_build load_yaml s isa_yaml =
     bindE (bindE (load_yaml isa_yaml) (\<lambda>y. py_getitem y ''hart0'')) (\<lambda>ispec.
     bindE (has_xlen64 ispec) (\<lambda>b64.
     bindE (isa_string isa_exts (xlen_of b64) ispec) (\<lambda>isa.
       Inr \<lparr>bu_xlen = xlen_of b64, bu_isa = isa, bu_compile_cmd = se_compile_cmd s @ mabi_of b64\<rparr>)))"

definition spike_makefile :: "spike_conf \<Rightarrow> session \<Rightarrow> string" where
  "spike_makefile c s = path_join2 (se_work_dir s) (''Makefile.'' @ drop_last 1 (sp_name c))"

definition spike_sim_cmd :: "spike_conf \<Rightarrow> built \<Rightarrow> test_entry \<Rightarrow> string" where
  "spike_sim_cmd c b t =
     (if sp_target_run c
      then sp_dut_exe c @ '' --misaligned --isa='' @ bu_isa b @ '' +signature=''
        @ path_join2 (te_work_dir t) (drop_last 1 (sp_name c) @ ''.signature'')
        @ '' +signature-granularity=4 my.elf''
      else ''echo '' @ [quote2] @ ''NO RUN'' @ [quote2])"

definition spike_target :: "spike_conf \<Rightarrow> session \<Rightarrow> built \<Rightarrow> test_entry \<Rightarrow> (run_effect, unit) io" where
  "spike_target c s b t =
     bindIO (liftIO (py_format (bu_compile_cmd b)
        [bu_isa b, bu_xlen b, te_path t, ''my.elf'', macro_flags t])) (\<lambda>cmd.
       doIO (AddTarget (spike_makefile c s)
         (''@cd '' @ te_work_dir t @ ''; '' @ cmd @ ''; '' @ spike_sim_cmd c b t @ '';'') None))"

definition spike_run_tests ::
  "(string \<Rightarrow> bool) \<Rightarrow> spike_conf \<Rightarrow> session \<Rightarrow> built \<Rightarrow> (string \<times> test_entry) list
    \<Rightarrow> (run_effect, unit) io" where
  "spike_run_tests exists c s b tests =
     (let old = se_work_dir s @ ''/Makefile.'' @ drop_last 1 (sp_name c); mk = spike_makefile c s in
      bindIO (if exists old then doIO (RemoveFile old) else retIO ()) (\<lambda>u.
      bindIO (doIO (NewMake mk)) (\<lambda>u.
      bindIO (doIO (SetCommand mk (''make -k -j'' @ sp_num_jobs c))) (\<lambda>u.
      bindIO (forIO (\<lambda>t. spike_target c s b (snd t)) tests) (\<lambda>u.
      bindIO (doIO (ExecuteAll mk (se_work_dir s) None)) (\<lambda>u.
      if \<not> sp_target_run c then liftIO (Inl (SystemExit 0)) else retIO ()))))))"

interpretation spike_loop: test_loop "spike_target c s b" "spike_makefile c s" "\<lambda>p t. snd p = None" for c s b
proof unfold_locales
  fix t es u
  show "spike_target c s b t = (es, Inr u) \<Longrightarrow> \<exists>p. targets (spike_makefile c s) es = [p] \<and> snd p = None"
    by (auto simp: spike_target_def bindIO_eq_Inr liftIO_def doIO_def)
  fix r
  show "spike_target c s b t = (es, r) \<Longrightarrow> executes es = []"
    by (auto simp: spike_target_def bindIO_def doIO_def split: sum.splits prod.splits)
qed

end
