(* ===== verification/RiscofProps.thy ===== *)
theory RiscofProps
  imports RiscofCv RiscofSail RiscofSpike
begin

text \<open>
  What the three RISCOF plugins guarantee, and where they differ: the architecture strings
  they build from one ISA file, the flags that depend on them, and the make targets of a test
  list.
\<close>

subsection \<open>Architecture strings\<close>

definition isa_text :: "(string \<times> string) list \<Rightarrow> string \<Rightarrow> string" where
  "isa_text exts isa = concat (map (\<lambda>e. if py_contains (fst e) isa then snd e else []) exts)"

lemma isa_text_simps [simp]:
  "isa_text [] isa = []"
  "isa_text (e # es) isa = (if py_contains (fst e) isa then snd e else []) @ isa_text es isa"
  by (simp_all add: isa_text_def)

lemma isa_text_append: "isa_text (as @ bs) isa = isa_text as isa @ isa_text bs isa"
  by (simp add: isa_text_def)

lemma isa_string_eq:
  assumes "py_getitem ispec ''ISA'' = Inr (VStr isa)"
  shows "isa_string exts xlen ispec = Inr (''rv'' @ xlen @ isa_text exts isa)"
proof -
  have "foldE (append_ext ispec) acc exts = Inr (acc @ isa_text exts isa)" for acc
    using assms by (induction exts arbitrary: acc) (simp_all add: append_ext_def)
  then show ?thesis by (simp add: isa_string_def)
qed

lemma isa_orders:
  "isa_text sail_exts isa = isa_text isa_exts isa \<longleftrightarrow> \<not> (py_contains ''D'' isa \<and> py_contains ''C'' isa)"
proof -
  have split: "sail_exts = [(''I'', ''i''), (''M'', ''m''), (''A'', ''a''), (''F'', ''f'')] @ [(''C'', ''c''), (''D'', ''d'')] @ z_exts"
    "isa_exts = [(''I'', ''i''), (''M'', ''m''), (''A'', ''a''), (''F'', ''f'')] @ [(''D'', ''d''), (''C'', ''c'')] @ z_exts"
    by (simp_all add: sail_exts_def isa_exts_def)
  show ?thesis unfolding split isa_text_append same_append_eq by simp
qed

lemma plugin_build_isa:
  assumes "load yaml = Inr y" and "py_getitem y ''hart0'' = Inr ispec"
    and "py_getitem ispec ''ISA'' = Inr (VStr isa)" and "has_xlen64 ispec = Inr b64"
  shows "cv_build load s yaml = Inr \<lparr>bu_xlen = xlen_of b64,
      bu_isa = ''rv'' @ xlen_of b64 @ isa_text isa_exts isa, bu_compile_cmd = se_compile_cmd s @ mabi_of b64\<rparr>"
    and "spike_build load s yaml = Inr \<lparr>bu_xlen = xlen_of b64,
      bu_isa = ''rv'' @ xlen_of b64 @ isa_text isa_exts isa, bu_compile_cmd = se_compile_cmd s @ mabi_of b64\<rparr>"
  using assms by (simp_all add: cv_build_def spike_build_def isa_string_eq)

lemma sail_build_isa:
  assumes "sw_load w yaml = Inr y" and "py_getitem y ''hart0'' = Inr ispec"
    and "py_getitem ispec ''ISA'' = Inr (VStr isa)" and "has_xlen64 ispec = Inr b64"
    and "sail_build w env c s yaml = (es, Inr i)"
  shows "si_built i = \<lparr>bu_xlen = xlen_of b64, bu_isa = ''rv'' @ xlen_of b64 @ isa_text sail_exts isa,
      bu_compile_cmd = se_compile_cmd s @ mabi_of b64\<rparr>
    \<and> si_prefix i = ''riscv'' @ xlen_of b64 @ ''-'' @ sa_toolchain c @ ''-elf-''"
  using assms
  by (auto simp: sail_build_def isa_string_eq Let_def bindIO_eq_Inr liftIO_def retIO_def split: if_splits)

subsection \<open>Concrete instances\<close>

definition ex_ispec :: "string \<Rightarrow> pyval" where
  "ex_ispec isa = VDict [(''ISA'', VStr isa), (''supported_xlen'', VList [VInt 32])]"

definition ex_sail_world :: "string \<Rightarrow> sail_world" where
  "ex_sail_world isa = \<lparr>sw_load = (\<lambda>f. Inr (VDict [(''hart0'', ex_ispec isa)])), sw_which = (\<lambda>x. True),
     sw_mkdir = (\<lambda>d. True), sw_dir_util = True, sw_copy_tree = (\<lambda>d. True), sw_copy_file = (\<lambda>d. True)\<rparr>"

definition ex_config :: config where
  "ex_config = map_of [(''pluginpath'', ''/p''), (''ispec'', ''i.yaml''), (''pspec'', ''p.yaml''),
     (''corevverifPATH'', ''/cv''), (''docker'', ''True'')]"

definition ex_environ :: config where
  "ex_environ = map_of [(''CV_SIMULATOR'', ''xrun'')]"

definition ex_tests :: "(string \<times> test_entry) list" where
  "ex_tests = [(''t1'', \<lparr>te_path = ''/s/add-01.S'', te_work_dir = ''/w/t1'', te_macros = [''X=1''], te_labels = []\<rparr>),
     (''t2'', \<lparr>te_path = ''/s/sub-01.S'', te_work_dir = ''/w/t2'', te_macros = [''X=1'', ''Y=2''], te_labels = []\<rparr>)]"

definition ex_cv :: cv_conf where
  "ex_cv = (case cv_init ''/'' ex_environ ''cv32e40x:'' (Some ex_config) of Inr c \<Rightarrow> c | Inl e \<Rightarrow> undefined)"

definition ex_sail :: sail_conf where
  "ex_sail = (case sail_init ''/'' ''sail:'' (Some ex_config) of Inr c \<Rightarrow> c | Inl e \<Rightarrow> undefined)"

definition ex_spike :: spike_conf where
  "ex_spike = (case spike_init ''/'' ''spike:'' (Some ex_config) of Inr c \<Rightarrow> c | Inl e \<Rightarrow> undefined)"

text \<open>
  C23: from one ISA file the three plugins compile for the same width and the device and
  Spike for the same architecture string; Sail's is the same exactly when the ISA does not have
  both the D and the C extension, whose letters it appends in the other order.
\<close>

theorem riscof_isa_strings:
  assumes "sw_load w yaml = Inr y" and "py_getitem y ''hart0'' = Inr ispec"
    and "py_getitem ispec ''ISA'' = Inr (VStr isa)" and "has_xlen64 ispec = Inr b64"
    and "sail_build w env c s yaml = (es, Inr i)"
  shows "\<exists>bc bs. cv_build (sw_load w) sc yaml = Inr bc \<and> spike_build (sw_load w) ss yaml = Inr bs
    \<and> bu_xlen bc = bu_xlen (si_built i) \<and> bu_xlen bs = bu_xlen bc \<and> bu_isa bs = bu_isa bc
    \<and> (bu_isa (si_built i) = bu_isa bc \<longleftrightarrow> \<not> (py_contains ''D'' isa \<and> py_contains ''C'' isa))"
  using plugin_build_isa[of "sw_load w" yaml y ispec isa b64] assms(1-4) sail_build_isa[OF assms] isa_orders[of isa]
  by simp

theorem riscof_isa_strings_witness:
  "\<exists>es i bc bs. sail_build (ex_sail_world ''RV32IMDC'') ''/env'' ex_sail (sail_initialise ex_sail ''s'' ''/w'' ''/env'') ''y'' = (es, Inr i)
    \<and> cv_build (sw_load (ex_sail_world ''RV32IMDC'')) (cv_initialise ex_cv ''s'' ''/w'' ''/env'') ''y'' = Inr bc
    \<and> spike_build (sw_load (ex_sail_world ''RV32IMDC'')) (spike_initialise ex_spike ''s'' ''/w'' ''/env'') ''y'' = Inr bs
    \<and> bu_isa bs = bu_isa bc \<and> bu_isa (si_built i) \<noteq> bu_isa bc"
proof -
  let ?w = "ex_sail_world ''RV32IMDC''"
  have "is_ok (snd (sail_build ?w ''/env'' ex_sail (sail_initialise ex_sail ''s'' ''/w'' ''/env'') ''y''))" by code_simp
  then obtain es i where e: "sail_build ?w ''/env'' ex_sail (sail_initialise ex_sail ''s'' ''/w'' ''/env'') ''y'' = (es, Inr i)"
    by (metis is_ok_Inr prod.collapse)
  have l: "sw_load ?w ''y'' = Inr (VDict [(''hart0'', ex_ispec ''RV32IMDC'')])" by (simp add: ex_sail_world_def)
  have h: "py_getitem (VDict [(''hart0'', ex_ispec ''RV32IMDC'')]) ''hart0'' = Inr (ex_ispec ''RV32IMDC'')" by simp
  have isa: "py_getitem (ex_ispec ''RV32IMDC'') ''ISA'' = Inr (VStr ''RV32IMDC'')" by (simp add: ex_ispec_def)
  have x: "has_xlen64 (ex_ispec ''RV32IMDC'') = Inr False" by code_simp
  have "py_contains ''D'' ''RV32IMDC'' \<and> py_contains ''C'' ''RV32IMDC''" by code_simp
  then show ?thesis using riscof_isa_strings[OF l h isa x e, of "cv_initialise ex_cv ''s'' ''/w'' ''/env''" "spike_initialise ex_spike ''s'' ''/w'' ''/env''"] e by blast
qed

text \<open>
  C24: Sail is told to switch compressed instructions off exactly when the ISA has neither C
  nor any of Zicsr, Zifencei, Zicond and Zbc, whose names have the letter too.
\<close>

theorem sail_no_compressed_flag:
  assumes "sw_load w yaml = Inr y" and "py_getitem y ''hart0'' = Inr ispec"
    and "py_getitem ispec ''ISA'' = Inr (VStr isa)" and "has_xlen64 ispec = Inr b64"
    and "sail_build w env c s yaml = (es, Inr i)"
  shows "sail_sim c (si_built i) = sail_exe c (xlen_of b64) @
    (if list_ex (\<lambda>e. py_contains e isa) [''C'', ''Zicsr'', ''Zifencei'', ''Zicond'', ''Zbc''] then [] else '' -C'')"
proof -
  have "CHR ''c'' \<in> set (isa_text sail_exts isa) \<longleftrightarrow>
      list_ex (\<lambda>e. py_contains e isa) [''C'', ''Zicsr'', ''Zifencei'', ''Zicond'', ''Zbc'']"
    by (simp add: sail_exts_def z_exts_def)
  then show ?thesis using sail_build_isa[OF assms] by (simp add: sail_sim_def xlen_of_def)
qed

theorem sail_no_compressed_flag_witness:
  "\<exists>es i. sail_build (ex_sail_world ''RV32IMZicsr'') ''/env'' ex_sail (sail_initialise ex_sail ''s'' ''/w'' ''/env'') ''y'' = (es, Inr i)
    \<and> sail_sim ex_sail (si_built i) = sail_exe ex_sail ''32''"
proof -
  let ?w = "ex_sail_world ''RV32IMZicsr''"
  have "is_ok (snd (sail_build ?w ''/env'' ex_sail (sail_initialise ex_sail ''s'' ''/w'' ''/env'') ''y''))" by code_simp
  then obtain es i where e: "sail_build ?w ''/env'' ex_sail (sail_initialise ex_sail ''s'' ''/w'' ''/env'') ''y'' = (es, Inr i)"
    by (metis is_ok_Inr prod.collapse)
  have l: "sw_load ?w ''y'' = Inr (VDict [(''hart0'', ex_ispec ''RV32IMZicsr'')])" by (simp add: ex_sail_world_def)
  have h: "py_getitem (VDict [(''hart0'', ex_ispec ''RV32IMZicsr'')]) ''hart0'' = Inr (ex_ispec ''RV32IMZicsr'')" by simp
  have isa: "py_getitem (ex_ispec ''RV32IMZicsr'') ''ISA'' = Inr (VStr ''RV32IMZicsr'')" by (simp add: ex_ispec_def)
  have x: "has_xlen64 (ex_ispec ''RV32IMZicsr'') = Inr False" by code_simp
  have "list_ex (\<lambda>e. py_contains e ''RV32IMZicsr'') [''C'', ''Zicsr'', ''Zifencei'', ''Zicond'', ''Zbc'']" by code_simp
  then show ?thesis using sail_no_compressed_flag[OF l h isa x e] e by (simp add: xlen_of_def)
qed

subsection \<open>Make targets\<close>

lemma cv_run_tests_Inr:
  assumes "cv_run_tests exists tmo c s b tests = (es, Inr u)"
  shows "\<exists>pre ls tm. forIO (\<lambda>t. cv_target c s b (snd t)) tests = (ls, Inr ())
    \<and> es = pre @ ls @ (if cv_target_run c then [ExecuteAll (cv_makefile c s) (se_work_dir s) tm] else [])
    \<and> targets (cv_makefile c s) pre = [] \<and> executes pre = []"
proof -
  let ?old = "se_work_dir s @ ''/Makefile.'' @ drop_last 1 (cv_name c)"
  let ?pre = "(if exists ?old then [RemoveFile ?old] else []) @
    [NewMake (cv_makefile c s), SetCommand (cv_makefile c s) (''make -j'' @ cv_num_jobs c)]"
  obtain ls r where l: "forIO (\<lambda>t. cv_target c s b (snd t)) tests = (ls, r)" by fastforce
  then have r: "r = Inr ()" using assms
    by (cases r) (auto simp: cv_run_tests_def Let_def bindIO_def doIO_def retIO_def split: if_splits)
  then obtain tm where "es = ?pre @ ls @
      (if cv_target_run c then [ExecuteAll (cv_makefile c s) (se_work_dir s) tm] else [])"
    using assms l
    by (auto simp: cv_run_tests_def Let_def bindIO_def doIO_def retIO_def liftIO_def
        split: if_splits option.splits)
  moreover have "targets (cv_makefile c s) ?pre = []" "executes ?pre = []" by simp_all
  ultimately show ?thesis using l r by blast
qed

text \<open>
  C21: a run of the device plugin that returns has added one target per test, in the order of
  the list, with the test's name and command, and has executed the makefile once, after that;
  with \<^verbatim>\<open>target_run\<close> off it executes nothing at all, so the tests are not compiled
  either, although the comments say that they are.
\<close>

theorem cv_targets:
  assumes "cv_run_tests exists tmo c s b tests = (es, Inr u)"
  shows "list_all2 (\<lambda>p t. cv_target_for c b p (snd t)) (targets (cv_makefile c s) es) tests
    \<and> executes es = (if cv_target_run c then [(cv_makefile c s, se_work_dir s)] else [])
    \<and> (cv_target_run c \<longrightarrow> (\<exists>tm. last es = ExecuteAll (cv_makefile c s) (se_work_dir s) tm))"
proof -
  obtain pre ls tm where l: "forIO (\<lambda>t. cv_target c s b (snd t)) tests = (ls, Inr ())"
    and es: "es = pre @ ls @ (if cv_target_run c then [ExecuteAll (cv_makefile c s) (se_work_dir s) tm] else [])"
    and pre: "targets (cv_makefile c s) pre = []" "executes pre = []"
    using cv_run_tests_Inr[OF assms] by blast
  show ?thesis using cv_loop.loop_targets[OF l] cv_loop.loop_runs_nothing[OF l] pre by (simp add: es)
qed

theorem cv_targets_witness:
  "\<exists>b es. cv_build (sw_load (ex_sail_world ''RV32IMC'')) (cv_initialise ex_cv ''s'' ''/w'' ''/env'') ''y'' = Inr b
    \<and> cv_run_tests (\<lambda>p. True) None ex_cv (cv_initialise ex_cv ''s'' ''/w'' ''/env'') b ex_tests = (es, Inr ())
    \<and> length (targets (cv_makefile ex_cv (cv_initialise ex_cv ''s'' ''/w'' ''/env'')) es) = 2"
proof -
  let ?s = "cv_initialise ex_cv ''s'' ''/w'' ''/env''"
  let ?m = "bindE (cv_build (sw_load (ex_sail_world ''RV32IMC'')) ?s ''y'')
    (\<lambda>b. snd (cv_run_tests (\<lambda>p. True) None ex_cv ?s b ex_tests))"
  have "is_ok ?m" by code_simp
  then obtain b where b: "cv_build (sw_load (ex_sail_world ''RV32IMC'')) ?s ''y'' = Inr b"
    and "snd (cv_run_tests (\<lambda>p. True) None ex_cv ?s b ex_tests) = Inr ()"
    by (auto simp: is_ok_Inr bindE_eq_Inr)
  then obtain es where e: "cv_run_tests (\<lambda>p. True) None ex_cv ?s b ex_tests = (es, Inr ())" by (metis prod.collapse)
  have "length (targets (cv_makefile ex_cv ?s) es) = length ex_tests"
    using list_all2_lengthD[OF conjunct1[OF cv_targets[OF e]]] .
  then show ?thesis using b e by (simp add: ex_tests_def)
qed

text \<open>
  C37: a run of the Sail plugin that returns has added one target per test, in the order of
  the list and under the test's name, to the makefile that runs the tools; the makefile that it
  executes, once and last unless running was switched off, has one target per test too, and with
  docker, where it is another one, each of them runs the test's target inside the container.
\<close>

theorem sail_targets:
  assumes "sail_run_tests w tmo c s i cgf tests = (es, Inr u)"
  shows "list_all2 (\<lambda>p t. named_for p (snd t)) (targets (sail_makefile c s) es) tests
    \<and> list_all2 (\<lambda>p t. sail_runs c s p (snd t)) (targets (sail_executed c s) es) tests
    \<and> executes es = (if sa_target_run c then [(sail_executed c s, se_work_dir s)] else [])
    \<and> (sa_target_run c \<longrightarrow> (\<exists>tm. last es = ExecuteAll (sail_executed c s) (se_work_dir s) tm))"
proof -
  obtain ls r where l: "forIO (\<lambda>t. sail_target w c s i cgf (snd t)) tests = (ls, r)" by fastforce
  then have "r = Inr ()" using assms
    by (cases r) (auto simp: sail_run_tests_def Let_def bindIO_def doIO_def retIO_def split: if_splits)
  with l have l: "forIO (\<lambda>t. sail_target w c s i cgf (snd t)) tests = (ls, Inr ())" by simp
  then obtain pre tm where
    es: "es = pre @ ls @ (if sa_target_run c then [ExecuteAll (sail_executed c s) (se_work_dir s) tm] else [])"
    and pre: "targets mk pre = []" "executes pre = []" for mk
    using assms by (auto simp: sail_run_tests_def sail_executed_def Let_def bindIO_def doIO_def retIO_def liftIO_def
        split: if_splits option.splits)
  show ?thesis
    using sail_loop.loop_targets[OF l] sail_run_loop.loop_targets[OF l] sail_loop.loop_runs_nothing[OF l] pre
    by (simp add: es)
qed

theorem sail_targets_witness:
  "\<exists>i es. snd (sail_build (ex_sail_world ''RV32IMC'') ''/env'' ex_sail (sail_initialise ex_sail ''s'' ''/w'' ''/env'') ''y'') = Inr i
    \<and> sail_run_tests (ex_sail_world ''RV32IMC'') None ex_sail (sail_initialise ex_sail ''s'' ''/w'' ''/env'') i None ex_tests = (es, Inr ())
    \<and> length (targets (sail_makefile ex_sail (sail_initialise ex_sail ''s'' ''/w'' ''/env'')) es) = 2
    \<and> length (targets (sail_docker_makefile ex_sail (sail_initialise ex_sail ''s'' ''/w'' ''/env'')) es) = 2"
proof -
  let ?s = "sail_initialise ex_sail ''s'' ''/w'' ''/env''" and ?w = "ex_sail_world ''RV32IMC''"
  let ?m = "bindE (snd (sail_build ?w ''/env'' ex_sail ?s ''y''))
    (\<lambda>i. snd (sail_run_tests ?w None ex_sail ?s i None ex_tests))"
  have "is_ok ?m" by code_simp
  then obtain i where i: "snd (sail_build ?w ''/env'' ex_sail ?s ''y'') = Inr i"
    and "snd (sail_run_tests ?w None ex_sail ?s i None ex_tests) = Inr ()"
    by (auto simp: is_ok_Inr bindE_eq_Inr)
  then obtain es where e: "sail_run_tests ?w None ex_sail ?s i None ex_tests = (es, Inr ())" by (metis prod.collapse)
  have "sa_docker ex_sail" by code_simp
  then have "length (targets (sail_makefile ex_sail ?s) es) = length ex_tests
      \<and> length (targets (sail_docker_makefile ex_sail ?s) es) = length ex_tests"
    using sail_targets[OF e] by (auto simp: sail_executed_def dest: list_all2_lengthD)
  then show ?thesis using i e by (simp add: ex_tests_def)
qed

text \<open>
  C22: the Spike plugin executes its makefile once however it was configured, after adding one
  target per test; with running switched off the commands only say so and the plugin then
  leaves RISCOF with exit status 0.  The compile command is assumed to format.
\<close>

theorem spike_targets:
  assumes "\<And>t. t \<in> set tests \<Longrightarrow> \<exists>cmd. py_format (bu_compile_cmd b)
      [bu_isa b, bu_xlen b, te_path (snd t), ''my.elf'', macro_flags (snd t)] = Inr cmd"
  shows "\<exists>es. spike_run_tests exists c s b tests = (es, if sp_target_run c then Inr () else Inl (SystemExit 0))
    \<and> length (targets (spike_makefile c s) es) = length tests
    \<and> last es = ExecuteAll (spike_makefile c s) (se_work_dir s) None
    \<and> executes es = [(spike_makefile c s, se_work_dir s)]"
proof -
  obtain ls r where l: "forIO (\<lambda>t. spike_target c s b (snd t)) tests = (ls, r)" by fastforce
  have "snd (spike_target c s b (snd t)) = Inr ()" if "t \<in> set tests" for t
    using assms[OF that] by (auto simp: spike_target_def snd_bindIO)
  then have "r = Inr ()" using l forIO_returns[of tests "\<lambda>t. spike_target c s b (snd t)"] by simp
  with l have l: "forIO (\<lambda>t. spike_target c s b (snd t)) tests = (ls, Inr ())" by simp
  have n: "length (targets (spike_makefile c s) ls) = length tests"
    by (rule list_all2_lengthD[OF spike_loop.loop_targets[OF l]])
  show ?thesis using l n spike_loop.loop_runs_nothing[OF l]
    by (auto simp: spike_run_tests_def Let_def bindIO_def doIO_def retIO_def liftIO_def)
qed

theorem spike_targets_witness:
  "\<exists>b es. spike_build (sw_load (ex_sail_world ''RV32IMC'')) (spike_initialise ex_spike ''s'' ''/w'' ''/env'') ''y'' = Inr b
    \<and> snd (spike_run_tests (\<lambda>p. True) (ex_spike\<lparr>sp_target_run := False\<rparr>) (spike_initialise ex_spike ''s'' ''/w'' ''/env'') b ex_tests)
        = Inl (SystemExit 0)"
proof -
  let ?s = "spike_initialise ex_spike ''s'' ''/w'' ''/env''"
  let ?m = "bindE (spike_build (sw_load (ex_sail_world ''RV32IMC'')) ?s ''y'') (\<lambda>b.
    mapE (\<lambda>t. py_format (bu_compile_cmd b) [bu_isa b, bu_xlen b, te_path (snd t), ''my.elf'', macro_flags (snd t)]) ex_tests)"
  have "is_ok ?m" by code_simp
  then obtain b where b: "spike_build (sw_load (ex_sail_world ''RV32IMC'')) ?s ''y'' = Inr b"
    and m: "is_ok (mapE (\<lambda>t. py_format (bu_compile_cmd b) [bu_isa b, bu_xlen b, te_path (snd t), ''my.elf'', macro_flags (snd t)]) ex_tests)"
    by (auto simp: is_ok_Inr bindE_eq_Inr)
  have "\<exists>cmd. py_format (bu_compile_cmd b) [bu_isa b, bu_xlen b, te_path (snd t), ''my.elf'', macro_flags (snd t)] = Inr cmd"
    if "t \<in> set ex_tests" for t
    using m that by (auto simp: is_ok_Inr ex_tests_def bindE_eq_Inr)
  then obtain es where "spike_run_tests (\<lambda>p. True) (ex_spike\<lparr>sp_target_run := False\<rparr>) ?s b ex_tests
      = (es, if sp_target_run (ex_spike\<lparr>sp_target_run := False\<rparr>) then Inr () else Inl (SystemExit 0))"
    using spike_targets[of ex_tests b] by blast
  then show ?thesis using b by simp
qed

lemma test_name_plain:
  assumes "te_path t = d @ CHR ''/'' # n @ ext" and "CHR ''/'' \<notin> set (n @ ext)" and "length ext = 2"
  shows "test_name_of t = Inr n"
  using assms after_slash_append[OF assms(2), of d] by (simp add: test_name_of_def)

definition plain :: "string \<Rightarrow> bool" where
  "plain s \<longleftrightarrow> list_all (\<lambda>c. \<not> brace c) s"

lemma py_format_field_plain: "plain s \<Longrightarrow> py_format (s @ r) as = bindE (py_format r as) (\<lambda>x. Inr (s @ x))"
  unfolding plain_def by (rule py_format_plain)

lemma mabi_format: "py_format (mabi_of b64) as = Inr (mabi_of b64)"
  by (rule py_format_no_braces) (simp add: mabi_of_def brace_def)

lemma cv_compile_format:
  assumes "plain (cv_pluginpath c)" and "plain env"
  shows "py_format (se_compile_cmd (cv_initialise c suite wd env) @ mabi_of b64) [isa, xlen, tc, path, elf, flags] =
    Inr (''riscv'' @ xlen @ ''-'' @ tc @ ''-elf-gcc -march='' @ isa
      @ ''           -static -mcmodel=medany -fvisibility=hidden -nostdlib -nostartfiles           -T ''
      @ cv_pluginpath c @ ''/env/link.ld          -I '' @ cv_pluginpath c @ ''/env/          -I '' @ env
      @ '' '' @ path @ '' -o '' @ elf @ '' '' @ flags @ mabi_of b64)"
  using assms by (simp add: cv_initialise_def py_format_field_plain mabi_format)

text \<open>
  C8: for paths without braces the two-stage formatting gives every test its full command:
  after the device plugin was set up and has built, a test is compiled for the architecture
  string with the ABI of the width, its hex, readelf, objdump and instruction-table files are
  derived, and it is simulated; the directory that is removed at the end is the one in which the
  simulator of the environment works.
\<close>

theorem cv_command_line:
  assumes "cv_init cwd environ name config = Inr c"
    and "cv_build load (cv_initialise c suite wd env) yaml = Inr b"
    and "plain (cv_pluginpath c)" and "plain env" and "plain (cv_tbpath c)"
    and "te_path t = d @ CHR ''/'' # n @ ext" and "CHR ''/'' \<notin> set (n @ ext)" and "length ext = 2"
    and "environ ''CV_SIMULATOR'' = Some sim"
  shows "cv_execute c b t = Inr (''@cd '' @ py_join ''; ''
    [te_work_dir t,
     ''riscv'' @ bu_xlen b @ ''-'' @ cv_toolchain c @ ''-elf-gcc -march='' @ bu_isa b
      @ ''           -static -mcmodel=medany -fvisibility=hidden -nostdlib -nostartfiles           -T ''
      @ cv_pluginpath c @ ''/env/link.ld          -I '' @ cv_pluginpath c @ ''/env/          -I '' @ env
      @ '' '' @ te_path t @ '' -o '' @ n @ ''.elf '' @ macro_flags t @ mabi_of (bu_xlen b = ''64''),
     ''riscv'' @ bu_xlen b @ ''-'' @ cv_toolchain c @ ''-elf-objcopy -O verilog '' @ n @ ''.elf '' @ n @ ''.hex'',
     ''riscv'' @ bu_xlen b @ ''-'' @ cv_toolchain c @ ''-elf-readelf -a '' @ n @ ''.elf > '' @ n @ ''.readelf'',
     ''riscv'' @ bu_xlen b @ ''-'' @ cv_toolchain c @ ''-elf-objdump -D -M no-aliases -S '' @ n @ ''.elf > '' @ n @ ''.objdump'',
     ''riscv'' @ bu_xlen b @ ''-'' @ cv_toolchain c @ ''-elf-objdump -d -S -M no-aliases -l '' @ n @ ''.elf | ''
      @ cv_tbpath c @ ''/bin/objdump2itb - > '' @ n @ ''.itb'',
     ''cd '' @ cv_tbpath c @ ''/cv32e40x/sim/'' @ cv_dut_exe c,
     ''make riscof_sim_run TEST='' @ n @ '' USE_ISS='' @ cv_imperas_iss c @ '' RISCOF_TEST_RUN_DIR='' @ te_work_dir t
      @ '' CFG='' @ cv_dut_cfg c @ '' COV='' @ cv_sim_cov c @ '' SEED=random'',
     ''rm -rf '' @ te_work_dir t
      @ the (map_of [(''vsim'', ''/work/''), (''xrun'', ''/xcelium.d/''), (''vcs'', ''/simv.daidir/'')] sim)], n)"
proof -
  have sim: "cv_simulator c = sim" "sim \<in> set supported_simulators"
    using assms(1,9) by (auto simp: cv_init_def cfg_get_def bindE_eq_Inr split: option.splits if_splits)
  obtain b64 where b: "bu_xlen b = xlen_of b64"
    "bu_compile_cmd b = se_compile_cmd (cv_initialise c suite wd env) @ mabi_of b64"
    using assms(2) by (auto simp: cv_build_def bindE_eq_Inr)
  have b64: "(bu_xlen b = ''64'') = b64" by (simp add: b xlen_of_def)
  have name: "test_name_of t = Inr n" by (rule test_name_plain[OF assms(6-8)])
  let ?dir = "the (map_of [(''vsim'', ''/work/''), (''xrun'', ''/xcelium.d/''), (''vcs'', ''/simv.daidir/'')] sim)"
  have cl: "cv_clean_cmd c t = ''rm -rf '' @ te_work_dir t @ ?dir"
    using sim by (auto simp: cv_clean_cmd_def supported_simulators_def)
  have itb: "cv_itb_cmd c b e m = Inr (''riscv'' @ bu_xlen b @ ''-'' @ cv_toolchain c @ ''-elf-objdump -d -S -M no-aliases -l ''
      @ e @ '' | '' @ cv_tbpath c @ ''/bin/objdump2itb - > '' @ m @ ''.itb'')" for e m
    unfolding cv_itb_cmd_def using assms(5) by (simp add: py_format_field_plain)
  show ?thesis
    unfolding b64 using sim cv_compile_format[OF assms(3,4)]
    by (simp add: cv_execute_def name itb b(2) cl cv_sim_cmd_def cv_tool_def del: py_format.simps map_of.simps)
qed

theorem cv_command_line_witness:
  "\<exists>b cmd. cv_build (sw_load (ex_sail_world ''RV32IMC'')) (cv_initialise ex_cv ''s'' ''/w'' ''/env'') ''y'' = Inr b
    \<and> cv_execute ex_cv b (snd (hd ex_tests)) = Inr (cmd, ''add-01'')"
proof -
  let ?t = "snd (hd ex_tests)"
  have "is_ok (cv_init ''/'' ex_environ ''cv32e40x:'' (Some ex_config))" by code_simp
  then have c: "cv_init ''/'' ex_environ ''cv32e40x:'' (Some ex_config) = Inr ex_cv"
    by (auto simp: is_ok_Inr ex_cv_def)
  have "is_ok (cv_build (sw_load (ex_sail_world ''RV32IMC'')) (cv_initialise ex_cv ''s'' ''/w'' ''/env'') ''y'')" by code_simp
  then obtain b where b: "cv_build (sw_load (ex_sail_world ''RV32IMC'')) (cv_initialise ex_cv ''s'' ''/w'' ''/env'') ''y'' = Inr b"
    by (auto simp: is_ok_Inr)
  have p: "plain (cv_pluginpath ex_cv)" "plain ''/env''" "plain (cv_tbpath ex_cv)" by code_simp+
  have t: "te_path ?t = ''/s'' @ CHR ''/'' # ''add-01'' @ ''.S''" "CHR ''/'' \<notin> set (''add-01'' @ ''.S'')" "length ''.S'' = 2"
    by (simp_all add: ex_tests_def)
  have "ex_environ ''CV_SIMULATOR'' = Some ''xrun''" by (simp add: ex_environ_def)
  from cv_command_line[OF c b p t this] b show ?thesis by blast
qed

end
