(* ===== verification/PyFloat.thy ===== *)
theory PyFloat
  imports Complex_Main PyPrelude
begin

text \<open>
  Python's floats: the rational numbers that IEEE double precision holds, with results
  rounded to 53 bits, ties to even.  Magnitudes outside the range of the exponent are left
  out; the numbers the scripts compute with are far from both ends.
\<close>

definition half_even :: "rat \<Rightarrow> int" where
  "half_even x =
     (let f = \<lfloor>x\<rfloor>; d = x - of_int f
      in if d < 1/2 then f else if 1/2 < d then f + 1 else if even f then f else f + 1)"

function bit_len :: "int \<Rightarrow> int" where
  "bit_len n = (if n \<le> 0 then 0 else 1 + bit_len (n div 2))"
  by pat_completeness auto
termination by (relation "measure nat") auto

declare bit_len.simps [simp del]

definition pow2 :: "int \<Rightarrow> rat" where
  "pow2 e = (if 0 \<le> e then 2 ^ nat e else 1 / 2 ^ nat (- e))"

text \<open>The exponent that puts a positive rational between two to the 52 and to the 53.\<close>

definition dbl_exp :: "rat \<Rightarrow> int" where
  "dbl_exp q =
     (let (a, b) = quotient_of q; e = bit_len a - bit_len b - 53
      in if q / pow2 e < 2 ^ 53 then e else e + 1)"

definition dbl :: "rat \<Rightarrow> rat" where
  "dbl q =
     (if q = 0 then 0
      else (let e = dbl_exp \<bar>q\<bar> in sgn q * of_int (half_even (\<bar>q\<bar> / pow2 e)) * pow2 e))"

definition fadd :: "rat \<Rightarrow> rat \<Rightarrow> rat" where "fadd x y = dbl (x + y)"
definition fmul :: "rat \<Rightarrow> rat \<Rightarrow> rat" where "fmul x y = dbl (x * y)"

lemma half_even_err: "\<bar>of_int (half_even x) - x\<bar> \<le> 1/2"
proof -
  define f where "f = \<lfloor>x\<rfloor>"
  have f: "of_int f \<le> x" "x < of_int f + 1" unfolding f_def by linarith+
  have "half_even x = f \<or> half_even x = f + 1" and "half_even x = f \<longrightarrow> x - of_int f \<le> 1/2"
    and "half_even x = f + 1 \<longrightarrow> 1/2 \<le> x - of_int f"
    unfolding half_even_def f_def[symmetric] Let_def by (simp_all split: if_splits)
  then show ?thesis using f by (auto simp: abs_if)
qed

lemma pow2_pos [simp]: "0 < pow2 e"
  by (simp add: pow2_def)

lemma pow2_nonneg [simp]: "0 \<le> pow2 e"
  by (rule less_imp_le[OF pow2_pos])

lemma pow2_Suc: "pow2 (e + 1) = 2 * pow2 e"
proof (cases "0 \<le> e")
  case True
  then show ?thesis by (simp add: pow2_def nat_add_distrib)
next
  case False
  then have "nat (- e) = Suc (nat (- (e + 1)))" by simp
  then show ?thesis using False by (cases "e = -1") (simp_all add: pow2_def)
qed

lemma bit_len_bounds: "0 < n \<Longrightarrow> pow2 (bit_len n - 1) \<le> of_int n \<and> of_int n < pow2 (bit_len n) \<and> 0 < bit_len n"
proof (induction n rule: bit_len.induct)
  case (1 n)
  let ?m = "n div 2"
  show ?case
  proof (cases "?m = 0")
    case True
    with "1.prems" have "n = 1" by linarith
    then show ?thesis by (simp add: bit_len.simps pow2_def)
  next
    case False
    with "1.prems" have m: "0 < ?m" by linarith
    then have IH: "pow2 (bit_len ?m - 1) \<le> of_int ?m" "of_int ?m < pow2 (bit_len ?m)" "0 < bit_len ?m"
      using 1 by auto
    have b: "bit_len n = 1 + bit_len ?m" using "1.prems" by (subst bit_len.simps) simp
    have d: "2 * ?m \<le> n" "n \<le> 2 * ?m + 1" by linarith+
    have p: "pow2 (bit_len ?m) = 2 * pow2 (bit_len ?m - 1)" using pow2_Suc[of "bit_len ?m - 1"] by simp
    have p': "pow2 (1 + bit_len ?m) = 2 * pow2 (bit_len ?m)" using pow2_Suc[of "bit_len ?m"] by (simp add: add.commute)
    have q: "pow2 (bit_len ?m) = of_int (2 ^ nat (bit_len ?m))" using IH(3) by (simp add: pow2_def)
    have "?m < 2 ^ nat (bit_len ?m)" using IH(2) unfolding q of_int_less_iff .
    then have "n < 2 * 2 ^ nat (bit_len ?m)" using d by linarith
    then have u: "(of_int n :: rat) < pow2 (bit_len n)"
      unfolding b p' q by (metis of_int_less_iff of_int_mult of_int_numeral)
    have "(of_int (2 * ?m) :: rat) \<le> of_int n" using d(1) by (simp only: of_int_le_iff)
    then have l: "pow2 (bit_len n - 1) \<le> of_int n" using IH(1) p unfolding b by simp
    show ?thesis using u l IH(3) b by simp
  qed
qed

lemma pow2_add: "pow2 (a + b) = pow2 a * pow2 b"
proof -
  have nn: "pow2 (a + int n) = pow2 a * pow2 (int n)" for a n
  proof (induction n)
    case 0
    then show ?case by (simp add: pow2_def)
  next
    case (Suc n)
    then show ?case using pow2_Suc[of "a + int n"] pow2_Suc[of "int n"] by (simp add: algebra_simps)
  qed
  have inv: "pow2 (- int n) * pow2 (int n) = 1" for n using nn[of "- int n" n] by (simp add: pow2_def)
  show ?thesis
  proof (cases "0 \<le> b")
    case True
    then show ?thesis using nn[of a "nat b"] by simp
  next
    case False
    have "pow2 a = pow2 (a + b) * pow2 (- b)" using nn[of "a + b" "nat (- b)"] False by simp
    moreover have "pow2 b * pow2 (- b) = 1" using inv[of "nat (- b)"] False by simp
    ultimately show ?thesis by (metis mult.assoc mult.commute mult.right_neutral)
  qed
qed

text \<open>The significand has at least 53 bits, so rounding changes little.\<close>

lemma dbl_exp_low: "0 < q \<Longrightarrow> 2 ^ 52 * pow2 (dbl_exp q) \<le> q"
proof -
  assume q: "0 < q"
  obtain a b where ab: "quotient_of q = (a, b)" by fastforce
  then have b: "0 < b" and qab: "q = of_int a / of_int b"
    by (rule quotient_of_denom_pos, rule quotient_of_div)
  then have a: "0 < a" using q by (simp add: zero_less_divide_iff)
  have A: "pow2 (bit_len a - 1) \<le> of_int a" and B: "of_int b < pow2 (bit_len b)"
    using bit_len_bounds[OF a] bit_len_bounds[OF b] by auto
  define e where "e = bit_len a - bit_len b - 53"
  have E: "dbl_exp q = (if q / pow2 e < 2 ^ 53 then e else e + 1)"
    by (simp add: dbl_exp_def ab Let_def e_def)
  have 52: "pow2 52 = 2 ^ 52" by (simp add: pow2_def)
  show ?thesis
  proof (cases "q / pow2 e < 2 ^ 53")
    case True
    have "2 ^ 52 * pow2 e * of_int b \<le> 2 ^ 52 * pow2 e * pow2 (bit_len b)"
      by (rule mult_left_mono[OF less_imp_le[OF B]]) simp
    also have "\<dots> = pow2 (52 + e + bit_len b)" by (simp add: pow2_add 52)
    also have "\<dots> = pow2 (bit_len a - 1)" by (simp add: e_def)
    also have "\<dots> \<le> of_int a" by (rule A)
    finally have "2 ^ 52 * pow2 e \<le> of_int a / of_int b" using b by (simp add: pos_le_divide_eq)
    then show ?thesis using True by (simp only: E qab[symmetric] if_True)
  next
    case False
    then have "2 ^ 53 * pow2 e \<le> q" by (simp add: pos_divide_less_eq not_less)
    then show ?thesis using False by (simp add: E pow2_Suc)
  qed
qed

lemma dbl_err: "\<bar>dbl q - q\<bar> \<le> \<bar>q\<bar> / 2 ^ 53"
proof (cases "q = 0")
  case False
  define e where "e = dbl_exp \<bar>q\<bar>"
  let ?m = "of_int (half_even (\<bar>q\<bar> / pow2 e)) :: rat"
  have q: "sgn q * \<bar>q\<bar> = q" by (rule sgn_mult_abs)
  have "dbl q - q = sgn q * (?m * pow2 e) - sgn q * \<bar>q\<bar>"
    using False unfolding q by (simp add: dbl_def Let_def e_def)
  then have "dbl q - q = sgn q * (?m * pow2 e - \<bar>q\<bar>)" by (simp only: right_diff_distrib)
  then have "\<bar>dbl q - q\<bar> = \<bar>?m * pow2 e - \<bar>q\<bar>\<bar>" using False by (simp add: abs_mult abs_sgn_eq)
  also have "\<dots> = \<bar>?m - \<bar>q\<bar> / pow2 e\<bar> * pow2 e"
  proof -
    have "?m * pow2 e - \<bar>q\<bar> = (?m - \<bar>q\<bar> / pow2 e) * pow2 e"
      using less_imp_neq[OF pow2_pos[of e]] by (simp add: left_diff_distrib)
    then show ?thesis by (simp only: abs_mult abs_of_nonneg[OF pow2_nonneg])
  qed
  also have "\<dots> \<le> 1 / 2 * pow2 e" by (intro mult_right_mono half_even_err less_imp_le pow2_pos)
  also have "\<dots> \<le> \<bar>q\<bar> / 2 ^ 53" using dbl_exp_low[of "\<bar>q\<bar>"] False by (simp add: e_def)
  finally show ?thesis .
qed (simp add: dbl_def)

text \<open>\<open>near d x q\<close>: the relative distance of \<open>x\<close> from \<open>q\<close> is at most \<open>d\<close>.\<close>

definition near :: "rat \<Rightarrow> rat \<Rightarrow> rat \<Rightarrow> bool" where
  "near d x q \<longleftrightarrow> \<bar>x - q\<bar> \<le> d * \<bar>q\<bar>"

lemma near_exact: "near 0 q q"
  by (simp add: near_def)

lemma near_dbl: "near d x q \<Longrightarrow> near (d + (1 + d) / 2 ^ 53) (dbl x) q"
proof -
  assume n: "near d x q"
  have "\<bar>x\<bar> \<le> (1 + d) * \<bar>q\<bar>" using n by (simp add: near_def algebra_simps)
  then have "\<bar>x\<bar> / 2 ^ 53 \<le> (1 + d) / 2 ^ 53 * \<bar>q\<bar>" by simp
  moreover have "\<bar>dbl x - q\<bar> \<le> \<bar>dbl x - x\<bar> + \<bar>x - q\<bar>" by simp
  ultimately have "\<bar>dbl x - q\<bar> \<le> (1 + d) / 2 ^ 53 * \<bar>q\<bar> + d * \<bar>q\<bar>"
    using dbl_err[of x] n unfolding near_def by linarith
  then show ?thesis by (simp only: near_def distrib_right add.commute)
qed

lemma near_mult:
  assumes "near d x q" and "near e y r"
  shows "near (d + e + d * e) (x * y) (q * r)"
proof -
  have eq: "x * y - q * r = (x - q) * (y - r) + q * (y - r) + (x - q) * r" by (simp add: algebra_simps)
  have "\<bar>(x - q) * (y - r)\<bar> \<le> (d * \<bar>q\<bar>) * (e * \<bar>r\<bar>)"
    unfolding abs_mult using assms by (intro mult_mono) (auto simp: near_def intro: order_trans[OF abs_ge_zero])
  moreover have "\<bar>q * (y - r)\<bar> \<le> \<bar>q\<bar> * (e * \<bar>r\<bar>)"
    unfolding abs_mult using assms by (intro mult_left_mono) (auto simp: near_def)
  moreover have "\<bar>(x - q) * r\<bar> \<le> (d * \<bar>q\<bar>) * \<bar>r\<bar>"
    unfolding abs_mult using assms by (intro mult_right_mono) (auto simp: near_def)
  ultimately have "\<bar>x * y - q * r\<bar> \<le> (d * \<bar>q\<bar>) * (e * \<bar>r\<bar>) + \<bar>q\<bar> * (e * \<bar>r\<bar>) + (d * \<bar>q\<bar>) * \<bar>r\<bar>"
    unfolding eq by linarith
  then show ?thesis by (simp add: near_def abs_mult algebra_simps)
qed

lemma near_mono: "near d x q \<Longrightarrow> d \<le> e \<Longrightarrow> near e x q"
  unfolding near_def by (meson abs_ge_zero mult_right_mono order_trans)

end
