(* ===== verification/Embench.thy ===== *)
theory Embench
  imports PyIO PyFloat
begin

text \<open>
  \<^verbatim>\<open>bin/run_embench.py\<close>, which builds and runs the Embench suite, and
  \<^verbatim>\<open>tests/embench/pylib/run_corev32.py\<close>, the module the suite calls for every benchmark.
  Processes, directories and log files answer through \<open>emb_world\<close>; what the script does is
  the list of its effects.
\<close>

subsection \<open>Arguments, paths and surroundings\<close>

record emb_args =
  ea_core :: string
  ea_ccomp :: string
  ea_parallel :: string
  ea_type :: string
  ea_build_only :: string
  ea_target :: rat
  ea_cpu_mhz :: string
  ea_timeout :: string
  ea_simulator :: string

text \<open>
  A process returns its output, or \<^verbatim>\<open>subprocess.run\<close> raises; a directory that
  cannot be listed raises; a log file that the pattern of its kind finds has a modification time,
  or is gone when it is asked for, and may be readable.
\<close>

record emb_world =
  ew_version :: "int \<times> int"
  ew_script_dir :: string
  ew_cwd :: string
  ew_exists :: "string \<Rightarrow> bool"
  ew_run :: "string list \<Rightarrow> string option"
  ew_listdir :: "string \<Rightarrow> string list res"
  ew_logs :: "string \<Rightarrow> (string \<times> rat option) list"
  ew_readable :: "string \<Rightarrow> bool"
  ew_writable :: "string \<Rightarrow> bool"

datatype emb_effect =
    RunCmd "string list" "string option"
  | ReadLog string
  | WriteYaml string string
  | TargetMet
  | TargetMissed rat

record emb_paths =
  p_libcfg :: string
  p_libpy :: string
  p_emb_logs :: string
  p_make :: string
  p_embench :: string
  p_emcfg :: string
  p_empy :: string
  p_embrd :: string
  p_emres :: string
  p_bsp :: string
  p_testsem :: string

definition build_paths :: "emb_world \<Rightarrow> string \<Rightarrow> emb_paths" where
  "build_paths w core =
     (let cver = abspath (ew_cwd w) (path_join (ew_script_dir w) [''..'']);
          corep = cver @ ''/'' @ core;
          embench = corep @ ''/vendor_lib'' @ ''/embench'';
          emcfg = embench @ ''/config/corev32''
      in \<lparr>p_libcfg = corep @ ''/tests/embench/config/corev32'', p_libpy = corep @ ''/tests/embench/pylib'',
          p_emb_logs = corep @ ''/vendor_lib/embench/logs'', p_make = corep @ ''/sim/uvmt'',
          p_embench = embench, p_emcfg = emcfg, p_empy = embench @ ''/pylib'',
          p_embrd = emcfg @ ''/boards/corev32'', p_emres = embench @ ''/bd/src'',
          p_bsp = corep @ ''/bsp'', p_testsem = corep @ ''/tests/programs/embench''\<rparr>)"

text \<open>The logger has another name, so the message of the version check raises.\<close>

definition check_python_version :: "int \<times> int \<Rightarrow> int \<Rightarrow> int \<Rightarrow> unit res" where
  "check_python_version v major minor =
     (if fst v < major \<or> (fst v = major \<and> snd v < minor) then Inl (NameError ''log'') else Inr ())"

definition yes_no :: "string \<Rightarrow> bool res" where
  "yes_no s = (if s = ''YES'' then Inr True else if s = ''NO'' then Inr False else Inl (SystemExit 1))"

text \<open>Whether to simulate in parallel, and whether to build only.\<close>

definition check_args :: "emb_args \<Rightarrow> (bool \<times> bool) res" where
  "check_args args =
     (if ea_core args = ''notset'' then Inl (SystemExit 1)
      else if ea_ccomp args = ''notset'' then Inl (SystemExit 1)
      else if ea_type args \<noteq> ''speed'' \<and> ea_type args \<noteq> ''size'' then Inl (SystemExit 1)
      else bindE (yes_no (ea_parallel args)) (\<lambda>par.
           bindE (yes_no (ea_build_only args)) (\<lambda>only. Inr (par, only))))"

subsection \<open>Log files and verdicts\<close>

text \<open>The log file touched last, among those of a kind.\<close>

definition latest_step :: "rat \<times> string option \<Rightarrow> string \<times> rat option \<Rightarrow> (rat \<times> string option) res" where
  "latest_step acc f =
     (case snd f of
        None \<Rightarrow> Inl OSError
      | Some mtime \<Rightarrow> Inr (if fst acc < mtime then (mtime, Some (fst f)) else acc))"

definition get_log_file :: "emb_world \<Rightarrow> string \<Rightarrow> string option res" where
  "get_log_file w log_type = bindE (foldE latest_step (0, None) (ew_logs w log_type)) (\<lambda>acc. Inr (snd acc))"

definition read_log :: "emb_world \<Rightarrow> string option \<Rightarrow> (emb_effect, unit) io" where
  "read_log w f =
     (case f of None \<Rightarrow> liftIO (Inl TypeError)
      | Some p \<Rightarrow> if ew_readable w p then doIO (ReadLog p) else liftIO (Inl OSError))"

definition build_passed :: "string \<Rightarrow> bool" where
  "build_passed out = (re_search (rlit ''All benchmarks built successfully'') out \<noteq> None)"

definition run_passed :: "string \<Rightarrow> string \<Rightarrow> bool" where
  "run_passed out type =
     (if type = ''speed'' then re_search (rlit ''All benchmarks run successfully'') out \<noteq> None
      else re_search (rlit ''All benchmarks sized successfully'') out \<noteq> None)"

definition MEAN_RE :: regex where
  "MEAN_RE = rseq [rlit ''Geometric mean'', RRep (\<lambda>c. c = CHR '' '') 0 None,
     RGroup ''1'' (RRep is_digit 1 None), rchar (\<lambda>c. c = CHR ''.''), RGroup ''2'' (RRep is_digit 1 None)]"

text \<open>\<^verbatim>\<open>int(a) + int(b) * 0.01\<close> in floats.\<close>

definition mean_value :: "string \<Rightarrow> string \<Rightarrow> rat" where
  "mean_value a b =
     fadd (dbl (of_nat (digits_val 10 a))) (fmul (dbl (of_nat (digits_val 10 b))) (dbl (1 / 100)))"

definition check_result :: "string \<Rightarrow> rat \<Rightarrow> string \<Rightarrow> bool res" where
  "check_result out tgt type =
     (case re_search MEAN_RE out of
        None \<Rightarrow> Inl (AttributeError ''group'')
      | Some m \<Rightarrow> (let result = mean_value (group ''1'' m) (group ''2'' m)
          in Inr (if type = ''speed'' then tgt = 0 \<or> tgt \<le> result else tgt = 0 \<or> result \<le> tgt)))"

subsection \<open>The phases of the script\<close>

text \<open>A process whose failure to start is only logged.\<close>

definition try_run :: "string list \<Rightarrow> string option \<Rightarrow> (emb_effect, unit) io" where
  "try_run cmd cwd = doIO (RunCmd cmd cwd)"

text \<open>A process whose failure to start ends the script.\<close>

definition must_run :: "emb_world \<Rightarrow> string list \<Rightarrow> (emb_effect, unit) io" where
  "must_run w cmd =
     bindIO (doIO (RunCmd cmd None)) (\<lambda>u. if ew_run w cmd = None then liftIO (Inl (SystemExit 1)) else retIO ())"

definition copy_bsp :: "emb_world \<Rightarrow> emb_paths \<Rightarrow> (emb_effect, unit) io" where
  "copy_bsp w p =
     bindIO (liftIO (ew_listdir w (p_bsp p))) (\<lambda>files.
       forIO (\<lambda>f. if py_endswith f ''.S'' \<or> py_endswith f ''.c'' \<or> py_endswith f ''.h''
                  then try_run [''cp'', p_bsp p @ ''/'' @ f, p_embrd p] None else retIO ()) files)"

definition emb_setup :: "emb_world \<Rightarrow> emb_args \<Rightarrow> emb_paths \<Rightarrow> (emb_effect, unit) io" where
  "emb_setup w args p =
     (if ew_exists w (p_emcfg p)
      then try_run [''find'', ''.'', ''!'', ''-path'', ''.'', ''!'', ''-path'', ''./README.md'', ''-delete'']
             (Some (p_testsem p))
      else bindIO (try_run [''cp'', ''-R'', p_libcfg p, p_emcfg p] None) (\<lambda>u.
           bindIO (if ea_type args = ''speed'' then copy_bsp w p else retIO ()) (\<lambda>u.
             try_run [''ln'', ''-s'', p_libpy p @ ''/run_corev32.py'', p_empy p @ ''/run_corev32.py''] None)))"

definition build_cmd :: "emb_args \<Rightarrow> emb_paths \<Rightarrow> string list" where
  "build_cmd args p =
     [''build_all.py'', ''--arch=corev32'', ''--board=corev32'', ''--cflags=-I'' @ p_bsp p,
      ''--chip='' @ ea_type args, ''--cc='' @ ea_ccomp args, ''--warmup-heat=0'',
      ''--cpu-mhz='' @ ea_cpu_mhz args, ''--ldflags=-T'' @ p_bsp p @ ''/link.ld'', ''--clean'']"

text \<open>
  When the build script does not start, its result is never bound, and using it raises
  after the log has been printed.
\<close>

definition build_phase :: "emb_world \<Rightarrow> emb_args \<Rightarrow> emb_paths \<Rightarrow> (emb_effect, unit) io" where
  "build_phase w args p =
     bindIO (doIO (RunCmd (build_cmd args p) (Some (p_embench p)))) (\<lambda>u.
     bindIO (liftIO (get_log_file w ''build'')) (\<lambda>log_file.
     bindIO (read_log w log_file) (\<lambda>u.
       case ew_run w (build_cmd args p) of
         None \<Rightarrow> liftIO (Inl (NameError ''res''))
       | Some out \<Rightarrow> if build_passed out then retIO () else liftIO (Inl (SystemExit 1)))))"

text \<open>One test directory per benchmark, with its first file that is not an object file.\<close>

definition make_test_dir :: "emb_world \<Rightarrow> emb_paths \<Rightarrow> string \<Rightarrow> (emb_effect, unit) io" where
  "make_test_dir w p folder =
     (let dir = p_testsem p @ ''/emb_'' @ folder; src = p_emres p @ ''/'' @ folder in
      bindIO (must_run w [''mkdir'', dir]) (\<lambda>u.
      bindIO (liftIO (ew_listdir w src)) (\<lambda>files.
      bindIO (case filter (\<lambda>f. \<not> py_endswith f ''.o'') files of
                [] \<Rightarrow> retIO ()
              | f # fs \<Rightarrow> must_run w [''cp'', src @ ''/'' @ f, dir @ ''/emb_'' @ f @ ''.elf'']) (\<lambda>u.
      if ew_writable w dir then doIO (WriteYaml dir (''emb_'' @ folder)) else liftIO (Inl OSError)))))"

definition make_tests :: "emb_world \<Rightarrow> emb_args \<Rightarrow> emb_paths \<Rightarrow> (emb_effect, unit) io" where
  "make_tests w args p =
     (if ea_type args = ''speed''
      then bindIO (liftIO (ew_listdir w (p_emres p))) (\<lambda>fs. forIO (make_test_dir w p) fs)
      else retIO ())"

definition bench_cmd :: "emb_args \<Rightarrow> bool \<Rightarrow> emb_paths \<Rightarrow> string list" where
  "bench_cmd args par p =
     (if ea_type args = ''speed''
      then [''benchmark_speed.py'', ''--target-module=run_corev32'', ''--cpu-mhz='' @ ea_cpu_mhz args,
            ''--make-path='' @ p_make p, ''--timeout='' @ ea_timeout args,
            ''--simulator='' @ ea_simulator args] @ (if par then [''--sim-parallel''] else [])
      else [''benchmark_size.py''])"

definition report_target :: "string \<Rightarrow> rat \<Rightarrow> string \<Rightarrow> (emb_effect, unit) io" where
  "report_target out tgt type =
     bindIO (liftIO (check_result out tgt type)) (\<lambda>met.
       if met \<and> tgt \<noteq> 0 then doIO TargetMet
       else if tgt \<noteq> 0 then doIO (TargetMissed tgt)
       else retIO ())"

definition run_phase :: "emb_world \<Rightarrow> emb_args \<Rightarrow> bool \<Rightarrow> emb_paths \<Rightarrow> (emb_effect, unit) io" where
  "run_phase w args par p =
     bindIO (doIO (RunCmd (bench_cmd args par p) (Some (p_embench p)))) (\<lambda>u.
     case ew_run w (bench_cmd args par p) of
       None \<Rightarrow> liftIO (Inl (SystemExit 1))
     | Some out \<Rightarrow>
         if \<not> run_passed out (ea_type args)
         then bindIO (liftIO (get_log_file w (ea_type args))) (\<lambda>log_file. liftIO (Inl (SystemExit 1)))
         else bindIO (liftIO (get_log_file w (ea_type args))) (\<lambda>log_file.
              bindIO (read_log w log_file) (\<lambda>u.
                report_target out (ea_target args) (ea_type args))))"

text \<open>
  The script: a normal return is exit status 0, and so is the exit of a build-only run.
\<close>

definition run_embench :: "emb_world \<Rightarrow> emb_args \<Rightarrow> (emb_effect, unit) io" where
  "run_embench w args =
     (let p = build_paths w (ea_core args) in
      bindIO (liftIO (check_python_version (ew_version w) 3 6)) (\<lambda>u.
      bindIO (liftIO (check_args args)) (\<lambda>(par, only).
      bindIO (emb_setup w args p) (\<lambda>u.
      bindIO (build_phase w args p) (\<lambda>u.
      bindIO (make_tests w args p) (\<lambda>u.
      if only then liftIO (Inl (SystemExit 0)) else run_phase w args par p))))))"

subsection \<open>The module for the suite\<close>

record cv32_args =
  ta_cpu_mhz :: int
  ta_make_path :: string
  ta_simulator :: string

text \<open>The global \<^verbatim>\<open>cpu_per\<close> is unbound until a command has been built.\<close>

definition build_benchmark_cmd :: "string \<Rightarrow> cv32_args \<Rightarrow> rat option \<Rightarrow> (string list \<times> rat option) res" where
  "build_benchmark_cmd bench args cpu_per =
     (if ta_cpu_mhz args = 0 then Inl ZeroDivisionError
      else Inr ([''make'', ''-C'', ta_make_path args, ''test'', ''TEST=emb_'' @ bench, ''COMP=0'',
                 ''SIMULATOR='' @ ta_simulator args, ''USE_ISS=NO''],
                Some (dbl (1 / of_int (ta_cpu_mhz args * 1000000)))))"

definition RES_RE :: regex where
  "RES_RE = rseq [rlit ''RES: '', RGroup ''1'' (RRep is_digit 1 None)]"

definition decode_results :: "string \<Rightarrow> rat option \<Rightarrow> rat res" where
  "decode_results out cpu_per =
     (if re_search (rlit ''SIMULATION PASSED'') out = None then Inr 0
      else (case re_search RES_RE out of
          None \<Rightarrow> Inr 0
        | Some m \<Rightarrow> (case cpu_per of
              None \<Rightarrow> Inl (NameError ''cpu_per'')
            | Some per \<Rightarrow> Inr (fmul (fmul (dbl (of_nat (digits_val 10 (group ''1'' m)))) per) 1000))))"

end
