(* ===== verification/EmbenchProps.thy ===== *)
theory EmbenchProps
  imports Embench
begin

text \<open>
  What the Embench scripts guarantee: when the run starts at all, what exit status 0 means,
  what the target changes, and how exact the scores are.
\<close>

subsection \<open>Arguments and exit status\<close>

definition args_valid :: "emb_args \<Rightarrow> bool" where
  "args_valid a \<longleftrightarrow> ea_core a \<noteq> ''notset'' \<and> ea_ccomp a \<noteq> ''notset'' \<and> ea_type a \<in> {''speed'', ''size''}
     \<and> ea_parallel a \<in> {''YES'', ''NO''} \<and> ea_build_only a \<in> {''YES'', ''NO''}"

lemma yes_no_eq: "yes_no s = (if s \<in> {''YES'', ''NO''} then Inr (s = ''YES'') else Inl (SystemExit 1))"
  by (simp add: yes_no_def)

lemma check_args_eq:
  "check_args a = (if args_valid a then Inr (ea_parallel a = ''YES'', ea_build_only a = ''YES'') else Inl (SystemExit 1))"
  by (auto simp: check_args_def args_valid_def yes_no_eq)

lemma check_args_target: "check_args (a\<lparr>ea_target := t\<rparr>) = check_args a"
  by (simp add: check_args_def)

definition ex_emb_world :: emb_world where
  "ex_emb_world = \<lparr>ew_version = (3, 9), ew_script_dir = ''/dv/bin'', ew_cwd = ''/'', ew_exists = (\<lambda>p. False),
     ew_run = (\<lambda>c. Some ''All benchmarks built successfully All benchmarks run successfully Geometric mean  1.10''),
     ew_listdir = (\<lambda>d. Inr [''crc32'']), ew_logs = (\<lambda>t. [(''a.log'', Some 2), (''b.log'', Some 1)]),
     ew_readable = (\<lambda>p. True), ew_writable = (\<lambda>p. True)\<rparr>"

definition ex_emb_args :: emb_args where
  "ex_emb_args = \<lparr>ea_core = ''cv32e40x'', ea_ccomp = ''gcc'', ea_parallel = ''NO'', ea_type = ''speed'',
     ea_build_only = ''NO'', ea_target = 1, ea_cpu_mhz = ''1'', ea_timeout = ''3600'', ea_simulator = ''xrun''\<rparr>"

text \<open>
  C26: arguments that are not complete and valid end the script with status 1 before it has
  started a process or touched a file; valid ones pass the check with the two flags.
\<close>

theorem embench_checks_args_first:
  assumes "check_python_version (ew_version w) 3 6 = Inr ()"
  shows "(run_embench w args = ([], Inl (SystemExit 1)) \<longleftrightarrow> \<not> args_valid args)
    \<and> (args_valid args \<longrightarrow> check_args args = Inr (ea_parallel args = ''YES'', ea_build_only args = ''YES''))"
proof -
  have "fst (run_embench w args) \<noteq> []" if "args_valid args"
  proof -
    have "\<exists>e es r. emb_setup w args p = (e # es, r)" for p
      by (simp add: emb_setup_def try_run_def doIO_def)
    then have "fst (emb_setup w args p) \<noteq> []" for p by (metis fst_conv list.distinct(1))
    then show ?thesis using assms that
      by (auto simp: run_embench_def check_args_eq Let_def bindIO_def liftIO_def split: sum.splits)
  qed
  then show ?thesis using assms by (auto simp: run_embench_def check_args_eq Let_def liftIO_def)
qed

theorem embench_checks_args_first_witness:
  "run_embench ex_emb_world (ex_emb_args\<lparr>ea_parallel := ''maybe''\<rparr>) = ([], Inl (SystemExit 1))
   \<and> check_args ex_emb_args = Inr (False, False)"
proof -
  have v: "check_python_version (ew_version ex_emb_world) 3 6 = Inr ()" by code_simp
  have "\<not> args_valid (ex_emb_args\<lparr>ea_parallel := ''maybe''\<rparr>)" "args_valid ex_emb_args" by code_simp+
  then show ?thesis
    using embench_checks_args_first[OF v] by (simp add: ex_emb_args_def)
qed

lemma target_irrelevant:
  "emb_setup w (args\<lparr>ea_target := t\<rparr>) p = emb_setup w args p"
  "build_phase w (args\<lparr>ea_target := t\<rparr>) p = build_phase w args p"
  "make_tests w (args\<lparr>ea_target := t\<rparr>) p = make_tests w args p"
  "bench_cmd (args\<lparr>ea_target := t\<rparr>) par p = bench_cmd args par p"
  by (simp_all add: emb_setup_def build_phase_def build_cmd_def make_tests_def bench_cmd_def)

definition target_message :: "string \<Rightarrow> string \<Rightarrow> rat \<Rightarrow> unit res \<Rightarrow> emb_effect list" where
  "target_message out type tgt r =
     (if r \<noteq> Inr () \<or> tgt = 0 then []
      else if check_result out tgt type = Inr True then [TargetMet] else [TargetMissed tgt])"

lemma report_target_eq:
  "report_target out tgt type = (let r = snd (report_target out 0 type) in (target_message out type tgt r, r))"
  by (cases "re_search MEAN_RE out")
    (auto simp: report_target_def check_result_def target_message_def Let_def doIO_def retIO_def liftIO_def)

lemma no_message: "target_message out type t (Inl e) = []"
  by (simp add: target_message_def)

text \<open>A computation that does not depend on the target, followed by one that ends with a message.\<close>

lemma bindIO_message:
  assumes "\<And>x. snd m = Inr x \<Longrightarrow> \<exists>es r. \<forall>t. f t x = (es @ target_message out type t r, r)"
  shows "\<exists>es r. \<forall>t. bindIO m (f t) = (es @ target_message out type t r, r)"
proof (cases "snd m")
  case (Inl e)
  then have "bindIO m (f t) = (fst m @ target_message out type t (Inl e), Inl e)" for t
    by (simp add: bindIO_def no_message)
  then show ?thesis by blast
next
  case (Inr x)
  then obtain es r where "\<forall>t. f t x = (es @ target_message out type t r, r)" using assms by blast
  then have "bindIO m (f t) = ((fst m @ es) @ target_message out type t r, r)" for t
    using Inr by (simp add: bindIO_def)
  then show ?thesis by blast
qed

lemma constant_message:
  "snd m \<noteq> Inr () \<Longrightarrow> \<exists>es r. \<forall>t. m = (es @ target_message out type t r, r)"
  by (cases m; cases "snd m") (auto simp: no_message)

lemma run_phase_message:
  "\<exists>es r. \<forall>t. run_phase w (args\<lparr>ea_target := t\<rparr>) par p =
     (es @ target_message (the (ew_run w (bench_cmd args par p))) (ea_type args) t r, r)"
proof (cases "ew_run w (bench_cmd args par p)")
  case None
  then show ?thesis unfolding run_phase_def target_irrelevant
    by (intro bindIO_message) (simp add: constant_message)
next
  case (Some out)
  have report: "\<exists>es r. \<forall>t. report_target out t (ea_type args) = (es @ target_message out (ea_type args) t r, r)"
    using report_target_eq[of out _ "ea_type args"] by (metis append_Nil)
  have out: "the (ew_run w (bench_cmd args par p)) = out" using Some by simp
  show ?thesis
  proof (cases "run_passed out (ea_type args)")
    case True
    show ?thesis unfolding run_phase_def target_irrelevant Some out
      by (intro bindIO_message) (simp add: True, intro bindIO_message report)
  next
    case False
    show ?thesis unfolding run_phase_def target_irrelevant Some out
      by (intro bindIO_message) (simp add: False, intro bindIO_message constant_message, simp)
  qed
qed

text \<open>
  C25: the target changes nothing but the last message.  Whatever the target is, the script
  has the same effects in the same order and ends in the same way, and only a run that returns
  and has a target other than zero adds, at the end, that the target was met or missed, by the
  verdict on the benchmark script's output.
\<close>

theorem embench_target_only_reported:
  "\<exists>es r. \<forall>t. run_embench w (args\<lparr>ea_target := t\<rparr>) =
     (es @ target_message (the (ew_run w (bench_cmd args (ea_parallel args = ''YES'') (build_paths w (ea_core args)))))
             (ea_type args) t r, r)"
proof -
  let ?p = "build_paths w (ea_core args)" and ?par = "ea_parallel args = ''YES''" and ?only = "ea_build_only args = ''YES''"
  have c: "ea_core (args\<lparr>ea_target := t\<rparr>) = ea_core args" for t by simp
  have flags: "snd (liftIO (check_args args)) = Inr x \<Longrightarrow> x = (?par, ?only)" for x
    by (simp add: check_args_eq split: if_splits)
  have last: "\<exists>es r. \<forall>t. (if ?only then liftIO (Inl (SystemExit 0)) else run_phase w (args\<lparr>ea_target := t\<rparr>) ?par ?p) =
      (es @ target_message (the (ew_run w (bench_cmd args ?par ?p))) (ea_type args) t r, r)"
    by (cases ?only) (simp_all add: run_phase_message constant_message)
  show ?thesis
    unfolding run_embench_def Let_def check_args_target target_irrelevant c
    by (rule bindIO_message, rule bindIO_message, drule flags, simp only: split_conv)
      (intro bindIO_message last)
qed

text \<open>No phase but the last ends with status 0.\<close>

definition lists_or_fails :: "emb_world \<Rightarrow> bool" where
  "lists_or_fails w \<longleftrightarrow> (\<forall>d e. ew_listdir w d = Inl e \<longrightarrow> e = OSError)"

lemmas io_end = snd_bindIO bindE_eq_Inl

lemma try_run_end [simp]: "snd (try_run cmd d) = Inr ()"
  by (simp add: try_run_def)

lemma setup_end: "lists_or_fails w \<Longrightarrow> snd (emb_setup w args p) \<noteq> Inl (SystemExit 0)"
proof
  assume l: "lists_or_fails w" and "snd (emb_setup w args p) = Inl (SystemExit 0)"
  then have "snd (copy_bsp w p) = Inl (SystemExit 0)"
    by (auto simp: emb_setup_def io_end split: if_splits)
  then obtain files where "snd (forIO (\<lambda>f. if py_endswith f ''.S'' \<or> py_endswith f ''.c'' \<or> py_endswith f ''.h''
      then try_run [''cp'', p_bsp p @ ''/'' @ f, p_embrd p] None else retIO ()) files) = Inl (SystemExit 0)"
    using l by (auto simp: copy_bsp_def io_end lists_or_fails_def)
  from forIO_Inl[OF this] show False by (auto split: if_splits)
qed

lemma read_log_end: "snd (read_log w f) = Inl e \<Longrightarrow> e = TypeError \<or> e = OSError"
  by (auto simp: read_log_def split: option.splits if_splits)

lemma get_log_file_end: "get_log_file w k = Inl e \<Longrightarrow> e = OSError"
  by (auto simp: get_log_file_def bindE_eq_Inl latest_step_def dest!: foldE_Inl split: option.splits)

lemma build_phase_end: "snd (build_phase w args p) \<noteq> Inl (SystemExit 0)"
  by (auto simp: build_phase_def io_end dest: read_log_end get_log_file_end split: option.splits if_splits)

lemma run_phase_end: "snd (run_phase w args par p) \<noteq> Inl (SystemExit 0)"
proof -
  have "snd (report_target out tgt type) \<noteq> Inl (SystemExit 0)" for out tgt type
    by (auto simp: report_target_def io_end check_result_def Let_def split: option.splits if_splits)
  then show ?thesis
    by (auto simp: run_phase_def io_end dest: read_log_end get_log_file_end split: option.splits if_splits)
qed

lemma must_run_end: "snd (must_run w cmd) = Inl e \<Longrightarrow> e = SystemExit 1"
  by (auto simp: must_run_def split: if_splits)

lemma make_test_dir_end: "lists_or_fails w \<Longrightarrow> snd (make_test_dir w p folder) \<noteq> Inl (SystemExit 0)"
  by (auto simp: make_test_dir_def Let_def io_end lists_or_fails_def dest!: must_run_end split: list.splits if_splits)

lemma make_tests_end: "lists_or_fails w \<Longrightarrow> snd (make_tests w args p) \<noteq> Inl (SystemExit 0)"
  using make_test_dir_end forIO_Inl
  by (fastforce simp: make_tests_def io_end lists_or_fails_def split: if_splits)

lemma passed_iff:
  "build_passed out \<longleftrightarrow> py_contains ''All benchmarks built successfully'' out"
  "run_passed out type \<longleftrightarrow> py_contains (if type = ''speed'' then ''All benchmarks run successfully''
     else ''All benchmarks sized successfully'') out"
  by (simp_all only: build_passed_def run_passed_def re_search_rlit split: if_split) simp_all

lemma build_phase_Inr:
  assumes "build_phase w args p = (es, Inr u)"
  shows "RunCmd (build_cmd args p) (Some (p_embench p)) \<in> set es \<and>
    (\<exists>out. ew_run w (build_cmd args p) = Some out \<and> py_contains ''All benchmarks built successfully'' out)"
proof -
  have "snd (build_phase w args p) = Inr u" and es: "es = fst (build_phase w args p)" using assms by simp_all
  then have "\<exists>out. ew_run w (build_cmd args p) = Some out \<and> build_passed out"
    by (auto simp: build_phase_def snd_bindIO bindE_eq_Inr split: option.splits if_splits)
  then show ?thesis by (auto simp: es build_phase_def passed_iff)
qed

lemma run_phase_Inr:
  assumes "run_phase w args par p = (es, Inr u)"
  shows "RunCmd (bench_cmd args par p) (Some (p_embench p)) \<in> set es \<and>
    (\<exists>out. ew_run w (bench_cmd args par p) = Some out \<and>
       py_contains (if ea_type args = ''speed'' then ''All benchmarks run successfully''
         else ''All benchmarks sized successfully'') out)"
proof -
  have "snd (run_phase w args par p) = Inr u" and es: "es = fst (run_phase w args par p)" using assms by simp_all
  then have "\<exists>out. ew_run w (bench_cmd args par p) = Some out \<and> run_passed out (ea_type args)"
    by (auto simp: run_phase_def snd_bindIO bindE_eq_Inr split: option.splits if_splits)
  then show ?thesis unfolding passed_iff by (simp add: es run_phase_def)
qed

text \<open>Whether a benchmark script was started; the phases before the last do not start one.\<close>

definition starts_bench :: "emb_effect \<Rightarrow> bool" where
  "starts_bench e \<longleftrightarrow>
     (case e of RunCmd c d \<Rightarrow> hd c = ''benchmark_speed.py'' \<or> hd c = ''benchmark_size.py'' | _ \<Rightarrow> False)"

lemma io_no_bench:
  "e \<in> set (fst (try_run c d)) \<Longrightarrow> starts_bench e \<longleftrightarrow> hd c = ''benchmark_speed.py'' \<or> hd c = ''benchmark_size.py''"
  "e \<in> set (fst (must_run w c)) \<Longrightarrow> starts_bench e \<longleftrightarrow> hd c = ''benchmark_speed.py'' \<or> hd c = ''benchmark_size.py''"
  "e \<in> set (fst (read_log w f)) \<Longrightarrow> \<not> starts_bench e"
  by (auto simp: try_run_def must_run_def read_log_def starts_bench_def split: option.splits if_splits)

lemma setup_no_bench: "e \<in> set (fst (emb_setup w args p)) \<Longrightarrow> \<not> starts_bench e"
proof -
  have "e \<in> set (fst (copy_bsp w p)) \<Longrightarrow> \<not> starts_bench e" for e
    by (auto simp: copy_bsp_def io_no_bench dest!: bindIO_effects forIO_effects split: if_splits)
  then show "e \<in> set (fst (emb_setup w args p)) \<Longrightarrow> \<not> starts_bench e"
    by (auto simp: emb_setup_def io_no_bench dest!: bindIO_effects split: if_splits)
qed

lemma build_no_bench: "e \<in> set (fst (build_phase w args p)) \<Longrightarrow> \<not> starts_bench e"
  unfolding build_phase_def
  by (auto simp: io_no_bench starts_bench_def build_cmd_def dest!: bindIO_effects split: option.splits if_splits)
     (auto dest!: io_no_bench(3) simp: starts_bench_def)

lemma make_tests_no_bench: "e \<in> set (fst (make_tests w args p)) \<Longrightarrow> \<not> starts_bench e"
proof -
  have "e \<in> set (fst (make_test_dir w p f)) \<Longrightarrow> \<not> starts_bench e" for e f
    by (auto simp: make_test_dir_def Let_def io_no_bench dest!: bindIO_effects split: list.splits if_splits)
       (auto simp: starts_bench_def)
  then show "e \<in> set (fst (make_tests w args p)) \<Longrightarrow> \<not> starts_bench e"
    by (auto simp: make_tests_def dest!: bindIO_effects forIO_effects split: if_splits)
qed

lemma run_embench_phases:
  assumes "run_embench w args = (es, r)" and "r = Inr () \<or> r = Inl (SystemExit 0)" and "lists_or_fails w"
  defines "p \<equiv> build_paths w (ea_core args)" and "par \<equiv> ea_parallel args = ''YES''"
  shows "\<exists>as bs cs ds. build_phase w args p = (bs, Inr ()) \<and> es = as @ bs @ cs @ ds
    \<and> list_all (\<lambda>e. \<not> starts_bench e) (as @ bs @ cs)
    \<and> (if ea_build_only args = ''YES'' then r = Inl (SystemExit 0) \<and> ds = []
       else r = Inr () \<and> run_phase w args par p = (ds, Inr ()))"
proof -
  obtain as ra where s: "emb_setup w args p = (as, ra)" by fastforce
  obtain bs rb where b: "build_phase w args p = (bs, rb)" by fastforce
  obtain cs rc where c: "make_tests w args p = (cs, rc)" by fastforce
  have v: "check_python_version (ew_version w) 3 6 = Inr ()" and a: "args_valid args"
    using assms(1,2) by (auto simp: run_embench_def check_python_version_def check_args_eq Let_def liftIO_def
        split: if_splits)
  let ?only = "ea_build_only args = ''YES''"
  let ?last = "if ?only then liftIO (Inl (SystemExit 0)) else run_phase w args par p"
  have run: "(es, r) = bindIO (as, ra) (\<lambda>u. bindIO (bs, rb) (\<lambda>u. bindIO (cs, rc) (\<lambda>u. ?last)))"
    using assms(1) v a by (simp add: run_embench_def check_args_eq Let_def s b c flip: p_def par_def)
  have "ra = Inr ()" using run assms(2) setup_end[OF assms(3), of args p] s by (cases ra) auto
  moreover from this have "rb = Inr ()" using run assms(2) build_phase_end[of w args p] b by (cases rb) auto
  moreover from calculation have "rc = Inr ()"
    using run assms(2) make_tests_end[OF assms(3), of args p] c by (cases rc) auto
  ultimately have es: "es = as @ bs @ cs @ fst ?last" and r: "r = snd ?last" using run by simp_all
  have "list_all (\<lambda>e. \<not> starts_bench e) (as @ bs @ cs)"
    using setup_no_bench[of _ w args p] build_no_bench[of _ w args p] make_tests_no_bench[of _ w args p] s b c
    by (auto simp: list_all_iff)
  moreover have "if ?only then r = Inl (SystemExit 0) \<and> fst ?last = []
      else r = Inr () \<and> run_phase w args par p = (fst ?last, Inr ())"
    using r assms(2) run_phase_end[of w args par p] by (auto simp: prod_eq_iff)
  ultimately show ?thesis using b \<open>rb = Inr ()\<close> es by blast
qed

text \<open>
  C3: exit status 0 means that the work was done.  When the script returns or exits with
  status 0, the build script was run and reported that all benchmarks were built.  If only
  building was asked for, the script exited with status 0 and started no benchmark script;
  otherwise it returned, and the benchmark script was run and reported that all benchmarks were
  run or sized.  Listing a directory is assumed to fail only with an operating-system error.
\<close>

theorem embench_success_means_passed:
  assumes "run_embench w args = (es, r)" and "r = Inr () \<or> r = Inl (SystemExit 0)" and "lists_or_fails w"
    and "p = build_paths w (ea_core args)" and "par = (ea_parallel args = ''YES'')"
  shows "(\<exists>out. ew_run w (build_cmd args p) = Some out \<and> py_contains ''All benchmarks built successfully'' out)
    \<and> RunCmd (build_cmd args p) (Some (p_embench p)) \<in> set es
    \<and> (if ea_build_only args = ''YES''
       then r = Inl (SystemExit 0) \<and> list_all (\<lambda>e. \<not> starts_bench e) es
       else r = Inr () \<and> RunCmd (bench_cmd args par p) (Some (p_embench p)) \<in> set es
         \<and> (\<exists>out. ew_run w (bench_cmd args par p) = Some out
            \<and> py_contains (if ea_type args = ''speed'' then ''All benchmarks run successfully''
                           else ''All benchmarks sized successfully'') out))"
proof -
  obtain as bs cs ds where b: "build_phase w args p = (bs, Inr ())" and es: "es = as @ bs @ cs @ ds"
    and n: "list_all (\<lambda>e. \<not> starts_bench e) (as @ bs @ cs)"
    and d: "if ea_build_only args = ''YES'' then r = Inl (SystemExit 0) \<and> ds = []
       else r = Inr () \<and> run_phase w args par p = (ds, Inr ())"
    using run_embench_phases[OF assms(1-3)] assms(4,5) by blast
  show ?thesis using build_phase_Inr[OF b] run_phase_Inr[of w args par p ds] n d es by (auto split: if_splits)
qed

theorem embench_success_means_passed_witness:
  "\<exists>es. run_embench ex_emb_world ex_emb_args = (es, Inr ())
    \<and> RunCmd (bench_cmd ex_emb_args False (build_paths ex_emb_world ''cv32e40x''))
        (Some (p_embench (build_paths ex_emb_world ''cv32e40x''))) \<in> set es"
proof -
  have "is_ok (snd (run_embench ex_emb_world ex_emb_args))" by code_simp
  then obtain es u where e: "run_embench ex_emb_world ex_emb_args = (es, Inr u)"
    by (metis is_ok_Inr prod.collapse)
  have l: "lists_or_fails ex_emb_world" by (simp add: lists_or_fails_def ex_emb_world_def)
  have p: "build_paths ex_emb_world ''cv32e40x'' = build_paths ex_emb_world (ea_core ex_emb_args)"
    "False = (ea_parallel ex_emb_args = ''YES'')" by (simp_all add: ex_emb_args_def)
  have "ea_build_only ex_emb_args \<noteq> ''YES''" by (simp add: ex_emb_args_def)
  then show ?thesis using embench_success_means_passed[OF e _ l p] e by simp
qed

subsection \<open>Log files\<close>

lemma latest_loop:
  "case foldE latest_step acc fs of
      Inl e \<Rightarrow> e = OSError \<and> (\<exists>n. (n, None) \<in> set fs)
    | Inr (m, lf) \<Rightarrow> fst acc \<le> m \<and> list_all (\<lambda>f. \<exists>t. snd f = Some t \<and> t \<le> m) fs
        \<and> ((m, lf) = acc \<or> fst acc < m \<and> (\<exists>n. lf = Some n \<and> (n, Some m) \<in> set fs))"
proof (induction fs arbitrary: acc)
  case Nil
  then show ?case by (cases acc) simp
next
  case (Cons f fs)
  show ?case
  proof (cases "snd f")
    case None
    then have "(fst f, None) = f" by (simp add: prod_eq_iff)
    then show ?thesis using None by (auto simp: latest_step_def)
  next
    case (Some t)
    then have f: "f = (fst f, Some t)" by (simp add: prod_eq_iff)
    let ?acc = "if fst acc < t then (t, Some (fst f)) else acc"
    show ?thesis using Cons.IH[of ?acc] Some f
      by (auto simp: latest_step_def list_all_iff split: sum.splits if_splits)
  qed
qed

text \<open>
  C36: the log that is shown is the one touched last.  Of the files of a kind, the function
  returns one with the latest modification time, no file exactly when there is none touched
  after the epoch, and raises only if a file is gone when its time is asked for.
\<close>

theorem embench_latest_log:
  "case get_log_file w kind of
      Inl e \<Rightarrow> e = OSError \<and> (\<exists>n. (n, None) \<in> set (ew_logs w kind))
    | Inr None \<Rightarrow> list_all (\<lambda>f. \<exists>t. snd f = Some t \<and> t \<le> 0) (ew_logs w kind)
    | Inr (Some n) \<Rightarrow> \<exists>m. 0 < m \<and> (n, Some m) \<in> set (ew_logs w kind)
        \<and> list_all (\<lambda>f. \<exists>t. snd f = Some t \<and> t \<le> m) (ew_logs w kind)"
proof (cases "foldE latest_step (0, None) (ew_logs w kind)")
  case (Inl e)
  then show ?thesis using latest_loop[where acc = "(0, None)" and fs = "ew_logs w kind"] by (simp add: get_log_file_def)
next
  case (Inr acc)
  then show ?thesis using latest_loop[where acc = "(0, None)" and fs = "ew_logs w kind"]
    by (cases acc) (auto simp: get_log_file_def split: option.splits)
qed

subsection \<open>Scores\<close>

lemma digit_val_le: "digit_val c \<le> 15"
proof (cases "map_of (zip ''0123456789abcdef'' [0..<16]) c")
  case (Some d)
  then have "d \<in> set [0..<16]" by (metis in_set_zipE map_of_SomeD)
  then show ?thesis unfolding digit_val_def Some by simp
next
  case None
  then show ?thesis unfolding digit_val_def None by simp
qed

lemma digits_val_two: "length s = 2 \<Longrightarrow> digits_val 10 s \<le> 165"
proof -
  assume "length s = 2"
  then obtain a b where "s = [a, b]" by (auto simp: length_Suc_conv numeral_2_eq_2)
  then show ?thesis using digit_val_le[of a] digit_val_le[of b] by (simp add: digits_val_def)
qed

lemma mean_value_near:
  assumes "A = digits_val 10 a" and "B = digits_val 10 b" and "A \<le> 1000000" and "B \<le> 165"
  shows "\<bar>mean_value a b - (of_nat A + of_nat B / 100)\<bar> \<le> 1 / 10 ^ 9"
proof -
  define q where "q = (of_nat B * (1 / 100) :: rat)"
  define x where "x = dbl (of_nat A)"
  define p where "p = fmul (dbl (of_nat B)) (dbl (1 / 100))"
  have A: "0 \<le> (of_nat A :: rat)" "(of_nat A :: rat) \<le> 1000000" using assms(3) by simp_all
  have B: "0 \<le> q" "q \<le> 2" using assms(4) by (simp_all add: q_def)
  let ?e = "(1 / 2 ^ 53 :: rat)"
  have "near ?e (dbl (of_nat B)) (of_nat B)" using near_dbl[OF near_exact, of "of_nat B"] by simp
  moreover have "near ?e (dbl (1 / 100)) (1 / 100)" using near_dbl[OF near_exact, of "1 / 100"] by simp
  ultimately have "near (?e + ?e + ?e * ?e) (dbl (of_nat B) * dbl (1 / 100)) (of_nat B * (1 / 100))"
    by (rule near_mult)
  from near_dbl[OF this] have "near (1 / 2 ^ 51) p q"
    unfolding p_def fmul_def q_def by (rule near_mono) simp
  then have p: "\<bar>p - q\<bar> \<le> 1 / 2 ^ 50" using B by (simp add: near_def)
  have x: "\<bar>x - of_nat A\<bar> \<le> 1000000 / 2 ^ 53"
    using dbl_err[of "of_nat A"] A by (simp add: x_def)
  have s: "\<bar>dbl (x + p) - (x + p)\<bar> \<le> \<bar>x + p\<bar> / 2 ^ 53" by (rule dbl_err)
  have "1 / 2 ^ 50 \<le> (1 :: rat)" "1000000 / 2 ^ 53 \<le> (1 :: rat)" by simp_all
  then have "x + p \<le> 1000004" "- (x + p) \<le> 1000004"
    using abs_le_D1[OF p] abs_le_D2[OF p] abs_le_D1[OF x] abs_le_D2[OF x] A B by linarith+
  then have "\<bar>x + p\<bar> \<le> 1000004" by (rule abs_leI)
  then have "\<bar>dbl (x + p) - (x + p)\<bar> \<le> 1000004 / 2 ^ 53" using s by simp
  then have "\<bar>dbl (x + p) - (of_nat A + q)\<bar> \<le> 1000004 / 2 ^ 53 + 1000000 / 2 ^ 53 + 1 / 2 ^ 50"
    using p x by linarith
  then have "\<bar>dbl (x + p) - (of_nat A + q)\<bar> \<le> 1 / 10 ^ 9" by (rule order_trans) simp
  then show ?thesis by (simp add: mean_value_def fadd_def x_def p_def q_def assms(1,2))
qed

text \<open>
  C27: for a score printed with two decimals the verdict on a target is the comparison of
  the decimal numbers, whenever the target is not within a billionth of the score.
\<close>

theorem embench_verdict:
  assumes "re_search MEAN_RE out = Some m" and "length (group ''2'' m) = 2"
    and "digits_val 10 (group ''1'' m) \<le> 1000000"
    and "score = of_nat (digits_val 10 (group ''1'' m)) + of_nat (digits_val 10 (group ''2'' m)) / 100"
    and "tgt \<noteq> 0" and "1 / 10 ^ 9 < \<bar>tgt - score\<bar>"
  shows "check_result out tgt type = Inr (if type = ''speed'' then tgt \<le> score else score \<le> tgt)"
proof -
  let ?r = "mean_value (group ''1'' m) (group ''2'' m)"
  have "\<bar>?r - score\<bar> \<le> 1 / 10 ^ 9"
    unfolding assms(4) by (rule mean_value_near[OF refl refl assms(3) digits_val_two[OF assms(2)]])
  then have "tgt \<le> ?r \<longleftrightarrow> tgt \<le> score" and "?r \<le> tgt \<longleftrightarrow> score \<le> tgt"
    using assms(6) by (auto simp: abs_if split: if_splits)
  then show ?thesis using assms(1,5) by (simp add: check_result_def Let_def)
qed

theorem embench_verdict_witness:
  "check_result ''Geometric mean   1.36'' (135 / 100) ''speed'' = Inr True"
proof -
  let ?o = "''Geometric mean   1.36''"
  define m where "m = the (re_search MEAN_RE ?o)"
  have "re_search MEAN_RE ?o \<noteq> None" by code_simp
  then have m: "re_search MEAN_RE ?o = Some m" by (simp add: m_def)
  have g: "group ''1'' m = ''1''" "group ''2'' m = ''36''" unfolding m_def by code_simp+
  have d: "digits_val 10 ''1'' = 1" "digits_val 10 ''36'' = 36" by code_simp+
  show ?thesis using embench_verdict[OF m _ _ refl, of "135 / 100" "''speed''"] by (simp add: g d)
qed

text \<open>
  At the target itself the two decimals are not enough: the fraction is multiplied by the float
  nearest to a hundredth, and a score equal to the target can be reported as missed.
\<close>

lemma verdict_at_target:
  "check_result ''Geometric mean   1.36'' (dbl (136 / 100)) ''speed'' = Inr False"
  "check_result ''Geometric mean   0.35'' (dbl (35 / 100)) ''size'' = Inr False"
  "check_result ''Geometric mean   1.37'' (dbl (137 / 100)) ''speed'' = Inr True"
  by code_simp+

text \<open>
  C28: a command that was built fixes the clock period, and decoding the output of a passing
  run that prints its cycle count then gives the elapsed milliseconds, cycles over a thousand
  times the clock in megahertz, up to the rounding of four float operations.
\<close>

theorem embench_decode_ms:
  assumes "build_benchmark_cmd bench args per0 = Inr (cmd, per)" and "0 < ta_cpu_mhz args"
    and "py_contains ''SIMULATION PASSED'' out" and "re_search RES_RE out = Some m"
    and "ms = of_nat (digits_val 10 (group ''1'' m)) / (1000 * of_int (ta_cpu_mhz args))"
  shows "\<exists>t. decode_results out per = Inr t \<and> \<bar>t - ms\<bar> \<le> ms / 2 ^ 50"
proof -
  let ?e = "(1 / 2 ^ 53 :: rat)"
  define n where "n = (of_nat (digits_val 10 (group ''1'' m)) :: rat)"
  define q where "q = (1 / of_int (ta_cpu_mhz args * 1000000) :: rat)"
  have per: "per = Some (dbl q)" using assms(1,2) by (auto simp: build_benchmark_cmd_def q_def split: if_splits)
  have "near ?e (dbl n) n" using near_dbl[OF near_exact, of n] by simp
  moreover have "near ?e (dbl q) q" using near_dbl[OF near_exact, of q] by simp
  ultimately have "near (?e + ?e + ?e * ?e) (dbl n * dbl q) (n * q)" by (rule near_mult)
  from near_dbl[OF this] have "near (7 / 2 ^ 54) (fmul (dbl n) (dbl q)) (n * q)"
    unfolding fmul_def by (rule near_mono) simp
  then have "near (7 / 2 ^ 54) (fmul (dbl n) (dbl q) * 1000) (n * q * 1000)"
    using near_mult[OF _ near_exact[of 1000]] by fastforce
  from near_dbl[OF this] have "near (1 / 2 ^ 50) (fmul (fmul (dbl n) (dbl q)) 1000) (n * q * 1000)"
    unfolding fmul_def[of _ 1000] by (rule near_mono) simp
  moreover have "n * q * 1000 = ms" and "0 \<le> ms"
    using assms(2) by (simp_all add: assms(5) n_def q_def)
  ultimately have "\<bar>fmul (fmul (dbl n) (dbl q)) 1000 - ms\<bar> \<le> ms / 2 ^ 50" by (simp add: near_def)
  moreover have "re_search (rlit ''SIMULATION PASSED'') out \<noteq> None"
    using assms(3) unfolding re_search_rlit .
  ultimately show ?thesis using assms(4) per by (auto simp: decode_results_def n_def)
qed

theorem embench_decode_ms_witness:
  "\<exists>t. decode_results ''RES: 5000 SIMULATION PASSED'' (Some (dbl (1 / 1000000))) = Inr t \<and> \<bar>t - 5\<bar> \<le> 5 / 2 ^ 50"
proof -
  let ?o = "''RES: 5000 SIMULATION PASSED''"
  let ?a = "\<lparr>ta_cpu_mhz = 1, ta_make_path = [], ta_simulator = ''xrun''\<rparr>"
  define m where "m = the (re_search RES_RE ?o)"
  have "re_search RES_RE ?o \<noteq> None" by code_simp
  then have m: "re_search RES_RE ?o = Some m" by (simp add: m_def)
  have g: "group ''1'' m = ''5000''" unfolding m_def by code_simp
  have d: "digits_val 10 ''5000'' = 5000" by code_simp
  have p: "py_contains ''SIMULATION PASSED'' ?o" by code_simp
  have b: "build_benchmark_cmd [] ?a None = Inr (fst (the (Some ([''make'', ''-C'', [], ''test'', ''TEST=emb_'', ''COMP=0'',
      ''SIMULATOR=xrun'', ''USE_ISS=NO''], ()))), Some (dbl (1 / 1000000)))"
    by (simp add: build_benchmark_cmd_def)
  show ?thesis using embench_decode_ms[OF b _ p m refl] by (simp add: g d)
qed

end
