(* ===== verification/CiCheck.thy ===== *)
theory CiCheck
  imports PyIO
begin

text \<open>
  \<^verbatim>\<open>bin/ci_check\<close>: the sanity regression before a pull request.  It takes its commands
  from \<^verbatim>\<open>.metrics.json\<close> and a regression YAML, runs or prints them, and reads the
  results out of the log files.  The files, the shell and the user answer through
  \<open>ci_world\<close>; module variables that may not be bound yet are options.
\<close>

subsection \<open>Surroundings\<close>

record ci_args =
  ci_simulator :: "string option"
  ci_core :: string
  ci_debug :: bool
  ci_print :: bool
  ci_check_only :: bool
  ci_keep :: bool
  ci_verilator :: bool
  ci_no_uvm :: bool
  ci_iss :: "string option"
  ci_repo :: "string option"
  ci_branch :: "string option"
  ci_hash :: "string option"

text \<open>The answers of the greps are the lines they print.\<close>

record ci_world =
  cw_topdir :: string
  cw_cwd :: string
  cw_results :: "string option"
  cw_exists :: "string \<Rightarrow> bool"
  cw_isdir :: "string \<Rightarrow> bool"
  cw_which :: "string \<Rightarrow> bool"
  cw_answer :: string
  cw_metrics :: "pyval dict res"
  cw_yaml :: "string \<Rightarrow> pyval res"
  cw_fails :: "string list"
  cw_passes :: "string list"
  cw_core_lines :: "string list"

datatype verdict =
    NoUvmLogs
  | WrongCount int nat
  | AllPassed
  | KnownFailures
  | UnknownFailures
  | NoSimDir
  | NoCoreLogs
  | CorePassed
  | CoreFailed

datatype ci_effect =
    Chdir string
  | System string
  | PrintCmd string
  | AskUser
  | ResultLine string
  | Verdict verdict

definition core_tests :: "string list" where
  "core_tests = [''misalign'', ''illegal'', ''dhrystone'', ''fibonacci'', ''riscv_ebreak_test_0'']"

definition uvm_results_dir :: "ci_world \<Rightarrow> ci_args \<Rightarrow> string" where
  "uvm_results_dir w a =
     abspath (cw_cwd w) (case cw_results w of Some d \<Rightarrow> d
       | None \<Rightarrow> path_join (cw_topdir w) [py_lower (ci_core a), ''sim/uvmt''])"

definition sim_results_dir :: "ci_world \<Rightarrow> ci_args \<Rightarrow> string" where
  "sim_results_dir w a =
     abspath (cw_cwd w) (path_join (uvm_results_dir w a)
       [(case ci_simulator a of None \<Rightarrow> ''None'' | Some s \<Rightarrow> s) @ ''_results''])"

subsection \<open>Reading results\<close>

definition rjust :: "nat \<Rightarrow> string \<Rightarrow> string" where
  "rjust n s = replicate (n - length s) (CHR '' '') @ s"

text \<open>
  A result line is a path, a colon and a verdict.  A name without a colon loses its last
  character, as the index of the missing colon is -1.
\<close>

definition pr_result :: "string \<Rightarrow> string res" where
  "pr_result line =
     (let rline = py_rstrip line in
      if re_search (rlit ''SIMULATION'') rline = None then Inl (SystemExit 1)
      else (let r = last (split_on (CHR ''/'') rline); iii = py_find (CHR '':'') r;
                name = (if iii < 0 then drop_last 1 r else take (nat iii) r)
            in Inr (rjust 40 name @ '' : '' @ rjust 7 (drop (length r - 7) r))))"

definition print_results :: "string list \<Rightarrow> (ci_effect, unit) io" where
  "print_results = forIO (\<lambda>l. bindIO (liftIO (pr_result l)) (\<lambda>s. doIO (ResultLine s)))"

definition expected_failure :: "string \<Rightarrow> bool" where
  "expected_failure line = (re_search (rlit ''riscv_compliance'') line \<noteq> None)"

definition uvm_verdict :: "bool \<Rightarrow> int option \<Rightarrow> nat \<Rightarrow> nat \<Rightarrow> nat \<Rightarrow> verdict res" where
  "uvm_verdict check_only num_tests fails expected passes =
     (let rest = (if fails = 0 \<and> 3 \<le> passes then AllPassed
                  else if fails = expected then KnownFailures else UnknownFailures)
      in if passes = 0 then Inr NoUvmLogs
         else if check_only then Inr rest
         else (case num_tests of
                 None \<Rightarrow> Inl (NameError ''num_tests'')
               | Some n \<Rightarrow> Inr (if int (passes + fails) \<noteq> n then WrongCount n (fails + passes) else rest)))"

definition check_uvm_results :: "ci_world \<Rightarrow> ci_args \<Rightarrow> bool \<Rightarrow> int option \<Rightarrow> (ci_effect, unit) io" where
  "check_uvm_results w a check_only num_tests =
     (if \<not> cw_exists w (sim_results_dir w a) then doIO (Verdict NoSimDir)
      else bindIO (print_results (cw_fails w)) (\<lambda>u.
           bindIO (print_results (cw_passes w)) (\<lambda>u.
           bindIO (liftIO (uvm_verdict check_only num_tests (length (cw_fails w))
             (length (filter expected_failure (cw_fails w))) (length (cw_passes w)))) (\<lambda>v.
             doIO (Verdict v)))))"

definition check_core_results :: "ci_world \<Rightarrow> int \<Rightarrow> (ci_effect, unit) io" where
  "check_core_results w run_count =
     (if run_count = 0 then doIO (Verdict NoCoreLogs)
      else bindIO (forIO (\<lambda>l. doIO (ResultLine (py_rstrip l))) (cw_core_lines w)) (\<lambda>u.
           doIO (Verdict (if run_count - int (length (cw_core_lines w)) = 0 then CorePassed else CoreFailed))))"

subsection \<open>Commands\<close>

definition chdir :: "ci_world \<Rightarrow> string \<Rightarrow> (ci_effect, unit) io" where
  "chdir w d = (if cw_isdir w d then doIO (Chdir d) else liftIO (Inl OSError))"

text \<open>A command is run from the top directory, or only printed.\<close>

definition run_or_print :: "ci_world \<Rightarrow> ci_args \<Rightarrow> string \<Rightarrow> (ci_effect, unit) io" where
  "run_or_print w a cmd =
     (if ci_print a \<or> ci_debug a then doIO (PrintCmd cmd)
      else bindIO (doIO (System cmd)) (\<lambda>u. chdir w (cw_topdir w)))"

definition str_of :: "pyval \<Rightarrow> string \<Rightarrow> string res" where
  "str_of v attr = (case v of VStr s \<Rightarrow> Inr s | _ \<Rightarrow> Inl (AttributeError attr))"

text \<open>The simulator is unbound when Verilator was chosen.\<close>

definition svtool :: "ci_args \<Rightarrow> string res" where
  "svtool a = (if ci_verilator a then Inl (NameError ''svtool'')
     else (case ci_simulator a of None \<Rightarrow> Inl (NameError ''svtool'') | Some s \<Rightarrow> Inr s))"

definition opt_arg :: "string \<Rightarrow> string option \<Rightarrow> string" where
  "opt_arg name x = (if given x then name @ the x else [])"

definition trim_build_cmd :: "string \<Rightarrow> string" where
  "trim_build_cmd cmd =
     py_replace '' SIM_RESULTS=/mux-flow/build/results'' []
       (py_replace '' DSIM_WORK=/mux-flow/build/repo/dsim_work'' []
         (py_join '' '' (drop_last 1 (split_ws cmd))))"

definition ci_build_step :: "ci_world \<Rightarrow> ci_args \<Rightarrow> pyval \<Rightarrow> (ci_effect, unit) io" where
  "ci_build_step w a key =
     bindIO (liftIO (py_getitem key ''name'')) (\<lambda>name.
     if name \<noteq> VStr (''uvmt_'' @ py_lower (ci_core a)) then retIO ()
     else bindIO (liftIO (bindE (py_getitem key ''cmd'') (\<lambda>v. str_of v ''split''))) (\<lambda>cmd.
       let c = trim_build_cmd cmd in
       if c = [] then liftIO (Inl (SystemExit 0))
       else bindIO (liftIO (svtool a)) (\<lambda>sv.
         run_or_print w a (py_replace ''dsim'' sv c @ opt_arg '' CV_CORE_REPO='' (ci_repo a)
           @ opt_arg '' CV_CORE_BRANCH='' (ci_branch a) @ opt_arg '' CV_CORE_HASH='' (ci_hash a)))))"

definition build_list :: "pyval \<Rightarrow> pyval res" where
  "build_list v =
     (case v of
        VDict b \<Rightarrow> (case map_of b ''list'' of Some l \<Rightarrow> Inr l | None \<Rightarrow> Inl (NameError ''list_dict''))
      | VList xs \<Rightarrow> if VStr ''list'' \<in> set xs then Inl TypeError else Inl (NameError ''list_dict'')
      | VStr s \<Rightarrow> Inl (NameError ''list_dict'')
      | _ \<Rightarrow> Inl TypeError)"

definition run_builds :: "ci_world \<Rightarrow> ci_args \<Rightarrow> pyval dict \<Rightarrow> (ci_effect, unit) io" where
  "run_builds w a metrics =
     (case map_of metrics ''builds'' of
        None \<Rightarrow> retIO ()
      | Some v \<Rightarrow> bindIO (liftIO (bindE (build_list v) py_iter)) (forIO (ci_build_step w a)))"

text \<open>
  The variable \<^verbatim>\<open>num\<close>, which may not be bound yet: a number above one is taken over, a
  test without one sets it to 1, and a number that is not above one leaves the variable as the
  previous test left it.
\<close>

definition next_num :: "pyval option \<Rightarrow> pyval \<Rightarrow> pyval option res" where
  "next_num num key =
     (case py_getitem key ''num'' of
        Inl (KeyError k) \<Rightarrow> Inr (Some (VInt 1))
      | Inl e \<Rightarrow> Inl e
      | Inr (VInt n) \<Rightarrow> Inr (if 1 < n then Some (VInt n) else num)
      | Inr (VBool b) \<Rightarrow> Inr num
      | Inr (VFloat f) \<Rightarrow> Inr (if float_gt1 f then Some (VFloat f) else num)
      | Inr v \<Rightarrow> Inl TypeError)"

text \<open>\<^verbatim>\<open>range(num)\<close> of the variable: its bound, if it is bound to an integer.\<close>

definition range_of :: "pyval option \<Rightarrow> int res" where
  "range_of num = (case num of
      None \<Rightarrow> Inl (NameError ''num'')
    | Some (VInt k) \<Rightarrow> Inr k
    | Some v \<Rightarrow> Inl TypeError)"

definition iss_of :: "ci_args \<Rightarrow> pyval \<Rightarrow> pyval res" where
  "iss_of a key =
     (case ci_iss a of
        Some s \<Rightarrow> bindE (py_int s) (\<lambda>i. Inr (VInt i))
      | None \<Rightarrow> (case py_getitem key ''iss'' of Inl (KeyError k) \<Rightarrow> Inr (VInt 1) | r \<Rightarrow> r))"

definition run_cmd_text :: "string \<Rightarrow> string \<Rightarrow> string \<Rightarrow> bool \<Rightarrow> int \<Rightarrow> string" where
  "run_cmd_text dir cmd sv iss n =
     ''cd '' @ dir @ ''; '' @ cmd @ '' SIMULATOR='' @ sv @ '' GEN_START_INDEX='' @ show_int n
     @ '' RUN_INDEX='' @ show_int n @ '' USE_ISS='' @ (if iss then ''YES'' else ''NO'')"

definition known_simulators :: "string list" where
  "known_simulators = [''dsim'', ''xrun'', ''vsim'', ''riviera'', ''vcs'']"

text \<open>One iteration; simulators other than the five known ones skip commands with corev_.\<close>

definition run_once :: "ci_world \<Rightarrow> ci_args \<Rightarrow> pyval \<Rightarrow> string \<Rightarrow> pyval \<Rightarrow> int \<Rightarrow> (ci_effect, unit) io" where
  "run_once w a key cmd iss n =
     bindIO (liftIO (py_getitem key ''dir'')) (\<lambda>dir.
     bindIO (liftIO (svtool a)) (\<lambda>sv.
     let full = run_cmd_text (py_str dir) cmd sv (truthy iss) n in
     if sv \<in> set known_simulators
        \<or> re_search (rlit ''corev_'') full = None
     then run_or_print w a full else retIO ()))"

text \<open>All iterations of a test; the state is the variable and the count of the tests run.\<close>

definition ci_test_step ::
  "ci_world \<Rightarrow> ci_args \<Rightarrow> pyval option \<times> int \<Rightarrow> pyval \<Rightarrow> (ci_effect, pyval option \<times> int) io" where
  "ci_test_step w a st key =
     bindIO (liftIO (py_getitem key ''cmd'')) (\<lambda>cmd.
     if cmd = VStr [] then liftIO (Inl (SystemExit 1))
     else bindIO (liftIO (next_num (fst st) key)) (\<lambda>num.
          bindIO (liftIO (iss_of a key)) (\<lambda>iss.
          bindIO (liftIO (range_of num)) (\<lambda>k.
          bindIO (forIO (run_once w a key (py_str cmd) iss) (map int [0 ..< nat k])) (\<lambda>u.
            retIO (num, snd st + int (nat k)))))))"

primrec ci_test_loop ::
  "ci_world \<Rightarrow> ci_args \<Rightarrow> pyval option \<times> int \<Rightarrow> pyval list \<Rightarrow> (ci_effect, pyval option \<times> int) io" where
  "ci_test_loop w a st [] = retIO st"
| "ci_test_loop w a st (key # keys) = bindIO (ci_test_step w a st key) (\<lambda>st. ci_test_loop w a st keys)"

definition LIST_RE :: regex where
  "LIST_RE = rseq [rlit ''--file='', RGroup ''1'' (RRep is_word 1 None)]"

definition dict_values :: "pyval \<Rightarrow> pyval list res" where
  "dict_values v = (case v of VDict d \<Rightarrow> Inr (map snd d) | _ \<Rightarrow> Inl (AttributeError ''values''))"

definition load_tests :: "ci_world \<Rightarrow> ci_args \<Rightarrow> pyval \<Rightarrow> pyval list res" where
  "load_tests w a item =
     bindE (bindE (py_getitem item ''tests'') (\<lambda>t. py_getitem t ''listCmd'')) (\<lambda>v.
     case v of
       VStr s \<Rightarrow> (case re_search LIST_RE s of
           None \<Rightarrow> Inl (SystemExit 1)
         | Some m \<Rightarrow> bindE (cw_yaml w (path_join (cw_topdir w)
               [py_lower (ci_core a) @ ''/regress'', group ''1'' m @ ''.yaml''])) (\<lambda>y.
             bindE (py_getitem y ''tests'') dict_values))
     | _ \<Rightarrow> Inl TypeError)"

text \<open>The variables \<^verbatim>\<open>num\<close> and \<^verbatim>\<open>num_tests\<close> over the regressions of the right name.\<close>

primrec regression_loop ::
  "ci_world \<Rightarrow> ci_args \<Rightarrow> pyval option \<times> int option \<Rightarrow> pyval list \<Rightarrow> (ci_effect, pyval option \<times> int option) io" where
  "regression_loop w a st [] = retIO st"
| "regression_loop w a st (item # items) =
     bindIO (liftIO (py_getitem item ''name'')) (\<lambda>name.
     if name \<noteq> VStr (py_lower (ci_core a) @ ''_ci_check_dev'') then regression_loop w a st items
     else bindIO (liftIO (load_tests w a item)) (\<lambda>keys.
          bindIO (ci_test_loop w a (fst st, 0) keys) (\<lambda>st.
            regression_loop w a (fst st, Some (snd st)) items)))"

definition run_regressions :: "ci_world \<Rightarrow> ci_args \<Rightarrow> pyval dict \<Rightarrow> (ci_effect, int option) io" where
  "run_regressions w a metrics =
     (case map_of metrics ''regressions'' of
        None \<Rightarrow> retIO None
      | Some v \<Rightarrow> bindIO (liftIO (py_iter v)) (\<lambda>items.
          bindIO (regression_loop w a (None, None) items) (\<lambda>st. retIO (snd st))))"

subsection \<open>The script\<close>

definition sim_dir :: "ci_world \<Rightarrow> ci_args \<Rightarrow> string \<Rightarrow> string" where
  "sim_dir w a d = path_join (cw_topdir w) [py_lower (ci_core a) @ d]"

definition ask_user :: "ci_world \<Rightarrow> (ci_effect, unit) io" where
  "ask_user w = bindIO (doIO AskUser) (\<lambda>u.
     if cw_answer w = ''Y'' \<or> cw_answer w = ''y'' then retIO () else liftIO (Inl (SystemExit 1)))"

definition prepare :: "ci_world \<Rightarrow> ci_args \<Rightarrow> (ci_effect, unit) io" where
  "prepare w a =
     (if ci_print a then retIO ()
      else if ci_keep a then ask_user w
      else bindIO (ask_user w) (\<lambda>u.
           bindIO (chdir w (abspath (cw_cwd w) (path_join (cw_topdir w) [py_lower (ci_core a), ''sim/uvmt'']))) (\<lambda>u.
           bindIO (doIO (System ''make clean_all'')) (\<lambda>u.
           bindIO (chdir w (sim_dir w a ''/sim/core'')) (\<lambda>u.
           bindIO (doIO (System ''make clean_all'')) (\<lambda>u.
           chdir w (path_join2 (cw_topdir w) ''bin'')))))))"

definition verilator_cmds :: "string list" where
  "verilator_cmds = ''make'' # map (\<lambda>t. ''make veri-test TEST='' @ t) core_tests"

definition run_verilator :: "ci_world \<Rightarrow> ci_args \<Rightarrow> (ci_effect, unit) io" where
  "run_verilator w a =
     bindIO (chdir w (sim_dir w a ''/sim/core'')) (\<lambda>u.
     bindIO (if ci_print a \<or> ci_debug a then forIO (\<lambda>c. doIO (PrintCmd c)) verilator_cmds else retIO ()) (\<lambda>u.
     if \<not> ci_print a then forIO (\<lambda>c. doIO (System c)) verilator_cmds else retIO ()))"

definition core_runs :: int where
  "core_runs = int (length core_tests) + 1"

definition check_args_first :: "ci_world \<Rightarrow> ci_args \<Rightarrow> unit res" where
  "check_args_first w a =
     (if ci_core a = ''None'' then Inl (SystemExit 1)
      else if \<not> cw_exists w (path_join (cw_topdir w) [py_lower (ci_core a), ''sim/uvmt/Makefile''])
      then Inl (SystemExit 1)
      else if \<not> ci_verilator a \<and> ci_no_uvm a then Inl (SystemExit 1)
      else Inr ())"

definition check_simulator :: "ci_world \<Rightarrow> ci_args \<Rightarrow> unit res" where
  "check_simulator w a =
     (if ci_verilator a then Inr ()
      else (case ci_simulator a of
              None \<Rightarrow> Inl (SystemExit 0)
            | Some s \<Rightarrow> if cw_which w s then Inr () else Inl (SystemExit 0)))"

definition ci_run :: "ci_world \<Rightarrow> ci_args \<Rightarrow> (ci_effect, unit) io" where
  "ci_run w a =
     bindIO (liftIO (check_simulator w a)) (\<lambda>u.
     bindIO (prepare w a) (\<lambda>u.
     bindIO (chdir w (cw_topdir w)) (\<lambda>u.
     bindIO (if \<not> ci_no_uvm a
             then bindIO (liftIO (cw_metrics w)) (\<lambda>metrics.
                  bindIO (run_builds w a metrics) (\<lambda>u. run_regressions w a metrics))
             else retIO None) (\<lambda>num_tests.
     bindIO (if ci_verilator a then run_verilator w a else retIO ()) (\<lambda>u.
     bindIO (chdir w (cw_topdir w)) (\<lambda>u.
     bindIO (chdir w (path_join2 (cw_topdir w) ''bin'')) (\<lambda>u.
     if ci_print a then retIO ()
     else bindIO (if ci_verilator a then check_core_results w core_runs else retIO ()) (\<lambda>u.
          if \<not> ci_no_uvm a then check_uvm_results w a False num_tests else retIO ()))))))))"

definition ci_check :: "ci_world \<Rightarrow> ci_args \<Rightarrow> (ci_effect, unit) io" where
  "ci_check w a =
     bindIO (liftIO (check_args_first w a)) (\<lambda>u.
     if ci_check_only a
     then bindIO (if ci_verilator a then check_core_results w core_runs else retIO ()) (\<lambda>u.
          bindIO (if \<not> ci_no_uvm a then check_uvm_results w a True None else retIO ()) (\<lambda>u.
            liftIO (Inl (SystemExit 0))))
     else ci_run w a)"

end
