(* ===== verification/CiProps.thy ===== *)
theory CiProps
  imports CiCheck
begin

text \<open>
  What the sanity regression guarantees: when its verdict says that a pull request is in
  order, which commands it issues for a list of tests, and what happens to a test whose number
  of iterations is not above one.
\<close>

subsection \<open>A concrete run\<close>

definition ex_ci_world :: ci_world where
  "ex_ci_world = \<lparr>cw_topdir = ''/dv'', cw_cwd = ''/dv/bin'', cw_results = None, cw_exists = (\<lambda>p. True),
     cw_isdir = (\<lambda>p. True), cw_which = (\<lambda>p. True), cw_answer = ''y'', cw_metrics = Inr [],
     cw_yaml = (\<lambda>p. Inr VNone), cw_fails = [''/r/riscv_compliance.log: SIMULATION FAILED''],
     cw_passes = [''/r/a.log: SIMULATION PASSED''], cw_core_lines = []\<rparr>"

definition ex_ci_args :: ci_args where
  "ex_ci_args = \<lparr>ci_simulator = Some ''xrun'', ci_core = ''CV32E40X'', ci_debug = False, ci_print = False,
     ci_check_only = False, ci_keep = True, ci_verilator = False, ci_no_uvm = False, ci_iss = None,
     ci_repo = None, ci_branch = None, ci_hash = None\<rparr>"

subsection \<open>The verdict\<close>

lemma print_results_end: "print_results ls = (es, Inr u) \<Longrightarrow> Verdict v \<notin> set es"
  by (induction ls arbitrary: es) (auto simp: print_results_def bindIO_eq_Inr retIO_def doIO_def liftIO_def)

lemma uvm_verdict_good:
  assumes "uvm_verdict co nt (length fs) (length (filter P fs)) p = Inr v"
  shows "v \<in> {AllPassed, KnownFailures} \<longleftrightarrow>
    p \<noteq> 0 \<and> (co \<or> nt = Some (int (p + length fs))) \<and> list_all P fs"
proof -
  have eq: "length fs = length (filter P fs) \<longleftrightarrow> list_all P fs"
    by (metis filter_id_conv length_filter_less list_all_iff nat_neq_iff)
  show ?thesis using assms
    by (auto simp: uvm_verdict_def Let_def eq split: if_splits option.splits)
qed

text \<open>
  C6: on an existing results directory the check ends with one verdict, and it approves the
  pull request exactly when some test passed, as many tests were counted as were run (unless
  only old results are checked), and every failing line is one of the expected failures.
\<close>

theorem ci_verdict:
  assumes "check_uvm_results w a co nt = (es, Inr u)" and "cw_exists w (sim_results_dir w a)"
  shows "\<exists>ls v. es = ls @ [Verdict v] \<and> (\<forall>v'. Verdict v' \<notin> set ls)
    \<and> (v \<in> {AllPassed, KnownFailures} \<longleftrightarrow>
        cw_passes w \<noteq> [] \<and> (co \<or> nt = Some (int (length (cw_passes w) + length (cw_fails w))))
        \<and> list_all expected_failure (cw_fails w))"
proof -
  obtain as bs v where a: "print_results (cw_fails w) = (as, Inr ())" and b: "print_results (cw_passes w) = (bs, Inr ())"
    and v: "uvm_verdict co nt (length (cw_fails w)) (length (filter expected_failure (cw_fails w))) (length (cw_passes w)) = Inr v"
    and es: "es = (as @ bs) @ [Verdict v]"
    using assms by (auto simp: check_uvm_results_def bindIO_eq_Inr liftIO_def doIO_def)
  have "\<forall>v'. Verdict v' \<notin> set (as @ bs)" using print_results_end[OF a] print_results_end[OF b] by simp
  with es uvm_verdict_good[OF v] show ?thesis by auto
qed

theorem ci_verdict_witness:
  "\<exists>ls v. check_uvm_results ex_ci_world ex_ci_args False (Some 2) = (ls @ [Verdict v], Inr ())
    \<and> v \<in> {AllPassed, KnownFailures}"
proof -
  have "is_ok (snd (check_uvm_results ex_ci_world ex_ci_args False (Some 2)))" by code_simp
  then obtain es u where e: "check_uvm_results ex_ci_world ex_ci_args False (Some 2) = (es, Inr u)"
    by (metis is_ok_Inr prod.collapse)
  have x: "cw_exists ex_ci_world (sim_results_dir ex_ci_world ex_ci_args)" by (simp add: ex_ci_world_def)
  have "list_all expected_failure (cw_fails ex_ci_world)" by code_simp
  then show ?thesis using ci_verdict[OF e x] e by (auto simp: ex_ci_world_def)
qed

subsection \<open>The commands of a test list\<close>

text \<open>The commands issued, whether they were run or printed.\<close>

fun issued :: "ci_effect list \<Rightarrow> string list" where
  "issued [] = []"
| "issued (System c # es) = c # issued es"
| "issued (PrintCmd c # es) = c # issued es"
| "issued (e # es) = issued es"

lemma issued_append [simp]: "issued (es @ fs) = issued es @ issued fs"
  by (induction es rule: issued.induct) auto

lemma issued_concat: "issued (concat ess) = concat (map issued ess)"
  by (induction ess) simp_all

text \<open>
  An entry of a regression list, as \<^verbatim>\<open>regress/*.yaml\<close> has them: a mapping with a
  command, a directory, perhaps a number of iterations, perhaps a switch for the instruction
  set simulator, and any other keys (builds, description, makearg and so on).
\<close>

definition entry_cmd :: "pyval dict \<Rightarrow> string" where
  "entry_cmd d = (case map_of d ''cmd'' of Some (VStr c) \<Rightarrow> c | _ \<Rightarrow> [])"

definition entry_ok :: "pyval dict \<Rightarrow> bool" where
  "entry_ok d \<longleftrightarrow> entry_cmd d \<noteq> [] \<and> dict_has ''dir'' d"

definition entry_num :: "pyval dict \<Rightarrow> nat option" where
  "entry_num d = (case map_of d ''num'' of
      None \<Rightarrow> Some 1
    | Some (VInt n) \<Rightarrow> if 1 < n then Some (nat n) else None
    | Some v \<Rightarrow> None)"

text \<open>The command line wins over the entry, and without either the simulator is used.\<close>

definition uses_iss :: "ci_args \<Rightarrow> pyval dict \<Rightarrow> bool" where
  "uses_iss a d = (case ci_iss a of
      Some s \<Rightarrow> py_int s \<noteq> Inr 0
    | None \<Rightarrow> (case map_of d ''iss'' of None \<Rightarrow> True | Some v \<Rightarrow> truthy v))"

text \<open>The command of one iteration, written out.\<close>

definition command_of :: "ci_args \<Rightarrow> string \<Rightarrow> pyval dict \<Rightarrow> nat \<Rightarrow> string" where
  "command_of a sv d n =
     ''cd '' @ py_str (the (map_of d ''dir'')) @ ''; '' @ entry_cmd d @ '' SIMULATOR='' @ sv
     @ '' GEN_START_INDEX='' @ show_nat n @ '' RUN_INDEX='' @ show_nat n
     @ (if uses_iss a d then '' USE_ISS=YES'' else '' USE_ISS=NO'')"

definition sim_ready :: "ci_world \<Rightarrow> ci_args \<Rightarrow> string \<Rightarrow> bool" where
  "sim_ready w a sv \<longleftrightarrow> \<not> ci_verilator a \<and> ci_simulator a = Some sv \<and> cw_isdir w (cw_topdir w)
     \<and> sv \<in> set known_simulators
     \<and> (case ci_iss a of None \<Rightarrow> True | Some s \<Rightarrow> is_ok (py_int s))"

lemma run_or_print_issued:
  "cw_isdir w (cw_topdir w) \<Longrightarrow> \<exists>es. run_or_print w a c = (es, Inr ()) \<and> issued es = [c]"
  by (simp add: run_or_print_def chdir_def doIO_def)

lemma iss_of_ok:
  "sim_ready w a sv \<Longrightarrow> \<exists>v. iss_of a (VDict d) = Inr v \<and> truthy v = uses_iss a d"
  by (auto simp: iss_of_def uses_iss_def sim_ready_def is_ok_Inr split: option.splits)

lemma run_once_issued:
  assumes "sim_ready w a sv" and "entry_ok d" and "truthy iss = uses_iss a d"
  shows "\<exists>es. run_once w a (VDict d) (entry_cmd d) iss (int n) = (es, Inr ())
    \<and> issued es = [command_of a sv d n]"
proof -
  obtain v where v: "map_of d ''dir'' = Some v"
    using assms(2) by (auto simp: entry_ok_def dict_has_map_of)
  have "svtool a = Inr sv" using assms(1) by (simp add: sim_ready_def svtool_def)
  moreover have "run_cmd_text (py_str v) (entry_cmd d) sv (truthy iss) (int n) = command_of a sv d n"
    using v assms(3) by (simp add: run_cmd_text_def command_of_def show_int_def)
  ultimately show ?thesis
    using assms(1) run_or_print_issued[of w a] v by (simp add: run_once_def Let_def sim_ready_def)
qed

text \<open>What one test does once the variable has its value.\<close>

lemma ci_test_step_issued:
  assumes "sim_ready w a sv" and "entry_ok d" and "next_num num0 (VDict d) = Inr (Some (VInt k))"
  shows "\<exists>es. ci_test_step w a (num0, c) (VDict d) = (es, Inr (Some (VInt k), c + int (nat k)))
    \<and> issued es = map (command_of a sv d) [0 ..< nat k]"
proof -
  obtain v where v: "iss_of a (VDict d) = Inr v" "truthy v = uses_iss a d"
    using iss_of_ok[OF assms(1)] by blast
  let ?f = "run_once w a (VDict d) (entry_cmd d) v"
  have one: "snd (?f (int n)) = Inr () \<and> issued (fst (?f (int n))) = [command_of a sv d n]" for n
    using run_once_issued[OF assms(1,2) v(2), of n] by auto
  have loop: "forIO ?f (map int [0 ..< nat k]) = (concat (map (\<lambda>n. fst (?f n)) (map int [0 ..< nat k])), Inr ())"
    by (rule forIO_returns) (use one in auto)
  have "issued (concat (map (\<lambda>n. fst (?f n)) (map int [0 ..< nat k]))) = map (command_of a sv d) [0 ..< nat k]"
    by (simp add: issued_concat one comp_def concat_map_singleton)
  moreover have "map_of d ''cmd'' = Some (VStr (entry_cmd d))" and "entry_cmd d \<noteq> []"
    using assms(2) by (auto simp: entry_ok_def entry_cmd_def split: option.splits pyval.splits)
  ultimately show ?thesis
    by (simp add: ci_test_step_def assms(3) v(1) py_str_def range_of_def loop retIO_def del: map_map)
qed

lemma next_num_entry: "entry_num d = Some k \<Longrightarrow> next_num num0 (VDict d) = Inr (Some (VInt (int k)))"
  by (auto simp: entry_num_def next_num_def split: option.splits pyval.splits if_splits)

lemma ex_sim_ready: "sim_ready ex_ci_world ex_ci_args ''xrun''"
  by (simp add: sim_ready_def ex_ci_world_def ex_ci_args_def known_simulators_def)

text \<open>Two entries of \<^verbatim>\<open>regress/cv32e40x_ci_check.yaml\<close>.\<close>

definition ex_ci_list :: "pyval dict list" where
  "ex_ci_list =
     [[(''builds'', VList [VStr ''uvmt_cv32e40x'']), (''description'', VStr ''Interrupt random test''),
       (''dir'', VStr ''cv32e40x/sim/uvmt''), (''cmd'', VStr ''make gen_corev-dv test TEST=corev_rand_interrupt''),
       (''num'', VInt 2)],
      [(''builds'', VList [VStr ''uvmt_cv32e40x'']), (''dir'', VStr ''cv32e40x/sim/uvmt''),
       (''cmd'', VStr ''make test TEST=illegal'')]]"

text \<open>
  C29: for a list of tests that each give a number of iterations above one or none, whatever
  other keys they have and whatever ran before, the loop issues, test by test and in order,
  every iteration from 0 on: change to the test's directory, its command, the simulator of the
  command line, the iteration as the start and the run index, and \<^verbatim>\<open>USE_ISS\<close> as the command
  line says, or the test, or \<^verbatim>\<open>YES\<close> when neither does.  Nothing else is issued, and the
  count of the tests grows by the number of commands.
\<close>

theorem ci_issues_all_iterations:
  assumes "sim_ready w a sv" and "list_all (\<lambda>d. entry_ok d \<and> entry_num d \<noteq> None) ds"
  shows "\<exists>es num. ci_test_loop w a (num0, c) (map VDict ds)
      = (es, Inr (num, c + int (sum_list (map (\<lambda>d. the (entry_num d)) ds))))
    \<and> issued es = concat (map (\<lambda>d. map (command_of a sv d) [0 ..< the (entry_num d)]) ds)"
  using assms(2)
proof (induction ds arbitrary: num0 c)
  case (Cons d ds)
  then obtain k where d: "entry_ok d" and k: "entry_num d = Some k" by auto
  obtain es where es: "ci_test_step w a (num0, c) (VDict d) = (es, Inr (Some (VInt (int k)), c + int k))"
    "issued es = map (command_of a sv d) [0 ..< k]"
    using ci_test_step_issued[OF assms(1) d next_num_entry[OF k]] by auto
  obtain fs num where fs: "ci_test_loop w a (Some (VInt (int k)), c + int k) (map VDict ds)
      = (fs, Inr (num, c + int k + int (sum_list (map (\<lambda>d. the (entry_num d)) ds))))"
    "issued fs = concat (map (\<lambda>d. map (command_of a sv d) [0 ..< the (entry_num d)]) ds)"
    using Cons.IH[of "Some (VInt (int k))" "c + int k"] Cons.prems by auto
  show ?case using es fs k by (simp add: add.assoc)
qed (simp add: retIO_def)

theorem ci_issues_all_iterations_witness:
  "\<exists>es num. ci_test_loop ex_ci_world ex_ci_args (None, 0) (map VDict ex_ci_list) = (es, Inr (num, 3))
    \<and> issued es =
      [''cd cv32e40x/sim/uvmt; make gen_corev-dv test TEST=corev_rand_interrupt SIMULATOR=xrun GEN_START_INDEX=0 RUN_INDEX=0 USE_ISS=YES'',
       ''cd cv32e40x/sim/uvmt; make gen_corev-dv test TEST=corev_rand_interrupt SIMULATOR=xrun GEN_START_INDEX=1 RUN_INDEX=1 USE_ISS=YES'',
       ''cd cv32e40x/sim/uvmt; make test TEST=illegal SIMULATOR=xrun GEN_START_INDEX=0 RUN_INDEX=0 USE_ISS=YES'']"
proof -
  have ok: "list_all (\<lambda>d. entry_ok d \<and> entry_num d \<noteq> None) ex_ci_list" by code_simp
  have n: "sum_list (map (\<lambda>d. the (entry_num d)) ex_ci_list) = 3" by code_simp
  have "concat (map (\<lambda>d. map (command_of ex_ci_args ''xrun'' d) [0 ..< the (entry_num d)]) ex_ci_list) =
      [''cd cv32e40x/sim/uvmt; make gen_corev-dv test TEST=corev_rand_interrupt SIMULATOR=xrun GEN_START_INDEX=0 RUN_INDEX=0 USE_ISS=YES'',
       ''cd cv32e40x/sim/uvmt; make gen_corev-dv test TEST=corev_rand_interrupt SIMULATOR=xrun GEN_START_INDEX=1 RUN_INDEX=1 USE_ISS=YES'',
       ''cd cv32e40x/sim/uvmt; make test TEST=illegal SIMULATOR=xrun GEN_START_INDEX=0 RUN_INDEX=0 USE_ISS=YES'']"
    by code_simp
  with ci_issues_all_iterations[OF ex_sim_ready ok, of None 0] n show ?thesis by simp
qed

text \<open>
  C39: a test that gives a number of iterations which is not above one, as several lists do
  with \<^verbatim>\<open>num: 1\<close>, does not run once but as often as the test before it, whose value the
  variable still has: exactly those commands are issued and counted.  As the first test of the
  run it issues nothing and ends the script with a name error.
\<close>

theorem ci_single_iteration_repeats:
  assumes "sim_ready w a sv" and "entry_ok d" and "map_of d ''num'' = Some (VInt n)" and "n \<le> 1"
  shows "(\<exists>es. ci_test_step w a (Some (VInt k), c) (VDict d) = (es, Inr (Some (VInt k), c + int (nat k)))
      \<and> issued es = map (command_of a sv d) [0 ..< nat k])
    \<and> ci_test_step w a (None, c) (VDict d) = ([], Inl (NameError ''num''))"
proof -
  have num: "next_num m (VDict d) = Inr m" for m
    using assms(3,4) by (simp add: next_num_def)
  obtain v where "iss_of a (VDict d) = Inr v" using iss_of_ok[OF assms(1)] by blast
  moreover have "map_of d ''cmd'' = Some (VStr (entry_cmd d))" and "entry_cmd d \<noteq> []"
    using assms(2) by (auto simp: entry_ok_def entry_cmd_def split: option.splits pyval.splits)
  ultimately have "ci_test_step w a (None, c) (VDict d) = ([], Inl (NameError ''num''))"
    by (simp add: ci_test_step_def num range_of_def liftIO_def)
  with ci_test_step_issued[OF assms(1,2) num] show ?thesis by blast
qed

definition ex_ci_single :: "pyval dict" where
  "ex_ci_single =
     [(''builds'', VList [VStr ''uvmt_cv32e40x'']), (''description'', VStr ''Generated corev-dv random instruction test''),
      (''dir'', VStr ''cv32e40x/sim/uvmt''), (''cmd'', VStr ''make gen_corev-dv test TEST=corev_rand_instr_test''),
      (''num'', VInt 1)]"

theorem ci_single_iteration_repeats_witness:
  "\<exists>es. ci_test_step ex_ci_world ex_ci_args (Some (VInt 50), 50) (VDict ex_ci_single) = (es, Inr (Some (VInt 50), 100))
    \<and> length (issued es) = 50"
proof -
  have ok: "entry_ok ex_ci_single" by code_simp
  have n: "map_of ex_ci_single ''num'' = Some (VInt 1)" by (simp add: ex_ci_single_def)
  show ?thesis using ci_single_iteration_repeats[OF ex_sim_ready ok n, of 50 50] by auto
qed

end
