(* ===== verification/MetricsRegress.thy ===== *)
theory MetricsRegress
  imports PyIO
begin

text \<open>
  \<^verbatim>\<open>bin/metrics-regress\<close>: starting a regression on a server, polling until it is
  complete, polling until there is coverage, and the exit status.  The server is the sequence
  of its answers: the first to the request that starts the regression, the others to the
  polls.  A loop that the server never lets end is the value \<open>None\<close>.  The waiting time
  and the numbers printed are left out, the reading of what is printed is not.
\<close>

subsection \<open>Polling\<close>

type_synonym answer = "(int \<times> pyval) res"

partial_function (option) poll_until :: "(nat \<Rightarrow> 'r option) \<Rightarrow> nat \<Rightarrow> (nat \<times> 'r) option" where
  "poll_until f i = (case f i of Some r \<Rightarrow> Some (i, r) | None \<Rightarrow> poll_until f (Suc i))"

lemma poll_until_hits:
  "f (i + n) = Some r \<Longrightarrow> (\<And>k. k < n \<Longrightarrow> f (i + k) = None) \<Longrightarrow> poll_until f i = Some (i + n, r)"
proof (induction n arbitrary: i)
  case 0
  then show ?case by (subst poll_until.simps) simp
next
  case (Suc n)
  from Suc.prems(2)[of 0] have z: "f i = None" by simp
  have "poll_until f (Suc i) = Some (Suc i + n, r)"
  proof (rule Suc.IH)
    show "f (Suc i + n) = Some r" using Suc.prems(1) by simp
    show "f (Suc i + k) = None" if "k < n" for k using Suc.prems(2)[of "Suc k"] that by simp
  qed
  with z show ?case by (subst poll_until.simps) simp
qed

definition first_hit :: "(nat \<Rightarrow> 'r option) \<Rightarrow> nat \<Rightarrow> nat \<times> 'r \<Rightarrow> bool" where
  "first_hit f i y \<longleftrightarrow> i \<le> fst y \<and> f (fst y) = Some (snd y) \<and> (\<forall>k. i \<le> k \<longrightarrow> k < fst y \<longrightarrow> f k = None)"

lemma first_hit_Suc: "f i = None \<Longrightarrow> first_hit f (Suc i) y \<Longrightarrow> first_hit f i y"
  unfolding first_hit_def by (metis Suc_leD Suc_leI le_neq_implies_less)

lemma poll_until_first: "poll_until f i = Some y \<Longrightarrow> first_hit f i y"
proof (erule poll_until.raw_induct[rotated])
  fix p :: "(nat \<Rightarrow> 'a option) \<Rightarrow> nat \<Rightarrow> (nat \<times> 'a) option" and g n z
  assume IH: "\<And>g n z. p g n = Some z \<Longrightarrow> first_hit g n z"
    and eq: "(case g n of None \<Rightarrow> p g (Suc n) | Some r \<Rightarrow> Some (n, r)) = Some z"
  show "first_hit g n z"
  proof (cases "g n")
    case None
    have "p g (Suc n) = Some z" using None eq by simp
    then show ?thesis by (rule first_hit_Suc[of g n, OF None, OF IH])
  next
    case (Some r)
    then show ?thesis using eq by (auto simp: first_hit_def)
  qed
qed

text \<open>The loop ends exactly when some round asks it to, and then with the first such round.\<close>

lemma poll_until_iff: "poll_until f i = Some y \<longleftrightarrow> first_hit f i y"
proof
  assume "first_hit f i y"
  then have h: "i \<le> fst y" "f (fst y) = Some (snd y)" "\<And>k. i \<le> k \<Longrightarrow> k < fst y \<Longrightarrow> f k = None"
    by (auto simp: first_hit_def)
  have "poll_until f i = Some (i + (fst y - i), snd y)"
    by (rule poll_until_hits) (use h in auto)
  with h(1) show "poll_until f i = Some y" by simp
qed (rule poll_until_first)

lemma poll_until_ends: "poll_until f i \<noteq> None \<longleftrightarrow> (\<exists>k. i \<le> k \<and> f k \<noteq> None)"
proof
  assume e: "\<exists>k. i \<le> k \<and> f k \<noteq> None"
  let ?P = "\<lambda>k. i \<le> k \<and> f k \<noteq> None"
  let ?j = "LEAST k. ?P k"
  have j: "?P ?j" using e by (rule LeastI_ex)
  then obtain r where "f ?j = Some r" by blast
  moreover have "f k = None" if "i \<le> k" "k < ?j" for k using not_less_Least[OF that(2)] that(1) by blast
  ultimately have "first_hit f i (?j, r)" using j by (simp add: first_hit_def)
  then show "poll_until f i \<noteq> None" by (simp add: poll_until_iff[symmetric])
next
  assume "poll_until f i \<noteq> None"
  then obtain y where "first_hit f i y" using poll_until_iff by blast
  then show "\<exists>k. i \<le> k \<and> f k \<noteq> None" by (auto simp: first_hit_def)
qed

subsection \<open>The script\<close>

record metrics_env =
  me_token :: "string option"
  me_event :: "string option"
  me_pr_number :: "string option"
  me_ref :: "string option"

definition env_get :: "string \<Rightarrow> string option \<Rightarrow> string res" where
  "env_get k v = (case v of None \<Rightarrow> Inl (KeyError k) | Some s \<Rightarrow> Inr s)"

text \<open>The git reference of the request.\<close>

definition branch_of :: "metrics_env \<Rightarrow> string res" where
  "branch_of e =
     bindE (env_get ''GITHUB_EVENT_NAME'' (me_event e)) (\<lambda>ev.
       if ev = ''pull_request_target''
       then bindE (env_get ''PR_NUMBER'' (me_pr_number e)) (\<lambda>n. Inr (''refs/pull/'' @ n @ ''/merge''))
       else env_get ''GITHUB_REF'' (me_ref e))"

definition start_regression :: "metrics_env \<Rightarrow> answer \<Rightarrow> pyval res" where
  "start_regression e a =
     bindE (branch_of e) (\<lambda>b.
     bindE (env_get ''METRICS_CI_TOKEN'' (me_token e)) (\<lambda>t.
     bindE a (\<lambda>(status, d).
       if status \<noteq> 201 then Inl (SystemExit 1)
       else bindE (py_getitem d ''id'') (\<lambda>v. case v of VStr s \<Rightarrow> Inr v | _ \<Rightarrow> Inl TypeError))))"

text \<open>
  One round of the first loop: the data of a complete run, or the end of the script.  The
  words are looked for in the status text.
\<close>

definition status_round :: "answer \<Rightarrow> pyval res option" where
  "status_round a =
     (case a of
        Inl e \<Rightarrow> Some (Inl e)
      | Inr (status, d) \<Rightarrow>
          if status \<noteq> 200 then None
          else (case bindE (py_getitem d ''status'') (py_in ''complete'') of
                  Inl e \<Rightarrow> Some (Inl e)
                | Inr True \<Rightarrow> Some (Inr d)
                | Inr False \<Rightarrow> (case bindE (py_getitem d ''status'') (py_in ''buildFailed'') of
                      Inl e \<Rightarrow> Some (Inl e)
                    | Inr True \<Rightarrow> Some (Inl (SystemExit 1))
                    | Inr False \<Rightarrow> None)))"

definition print_tests :: "pyval \<Rightarrow> unit res" where
  "print_tests d =
     bindE (mapE (\<lambda>k. bindE (py_getitem d ''testRuns'') (\<lambda>t. py_getitem t k))
       [''total'', ''passed'', ''failed'', ''incomplete'']) (\<lambda>vs. Inr ())"

definition coverage_round :: "answer \<Rightarrow> pyval res option" where
  "coverage_round a =
     (case a of
        Inl e \<Rightarrow> Some (Inl e)
      | Inr (status, d) \<Rightarrow>
          if status \<noteq> 200 then None
          else (case py_getitem d ''functionalCoverage'' of
                  Inl e \<Rightarrow> Some (Inl e)
                | Inr v \<Rightarrow> if v = VNone then None else Some (Inr d)))"

text \<open>
  \<^verbatim>\<open>math.trunc(v * 100) / 100\<close> needs a number, and a finite one.  JSON as Python reads
  it has the floats that are not finite; products and quotients that leave the range of floats
  are not modelled.
\<close>

definition number :: "pyval \<Rightarrow> unit res" where
  "number v = (case v of
       VInt i \<Rightarrow> Inr ()
     | VBool b \<Rightarrow> Inr ()
     | VFloat f \<Rightarrow> if f = ''nan'' then Inl ValueError
                  else if f = ''inf'' \<or> f = ''-inf'' then Inl OverflowError else Inr ()
     | _ \<Rightarrow> Inl TypeError)"

definition print_coverage :: "pyval \<Rightarrow> unit res" where
  "print_coverage d =
     bindE (bindE (py_getitem d ''functionalCoverage'') number) (\<lambda>u.
     bindE (py_getitem d ''assertionCoverage'') (\<lambda>a.
     bindE (if a = VNone then Inr () else number a) (\<lambda>u.
     bindE (py_getitem d ''lineCoverage'') (\<lambda>l.
       if l = VNone then Inr () else number l))))"

text \<open>\<^verbatim>\<open>v > 0\<close> for the counts of test runs.\<close>

definition positive :: "pyval \<Rightarrow> bool res" where
  "positive v = (case v of VInt i \<Rightarrow> Inr (0 < i) | VBool b \<Rightarrow> Inr b | VFloat f \<Rightarrow> Inr (float_pos f)
     | _ \<Rightarrow> Inl TypeError)"

definition count_positive :: "pyval \<Rightarrow> string \<Rightarrow> bool res" where
  "count_positive d k = bindE (bindE (py_getitem d ''testRuns'') (\<lambda>t. py_getitem t k)) positive"

definition final_status :: "pyval \<Rightarrow> int res" where
  "final_status d =
     bindE (count_positive d ''failed'') (\<lambda>f.
       if f then Inr 1
       else bindE (count_positive d ''incomplete'') (\<lambda>i. Inr (if i then 1 else 0)))"

text \<open>How the script ends: the exception or exit status, or not at all.\<close>

definition metrics_regress :: "metrics_env \<Rightarrow> (nat \<Rightarrow> answer) \<Rightarrow> pyexc option" where
  "metrics_regress e server =
     (case start_regression e (server 0) of
        Inl x \<Rightarrow> Some x
      | Inr run_id \<Rightarrow> (case poll_until (\<lambda>i. status_round (server i)) 1 of
          None \<Rightarrow> None
        | Some (i, Inl x) \<Rightarrow> Some x
        | Some (i, Inr d) \<Rightarrow> (case print_tests d of
            Inl x \<Rightarrow> Some x
          | Inr u \<Rightarrow> (case poll_until (\<lambda>i. coverage_round (server i)) (Suc i) of
              None \<Rightarrow> None
            | Some (j, Inl x) \<Rightarrow> Some x
            | Some (j, Inr d) \<Rightarrow> (case bindE (print_coverage d) (\<lambda>u. final_status d) of
                Inl x \<Rightarrow> Some x
              | Inr n \<Rightarrow> Some (SystemExit n))))))"

end
