(* ===== verification/MetricsProps.thy ===== *)
theory MetricsProps
  imports MetricsRegress
begin

text \<open>
  When the regression script returns and with which exit status, for servers that answer as
  the script expects it of them: the run is accepted, and every poll that is answered with HTTP
  status 200 carries the state, the counts and the coverage of the run, whatever they are.
\<close>

subsection \<open>What a server answers\<close>

text \<open>
  The information on a run: a status text, four counts of test runs of which those of failed
  and incomplete ones are integers, and three coverage figures, each a finite number or absent.
\<close>

definition status_text :: "pyval \<Rightarrow> string option" where
  "status_text d = (case py_getitem d ''status'' of Inr (VStr s) \<Rightarrow> Some s | _ \<Rightarrow> None)"

definition count_of :: "string \<Rightarrow> pyval \<Rightarrow> pyval option" where
  "count_of k d =
     (case bindE (py_getitem d ''testRuns'') (\<lambda>t. py_getitem t k) of Inr v \<Rightarrow> Some v | Inl e \<Rightarrow> None)"

definition int_count :: "string \<Rightarrow> pyval \<Rightarrow> int option" where
  "int_count k d = (case count_of k d of Some (VInt n) \<Rightarrow> Some n | _ \<Rightarrow> None)"

definition figure :: "pyval \<Rightarrow> bool" where
  "figure v \<longleftrightarrow> (case v of VInt i \<Rightarrow> True | VFloat f \<Rightarrow> f \<noteq> ''nan'' \<and> f \<noteq> ''inf'' \<and> f \<noteq> ''-inf'' | _ \<Rightarrow> False)"

definition has_figure :: "string \<Rightarrow> pyval \<Rightarrow> bool" where
  "has_figure k d \<longleftrightarrow> (case py_getitem d k of Inr v \<Rightarrow> v = VNone \<or> figure v | Inl e \<Rightarrow> False)"

definition run_info :: "pyval \<Rightarrow> bool" where
  "run_info d \<longleftrightarrow> status_text d \<noteq> None
     \<and> count_of ''total'' d \<noteq> None \<and> count_of ''passed'' d \<noteq> None
     \<and> int_count ''failed'' d \<noteq> None \<and> int_count ''incomplete'' d \<noteq> None
     \<and> has_figure ''functionalCoverage'' d \<and> has_figure ''assertionCoverage'' d \<and> has_figure ''lineCoverage'' d"

text \<open>The data of a poll that was answered with HTTP status 200, and what they say.\<close>

definition polled :: "answer \<Rightarrow> pyval option" where
  "polled a = (case a of Inr (status, d) \<Rightarrow> if status = 200 then Some d else None | Inl e \<Rightarrow> None)"

definition says :: "string \<Rightarrow> answer \<Rightarrow> bool" where
  "says word a \<longleftrightarrow> (case Option.bind (polled a) status_text of Some s \<Rightarrow> py_contains word s | None \<Rightarrow> False)"

definition complete :: "answer \<Rightarrow> bool" where
  "complete a \<longleftrightarrow> says ''complete'' a"

definition build_failed :: "answer \<Rightarrow> bool" where
  "build_failed a \<longleftrightarrow> says ''buildFailed'' a \<and> \<not> complete a"

definition covered :: "answer \<Rightarrow> bool" where
  "covered a \<longleftrightarrow> (case polled a of Some d \<Rightarrow> py_getitem d ''functionalCoverage'' \<noteq> Inr VNone | None \<Rightarrow> False)"

definition none_failed :: "answer \<Rightarrow> bool" where
  "none_failed a \<longleftrightarrow>
     list_all (\<lambda>k. case Option.bind (polled a) (int_count k) of Some n \<Rightarrow> n \<le> 0 | None \<Rightarrow> False)
       [''failed'', ''incomplete'']"

definition answered :: "answer \<Rightarrow> bool" where
  "answered a \<longleftrightarrow> is_ok a \<and> (case polled a of Some d \<Rightarrow> run_info d | None \<Rightarrow> True)"

text \<open>The server accepts the run and answers every poll; other HTTP statuses may come with anything.\<close>

definition serves :: "metrics_env \<Rightarrow> (nat \<Rightarrow> answer) \<Rightarrow> bool" where
  "serves e server \<longleftrightarrow> is_ok (start_regression e (server 0)) \<and> (\<forall>i. answered (server (Suc i)))"

lemma serves_at: "serves e server \<Longrightarrow> 1 \<le> i \<Longrightarrow> answered (server i)"
  by (cases i) (auto simp: serves_def)

lemma answered_cases:
  assumes "answered a"
  obtains (other) "polled a = None" "\<And>d. a \<noteq> Inr (200, d)" "\<exists>s d. a = Inr (s, d) \<and> s \<noteq> 200"
    | (info) d where "a = Inr (200, d)" "polled a = Some d" "run_info d"
  using assms by (cases a) (auto simp: answered_def polled_def is_ok_def split: if_splits prod.splits)

lemma status_textD: "status_text d = Some s \<Longrightarrow> py_getitem d ''status'' = Inr (VStr s)"
  by (simp add: status_text_def split: sum.splits pyval.splits)

lemma status_round_answered:
  assumes "answered a"
  shows "status_round a = (if complete a then Some (Inr (the (polled a)))
    else if build_failed a then Some (Inl (SystemExit 1)) else None)"
  using assms
proof (cases rule: answered_cases)
  case other
  then show ?thesis by (auto simp: status_round_def complete_def build_failed_def says_def)
next
  case (info d)
  then obtain s where s: "status_text d = Some s" by (auto simp: run_info_def)
  show ?thesis using info s status_textD[OF s]
    by (simp add: status_round_def complete_def build_failed_def says_def split: bool.split)
qed

lemma coverage_round_answered:
  assumes "answered a"
  shows "coverage_round a = (if covered a then Some (Inr (the (polled a))) else None)"
  using assms
proof (cases rule: answered_cases)
  case other
  then show ?thesis by (auto simp: coverage_round_def covered_def)
next
  case (info d)
  then obtain v where "py_getitem d ''functionalCoverage'' = Inr v"
    by (auto simp: run_info_def has_figure_def split: sum.splits)
  then show ?thesis using info by (simp add: coverage_round_def covered_def)
qed

lemma count_ofD: "count_of k d = Some v \<Longrightarrow> bindE (py_getitem d ''testRuns'') (\<lambda>t. py_getitem t k) = Inr v"
  by (simp add: count_of_def split: sum.splits)

lemma int_countD: "int_count k d = Some n \<Longrightarrow> count_of k d = Some (VInt n)"
  by (simp add: int_count_def split: option.splits pyval.splits)

lemma print_tests_info: "run_info d \<Longrightarrow> print_tests d = Inr ()"
  unfolding print_tests_def run_info_def by (auto dest!: count_ofD int_countD)

lemma print_tests_complete:
  assumes "answered a" and "complete a"
  shows "print_tests (the (polled a)) = Inr ()"
  using assms(1)
  by (cases rule: answered_cases) (use assms(2) in \<open>auto simp: print_tests_info complete_def says_def\<close>)

lemma figure_number: "figure v \<Longrightarrow> number v = Inr ()"
  by (simp add: figure_def number_def split: pyval.splits)

lemma final_info:
  assumes "answered a" and "covered a"
  shows "bindE (print_coverage (the (polled a))) (\<lambda>u. final_status (the (polled a))) =
    Inr (if none_failed a then 0 else 1)"
  using assms(1)
proof (cases rule: answered_cases)
  case other
  then show ?thesis using assms(2) by (simp add: covered_def)
next
  case (info d)
  then obtain f i where f: "int_count ''failed'' d = Some f" and i: "int_count ''incomplete'' d = Some i"
    by (auto simp: run_info_def)
  have fig: "\<exists>v. py_getitem d k = Inr v \<and> (v = VNone \<or> number v = Inr ())"
    if "k \<in> {''functionalCoverage'', ''assertionCoverage'', ''lineCoverage''}" for k
    using info(3) that figure_number by (auto simp: run_info_def has_figure_def split: sum.splits)
  have "print_coverage d = Inr ()"
    using fig[of "''functionalCoverage''"] fig[of "''assertionCoverage''"] fig[of "''lineCoverage''"] info assms(2)
    by (auto simp: print_coverage_def covered_def)
  moreover have "count_positive d ''failed'' = Inr (0 < f)" "count_positive d ''incomplete'' = Inr (0 < i)"
    using count_ofD[OF int_countD[OF f]] count_ofD[OF int_countD[OF i]]
    by (simp_all add: count_positive_def positive_def)
  ultimately show ?thesis using info f i by (auto simp: final_status_def none_failed_def)
qed

subsection \<open>The two loops\<close>

text \<open>The first index from a start at which a predicate holds.\<close>

definition first_from :: "(nat \<Rightarrow> bool) \<Rightarrow> nat \<Rightarrow> nat \<Rightarrow> bool" where
  "first_from P i j \<longleftrightarrow> i \<le> j \<and> P j \<and> (\<forall>k. i \<le> k \<longrightarrow> k < j \<longrightarrow> \<not> P k)"

lemma first_from_ex: "(\<exists>k. i \<le> k \<and> P k) \<Longrightarrow> \<exists>j. first_from P i j"
proof -
  assume e: "\<exists>k. i \<le> k \<and> P k"
  let ?j = "LEAST k. i \<le> k \<and> P k"
  have "i \<le> ?j \<and> P ?j" using e by (rule LeastI_ex)
  moreover have "\<not> P k" if "i \<le> k" "k < ?j" for k using not_less_Least[OF that(2)] that(1) by blast
  ultimately show ?thesis unfolding first_from_def by blast
qed

definition settled :: "answer \<Rightarrow> bool" where
  "settled a \<longleftrightarrow> complete a \<or> build_failed a"

lemma poll_first:
  assumes "\<And>k. i \<le> k \<Longrightarrow> f k \<noteq> None \<longleftrightarrow> P k"
  shows "poll_until f i = Some y \<longleftrightarrow> first_from P i (fst y) \<and> f (fst y) = Some (snd y)"
  unfolding poll_until_iff first_hit_def first_from_def using assms by fastforce

lemma status_poll:
  assumes "serves e server"
  shows "poll_until (\<lambda>k. status_round (server k)) 1 = Some y \<longleftrightarrow>
    first_from (\<lambda>k. settled (server k)) 1 (fst y) \<and>
    snd y = (if complete (server (fst y)) then Inr (the (polled (server (fst y)))) else Inl (SystemExit 1))"
proof -
  have r: "status_round (server k) = (if complete (server k) then Some (Inr (the (polled (server k))))
      else if build_failed (server k) then Some (Inl (SystemExit 1)) else None)" if "1 \<le> k" for k
    by (rule status_round_answered[OF serves_at[OF assms that]])
  have "poll_until (\<lambda>k. status_round (server k)) 1 = Some y \<longleftrightarrow>
      first_from (\<lambda>k. settled (server k)) 1 (fst y) \<and> status_round (server (fst y)) = Some (snd y)"
    by (rule poll_first) (simp add: r settled_def)
  then show ?thesis by (auto simp: r first_from_def settled_def split: if_splits)
qed

lemma coverage_poll:
  assumes "serves e server" and "1 \<le> i"
  shows "poll_until (\<lambda>k. coverage_round (server k)) i = Some y \<longleftrightarrow>
    first_from (\<lambda>k. covered (server k)) i (fst y) \<and> snd y = Inr (the (polled (server (fst y))))"
proof -
  have r: "coverage_round (server k) = (if covered (server k) then Some (Inr (the (polled (server k)))) else None)"
    if "i \<le> k" for k
    by (rule coverage_round_answered[OF serves_at[OF assms(1)]]) (use that assms(2) in simp)
  have "poll_until (\<lambda>k. coverage_round (server k)) i = Some y \<longleftrightarrow>
      first_from (\<lambda>k. covered (server k)) i (fst y) \<and> coverage_round (server (fst y)) = Some (snd y)"
    by (rule poll_first) (simp add: r)
  then show ?thesis by (auto simp: r first_from_def)
qed

text \<open>How the script ends, from the first settled poll and the first covered one after it.\<close>

lemma metrics_complete:
  assumes "serves e server" and "first_from (\<lambda>k. settled (server k)) 1 i" and "complete (server i)"
    and "first_from (\<lambda>k. covered (server k)) (Suc i) j"
  shows "metrics_regress e server = Some (SystemExit (if none_failed (server j) then 0 else 1))"
proof -
  have i: "1 \<le> i" and j: "1 \<le> j" "covered (server j)" using assms(2,4) by (auto simp: first_from_def)
  obtain v where v: "start_regression e (server 0) = Inr v" using assms(1) by (auto simp: serves_def is_ok_Inr)
  have "poll_until (\<lambda>k. status_round (server k)) 1 = Some (i, Inr (the (polled (server i))))"
    using status_poll[OF assms(1), of "(i, Inr (the (polled (server i))))"] assms(2,3) by simp
  moreover have "poll_until (\<lambda>k. coverage_round (server k)) (Suc i) = Some (j, Inr (the (polled (server j))))"
    using coverage_poll[OF assms(1), of "Suc i" "(j, Inr (the (polled (server j))))"] assms(4) by simp
  moreover note print_tests_complete[OF serves_at[OF assms(1) i] assms(3)]
  ultimately show ?thesis using v final_info[OF serves_at[OF assms(1) j(1)] j(2)]
    by (simp add: metrics_regress_def)
qed

lemma metrics_build_failed:
  assumes "serves e server" and "first_from (\<lambda>k. settled (server k)) 1 i" and "\<not> complete (server i)"
  shows "metrics_regress e server = Some (SystemExit 1)"
proof -
  obtain v where v: "start_regression e (server 0) = Inr v" using assms(1) by (auto simp: serves_def is_ok_Inr)
  have "poll_until (\<lambda>k. status_round (server k)) 1 = Some (i, Inl (SystemExit 1))"
    using status_poll[OF assms(1), of "(i, Inl (SystemExit 1))"] assms(2,3) by simp
  then show ?thesis using v by (simp add: metrics_regress_def)
qed

lemma metrics_returns_settled:
  assumes "serves e server" and "metrics_regress e server = Some x"
  shows "\<exists>i. first_from (\<lambda>k. settled (server k)) 1 i
    \<and> (complete (server i) \<longrightarrow> (\<exists>j. first_from (\<lambda>k. covered (server k)) (Suc i) j))"
proof -
  obtain v where v: "start_regression e (server 0) = Inr v" using assms(1) by (auto simp: serves_def is_ok_Inr)
  then obtain y where y: "poll_until (\<lambda>k. status_round (server k)) 1 = Some y"
    using assms(2) by (auto simp: metrics_regress_def split: option.splits)
  then have f: "first_from (\<lambda>k. settled (server k)) 1 (fst y)" using status_poll[OF assms(1)] by blast
  have "\<exists>j. first_from (\<lambda>k. covered (server k)) (Suc (fst y)) j" if c: "complete (server (fst y))"
  proof -
    have sy: "snd y = Inr (the (polled (server (fst y))))" using y status_poll[OF assms(1), of y] c by simp
    have "1 \<le> fst y" using f by (simp add: first_from_def)
    from print_tests_complete[OF serves_at[OF assms(1) this] c]
    obtain z where "poll_until (\<lambda>k. coverage_round (server k)) (Suc (fst y)) = Some z"
      using assms(2) v y sy by (cases y) (auto simp: metrics_regress_def split: option.splits)
    then show ?thesis using coverage_poll[OF assms(1), of "Suc (fst y)" z] by auto
  qed
  with f show ?thesis by blast
qed

subsection \<open>A concrete server\<close>

definition ex_menv :: metrics_env where
  "ex_menv = \<lparr>me_token = Some ''t'', me_event = Some ''push'', me_pr_number = None, me_ref = Some ''master''\<rparr>"

definition ex_run :: "string \<Rightarrow> int \<Rightarrow> pyval \<Rightarrow> pyval" where
  "ex_run state failed cov = VDict [(''id'', VStr ''r1''), (''status'', VStr state),
     (''testRuns'', VDict [(''total'', VInt 20), (''passed'', VInt (20 - failed)), (''failed'', VInt failed),
        (''incomplete'', VInt 0)]),
     (''functionalCoverage'', cov), (''assertionCoverage'', VFloat ''0.75''), (''lineCoverage'', VInt 1)]"

text \<open>Two polls while running, one that the gateway refuses, one complete, then coverage.\<close>

definition ex_server :: "nat \<Rightarrow> answer" where
  "ex_server i =
     (if i = 0 then Inr (201, VDict [(''id'', VStr ''r1'')])
      else if i = 3 then Inr (502, VStr ''bad gateway'')
      else Inr (200, ex_run (if i < 3 then ''running'' else ''complete'') 0
             (if i < 5 then VNone else VFloat ''0.5'')))"

lemma ex_run_info: "figure cov \<or> cov = VNone \<Longrightarrow> run_info (ex_run s n cov)"
  by (auto simp: run_info_def status_text_def count_of_def int_count_def has_figure_def ex_run_def figure_def)

lemma ex_serves: "serves ex_menv ex_server"
proof -
  have "is_ok (start_regression ex_menv (ex_server 0))" by code_simp
  moreover have "answered (ex_server (Suc i))" for i
    by (simp add: answered_def ex_server_def polled_def is_ok_def ex_run_info figure_def)
  ultimately show ?thesis by (simp add: serves_def)
qed

lemma ex_complete: "complete (ex_server k) \<longleftrightarrow> 3 < k"
  by (auto simp: complete_def says_def polled_def ex_server_def status_text_def ex_run_def)

lemma ex_settled: "settled (ex_server k) \<longleftrightarrow> 3 < k"
  by (auto simp: settled_def build_failed_def ex_complete)
     (auto simp: complete_def says_def polled_def ex_server_def status_text_def ex_run_def split: if_splits)

lemma ex_covered: "covered (ex_server k) \<longleftrightarrow> 4 < k"
  by (auto simp: covered_def polled_def ex_server_def ex_run_def)

lemma ex_first: "first_from (\<lambda>k. settled (ex_server k)) 1 4" "first_from (\<lambda>k. covered (ex_server k)) (Suc 4) 5"
  by (auto simp: first_from_def ex_settled ex_covered)

subsection \<open>Properties\<close>

text \<open>
  C7: the script ends with exit status 0 exactly when the first poll that settles the run
  says complete, a later one has coverage, and in the first such one no test run has failed or
  is incomplete.  The server is one that accepts the run and whose answers with HTTP status 200
  have the documented items, with any counts and any coverage figures, present or absent.
\<close>

theorem metrics_exit_zero_iff:
  assumes "serves e server"
  shows "metrics_regress e server = Some (SystemExit 0) \<longleftrightarrow>
    (\<exists>i j. first_from (\<lambda>k. settled (server k)) 1 i \<and> complete (server i)
       \<and> first_from (\<lambda>k. covered (server k)) (Suc i) j \<and> none_failed (server j))"
proof
  assume z: "metrics_regress e server = Some (SystemExit 0)"
  then obtain i where i: "first_from (\<lambda>k. settled (server k)) 1 i"
    and j: "complete (server i) \<longrightarrow> (\<exists>j. first_from (\<lambda>k. covered (server k)) (Suc i) j)"
    using metrics_returns_settled[OF assms] by blast
  have c: "complete (server i)" using metrics_build_failed[OF assms i] z by auto
  with j obtain j where "first_from (\<lambda>k. covered (server k)) (Suc i) j" by blast
  with metrics_complete[OF assms i c this] z i c
  show "\<exists>i j. first_from (\<lambda>k. settled (server k)) 1 i \<and> complete (server i)
       \<and> first_from (\<lambda>k. covered (server k)) (Suc i) j \<and> none_failed (server j)"
    by (auto split: if_splits)
qed (use metrics_complete[OF assms] in fastforce)

theorem metrics_exit_zero_iff_witness: "metrics_regress ex_menv ex_server = Some (SystemExit 0)"
proof -
  have "complete (ex_server 4)" by (simp add: ex_complete)
  moreover have "none_failed (ex_server 5)" by code_simp
  ultimately show ?thesis using metrics_exit_zero_iff[OF ex_serves] ex_first by blast
qed

text \<open>
  C30: the script returns, with exit status 0 or 1, whenever the server settles the run at
  some poll and keeps on delivering coverage; on a server that never settles the run it does
  not return.
\<close>

theorem metrics_returns_iff:
  assumes "serves e server" and "\<And>i. \<exists>j \<ge> i. covered (server j)"
  shows "((\<exists>n. metrics_regress e server = Some (SystemExit n) \<and> n \<in> {0, 1}) \<longleftrightarrow>
      (\<exists>k \<ge> 1. settled (server k)))
    \<and> (metrics_regress e server = None \<longleftrightarrow> \<not> (\<exists>k \<ge> 1. settled (server k)))"
proof -
  have ret: "\<exists>n. metrics_regress e server = Some (SystemExit n) \<and> n \<in> {0, 1}" if s: "\<exists>k \<ge> 1. settled (server k)"
  proof -
    obtain i where i: "first_from (\<lambda>k. settled (server k)) 1 i"
      using first_from_ex[of 1 "\<lambda>k. settled (server k)"] s by blast
    show ?thesis
    proof (cases "complete (server i)")
      case True
      obtain j where "first_from (\<lambda>k. covered (server k)) (Suc i) j"
        using first_from_ex[of "Suc i" "\<lambda>k. covered (server k)"] assms(2) by blast
      from metrics_complete[OF assms(1) i True this] show ?thesis by auto
    next
      case False
      from metrics_build_failed[OF assms(1) i this] show ?thesis by simp
    qed
  qed
  have none: "metrics_regress e server = None" if n: "\<not> (\<exists>k \<ge> 1. settled (server k))"
    using metrics_returns_settled[OF assms(1)] n unfolding first_from_def by (meson not_None_eq)
  show ?thesis using ret none by (cases "\<exists>k \<ge> 1. settled (server k)") auto
qed

theorem metrics_returns_iff_witness:
  "\<exists>n. metrics_regress ex_menv ex_server = Some (SystemExit n) \<and> n \<in> {0, 1}"
proof -
  have "\<exists>j \<ge> i. covered (ex_server j)" for i
    by (intro exI[of _ "i + 5"]) (simp add: ex_covered)
  moreover have "\<exists>k \<ge> 1. settled (ex_server k)"
    by (intro exI[of _ 4]) (simp add: ex_settled)
  ultimately show ?thesis using metrics_returns_iff[OF ex_serves] by blast
qed

end
