(* ===== verification/ZcGen.thy ===== *)
theory ZcGen
  imports PyIO
begin

text \<open>
  \<^verbatim>\<open>tests/programs/custom/zc_test/test_gen/zc_gen.py\<close>: the generator of the directed
  test of the compressed push, pop and double-move instructions.  It writes an assembly file
  with five functions, each a chain of cases that the first argument selects from, and a header
  with the addresses of the instructions under test.  What the script appends or writes always
  ends a line, so its buffers are lists of lines here, without the line breaks.
\<close>

subsection \<open>The script's lists\<close>

definition pushPopRlists :: "string list" where
  "pushPopRlists = [''ra'', ''ra, s0'', ''ra, s0-s1'', ''ra, s0-s2'', ''ra, s0-s3'', ''ra, s0-s4'',
     ''ra, s0-s5'', ''ra, s0-s6'', ''ra, s0-s7'', ''ra, s0-s8'', ''ra, s0-s9'', ''ra, s0-s11'']"

definition sreg1List :: "string list" where "sreg1List = [''s2'', ''s4'', ''s5'', ''s7'']"
definition sreg2List :: "string list" where "sreg2List = [''s6'', ''s3'', ''s1'', ''s0'']"

definition PUSH_POP_RLIST_LOW :: nat where "PUSH_POP_RLIST_LOW = 4"

definition funcTags :: "string list" where
  "funcTags = [''interrupt_push_pop'', ''interrupt_popret'', ''interrupt_popretz'', ''interrupt_mvsa'',
     ''interrupt_mvas'']"

text \<open>The pairs of the two nested loops over the saved registers, in their order.\<close>

definition sreg_pairs :: "(string \<times> string) list" where
  "sreg_pairs = concat (map (\<lambda>s1. map (Pair s1) sreg2List) sreg1List)"

subsection \<open>The test functions\<close>

text \<open>
  The parts that the five copies share: the entry of a function, the label and branch of a
  case, and the end of a function, which differ in their label and in the blank lines at the
  end.
\<close>

definition func_head :: "string \<Rightarrow> string list" where
  "func_head f = [f @ '':'', ''  la t0, stored_ra'', ''  sw ra, 0(t0)'']"

definition case_head :: "string \<Rightarrow> nat \<Rightarrow> bool \<Rightarrow> string list" where
  "case_head lbl k final =
     [[], [], ''  '' @ lbl @ show_nat k @ '':'', ''    li t1, '' @ show_nat k,
      if final then ''    bne a0, t1, '' @ lbl @ ''end'' else ''    bne a0, t1, '' @ lbl @ show_nat (k + 1)]"

definition func_end :: "string \<Rightarrow> nat \<Rightarrow> string list" where
  "func_end lbl blanks =
     [[], [], ''  '' @ lbl @ ''end:'', ''  //return to caller'', ''  la t0, stored_ra'', ''  lw ra, 0(t0)'',
      ''  jalr'' @ [tab] @ ''x0, 0(ra)''] @ replicate blanks []"

text \<open>A round gives its lines and the tags it saves; the counter is the tag count, from zero.\<close>

fun case_loop :: "(nat \<Rightarrow> 'a \<Rightarrow> string list \<times> string list) \<Rightarrow> nat \<Rightarrow> 'a list \<Rightarrow> string list \<times> string list" where
  "case_loop body i [] = ([], [])"
| "case_loop body i (x # xs) =
     (case body i x of (ls, ts) \<Rightarrow> (case case_loop body (Suc i) xs of (ls', ts') \<Rightarrow> (ls @ ls', ts @ ts')))"

definition pushpop_case :: "nat \<Rightarrow> nat \<Rightarrow> string \<Rightarrow> string list \<times> string list" where
  "pushpop_case n i rlist =
     (let push = ''push_'' @ show_nat i; pop = ''pop_'' @ show_nat i
      in (case_head ''pp_case_'' (PUSH_POP_RLIST_LOW + i) (i = n - 1) @
          [''    jal ra, trigger_irq'', ''  '' @ push @ '':'', ''    cm.push {'' @ rlist @ ''}, -64'',
           ''    nop'', ''    nop'', [], ''    jal ra, trigger_irq'', ''  '' @ pop @ '':'',
           ''    cm.pop {'' @ rlist @ ''}, 64'', ''    nop'', ''    nop'', ''    j pp_case_end'', []],
          [push, pop]))"

definition pushpop_func :: "string list \<times> string list" where
  "pushpop_func =
     (case case_loop (pushpop_case (length pushPopRlists)) 0 pushPopRlists of (ls, ts) \<Rightarrow>
        (func_head (funcTags ! 0) @ ls @ func_end ''pp_case_'' 3, ts))"

definition popret_case :: "nat \<Rightarrow> nat \<Rightarrow> string \<Rightarrow> string list \<times> string list" where
  "popret_case n i rlist =
     (let tag = ''popret_'' @ show_nat i
      in (case_head ''pr_case_'' (PUSH_POP_RLIST_LOW + i) (i = n - 1) @
          [''    la ra, '' @ tag @ ''_ret'', ''    cm.push {'' @ rlist @ ''}, -64'', ''    jal ra, trigger_irq'',
           ''  '' @ tag @ '':'', ''    cm.popret {'' @ rlist @ ''}, 64'', ''  '' @ tag @ ''_ret:'',
           ''    nop'', ''    nop'', ''    j pr_case_end'', []],
          [tag]))"

definition popret_func :: "string list \<times> string list" where
  "popret_func =
     (case case_loop (popret_case (length pushPopRlists)) 0 pushPopRlists of (ls, ts) \<Rightarrow>
        (func_head (funcTags ! 1) @ ls @ func_end ''pr_case_'' 0, ts))"

definition popretz_case :: "nat \<Rightarrow> nat \<Rightarrow> string \<Rightarrow> string list \<times> string list" where
  "popretz_case n i rlist =
     (let tag = ''popretz_'' @ show_nat i
      in (case_head ''prz_case_'' (PUSH_POP_RLIST_LOW + i) (i = n - 1) @
          [''    la ra, '' @ tag @ ''_ret'', ''    cm.push {'' @ rlist @ ''}, -64'', ''    jal ra, trigger_irq'',
           ''  '' @ tag @ '':'', ''    cm.popretz {'' @ rlist @ ''}, 64'', ''  '' @ tag @ ''_ret:'',
           ''    nop'', ''    nop'', ''    j prz_case_end'', []],
          [tag]))"

definition popretz_func :: "string list \<times> string list" where
  "popretz_func =
     (case case_loop (popretz_case (length pushPopRlists)) 0 pushPopRlists of (ls, ts) \<Rightarrow>
        (func_head (funcTags ! 2) @ ls @ func_end ''prz_case_'' 0, ts))"

definition mvsa_case :: "nat \<Rightarrow> nat \<Rightarrow> string \<times> string \<Rightarrow> string list \<times> string list" where
  "mvsa_case n i sregs =
     (let tag = ''mvsa_'' @ show_nat i
      in (case_head ''sa_case_'' i (i = n - 1) @
          [''    mv '' @ fst sregs @ '', a2'', ''    mv '' @ snd sregs @ '', a3'', ''    jal ra, trigger_irq'',
           ''  '' @ tag @ '':'', ''    cm.mvsa01 '' @ fst sregs @ '', '' @ snd sregs,
           ''    nop'', ''    nop'', ''    j sa_case_end'', []],
          [tag]))"

definition mvsa_func :: "string list \<times> string list" where
  "mvsa_func =
     (case case_loop (mvsa_case (length sreg1List * length sreg2List)) 0 sreg_pairs of (ls, ts) \<Rightarrow>
        (func_head (funcTags ! 3) @ ls @ func_end ''sa_case_'' 3, ts))"

definition mvas_case :: "nat \<Rightarrow> nat \<Rightarrow> string \<times> string \<Rightarrow> string list \<times> string list" where
  "mvas_case n i sregs =
     (let tag = ''mvas_'' @ show_nat i
      in (case_head ''as_case_'' i (i = n - 1) @
          [''    mv '' @ fst sregs @ '', a2'', ''    mv '' @ snd sregs @ '', a3'', ''    jal ra, trigger_irq'',
           ''  '' @ tag @ '':'', ''    cm.mva01s '' @ fst sregs @ '', '' @ snd sregs,
           ''    nop'', ''    nop'', ''    j as_case_end'', []],
          [tag]))"

definition mvas_func :: "string list \<times> string list" where
  "mvas_func =
     (case case_loop (mvas_case (length sreg1List * length sreg2List)) 0 sreg_pairs of (ls, ts) \<Rightarrow>
        (func_head (funcTags ! 4) @ ls @ func_end ''as_case_'' 3, ts))"

text \<open>The buffer of all functions, and the saved tags.\<close>

definition asmFuncTemp :: "string list" where
  "asmFuncTemp = fst pushpop_func @ fst popret_func @ fst popretz_func @ fst mvsa_func @ fst mvas_func"

definition zc_tags :: "string list" where
  "zc_tags = snd pushpop_func @ snd popret_func @ snd popretz_func @ snd mvsa_func @ snd mvas_func"

subsection \<open>The two files\<close>

text \<open>
  The text behind the line with the marker; the rest of a file that has no marker is empty.
\<close>

fun keep_lines :: "string \<Rightarrow> string list" where
  "keep_lines [] = []"
| "keep_lines (c # s) =
     (if c = nl then [nl] # keep_lines s
      else (case keep_lines s of [] \<Rightarrow> [[c]] | l # ls \<Rightarrow> (c # l) # ls))"

definition after_header :: "string \<Rightarrow> string" where
  "after_header text =
     concat (tl (dropWhile (\<lambda>l. \<not> py_contains ''_GEN END OF HEADER GEN_'' l) (keep_lines text)))"

definition asm_text :: "string \<Rightarrow> string \<Rightarrow> string" where
  "asm_text asm_top func =
     asm_top @ unlines ([''//Generated Functions''] @ map (\<lambda>f. ''.global '' @ f) funcTags
        @ [[], [], ''//instruction tags''] @ map (\<lambda>t. ''.global '' @ t) zc_tags)
     @ after_header func @ unlines ([[], [], ''//Generated Functions''] @ asmFuncTemp)"

text \<open>One list of addresses; the size in the brackets is a name of its own.\<close>

definition instr_array :: "string \<Rightarrow> string \<Rightarrow> string \<Rightarrow> string \<Rightarrow> string list \<Rightarrow> string list" where
  "instr_array what macro bound arr tags =
     [''//Generated list of '' @ what @ '' instr addresses'', ''#define '' @ macro @ '' '' @ show_nat (length tags), []]
     @ map (\<lambda>t. ''extern uint32_t '' @ t @ '';'') tags
     @ [[], ''uint32_t '' @ arr @ ''['' @ bound @ ''] = {'']
     @ map (\<lambda>t. if t = last tags then ''    (uint32_t)&'' @ t else ''    (uint32_t)&'' @ t @ '','') tags
     @ [''};'']"

definition func_decl :: "string \<Rightarrow> string" where
  "func_decl f =
     (if f = ''interrupt_mvsa'' \<or> f = ''interrupt_mvas''
      then ''extern volatile void '' @ f @ ''(uint32_t, uint32_t, uint32_t);''
      else ''extern volatile void '' @ f @ ''(uint32_t);'')"

definition h_lines :: "string list" where
  "h_lines =
     [''//Generated test functions'', ''//functions time interrupts to hit atomic part of named instruction type'']
     @ map func_decl funcTags @ [[], []]
     @ instr_array ''push/pop'' ''PUSHPOP_INSTR_SIZE'' ''PUSHPOP_INSTR_SIZE'' ''pushpop_instr_list'' (snd pushpop_func)
     @ instr_array ''popret'' ''POPRET_INSTR_SIZE'' ''POPRET_INSTR_SIZE'' ''popret_instr_list'' (snd popret_func)
     @ instr_array ''popretz'' ''POPRETZ_INSTR_SIZE'' ''POPRET_INSTR_SIZE'' ''popretz_instr_list'' (snd popretz_func)
     @ instr_array ''mvsa'' ''MVSA_INSTR_SIZE'' ''MVSA_INSTR_SIZE'' ''mvsa_instr_list'' (snd mvsa_func)
     @ instr_array ''mvas'' ''MVAS_INSTR_SIZE'' ''MVAS_INSTR_SIZE'' ''mvas_instr_list'' (snd mvas_func)
     @ [''#endif'', []]"

text \<open>The script: the five files are opened first, and opening may fail; then the two are written.\<close>

record zc_world =
  zw_writable :: "string \<Rightarrow> bool"
  zw_read :: "string \<Rightarrow> string option"

datatype zc_effect = Truncate string | WriteText string string

definition zc_open_w :: "zc_world \<Rightarrow> string \<Rightarrow> (zc_effect, unit) io" where
  "zc_open_w w f = (if zw_writable w f then doIO (Truncate f) else liftIO (Inl OSError))"

definition zc_open_r :: "zc_world \<Rightarrow> string \<Rightarrow> (zc_effect, string) io" where
  "zc_open_r w f = liftIO (case zw_read w f of None \<Rightarrow> Inl OSError | Some s \<Rightarrow> Inr s)"

definition zc_gen :: "zc_world \<Rightarrow> (zc_effect, unit) io" where
  "zc_gen w =
     bindIO (zc_open_w w ''../zc_test.S'') (\<lambda>u.
     bindIO (zc_open_r w ''asm_manual_top.s'') (\<lambda>asm_top.
     bindIO (zc_open_r w ''asm_manual_func.s'') (\<lambda>func.
     bindIO (zc_open_w w ''../zc_test.h'') (\<lambda>u.
     bindIO (zc_open_r w ''h_manual_top.h'') (\<lambda>htop.
     bindIO (doIO (WriteText ''../zc_test.S'' (asm_text asm_top func))) (\<lambda>u.
       doIO (WriteText ''../zc_test.h'' (htop @ unlines h_lines))))))))"

end
