(* ===== verification/ZcExec.thy ===== *)
theory ZcExec
  imports ZcGen
begin

text \<open>
  What the generated assembly does.  The instructions that the generator uses are read from
  the lines and run on a small machine that follows the RISC-V and Zcmp specifications as far
  as control goes: labels, the case register, the return address, the saved return address and
  the stack of return addresses.  The calls of \<^verbatim>\<open>trigger_irq\<close> return and leave the
  temporary registers and the return address undefined.  The locale states what one test
  function needs and proves what a call of it does.
\<close>

subsection \<open>Reading instructions\<close>

datatype zinstr =
    Lbl string
  | LoadCase nat
  | BranchCase string
  | Jump string
  | LoadAddr string string
  | StoreRa
  | LoadRa
  | CallIrq
  | Return
  | Tested string
  | Other

definition parse_instr :: "string \<Rightarrow> zinstr" where
  "parse_instr l =
     (let s = py_strip l in
      if s = [] then Other
      else if last s = CHR '':'' then Lbl (butlast s)
      else if prefix ''li t1, '' s then LoadCase (digits_val 10 (drop 7 s))
      else if prefix ''bne a0, t1, '' s then BranchCase (drop 12 s)
      else if prefix ''j '' s then Jump (drop 2 s)
      else if prefix ''la '' s then LoadAddr (take 2 (drop 3 s)) (drop 7 s)
      else if s = ''sw ra, 0(t0)'' then StoreRa
      else if s = ''lw ra, 0(t0)'' then LoadRa
      else if s = ''jal ra, trigger_irq'' then CallIrq
      else if s = ''jalr'' @ [tab] @ ''x0, 0(ra)'' then Return
      else if prefix ''cm.'' s then Tested s
      else Other)"

definition labels :: "zinstr list \<Rightarrow> string list" where
  "labels p = concat (map (\<lambda>i. case i of Lbl l \<Rightarrow> [l] | _ \<Rightarrow> []) p)"

text \<open>The program from the first definition of a label on.\<close>

definition goto :: "zinstr list \<Rightarrow> string \<Rightarrow> zinstr list option" where
  "goto p l = (case dropWhile (\<lambda>i. i \<noteq> Lbl l) p of [] \<Rightarrow> None | r \<Rightarrow> Some r)"

subsection \<open>The machine\<close>

datatype zaddr = Caller | At string | Elsewhere

record zstate =
  z_rest :: "zinstr list"
  z_a0 :: "nat option"
  z_t0 :: "string option"
  z_t1 :: "nat option"
  z_ra :: zaddr
  z_stored :: zaddr
  z_stack :: "zaddr list"
  z_trace :: "string list"

definition jump_to :: "zinstr list \<Rightarrow> string \<Rightarrow> zstate \<Rightarrow> zstate option" where
  "jump_to p l st = (case goto p l of None \<Rightarrow> None | Some r \<Rightarrow> Some (st\<lparr>z_rest := r\<rparr>))"

text \<open>
  The instructions under test: a push stores the return address, a pop loads it, the two
  returning ones also jump to it, the second of them with a zero result, and
  \<^verbatim>\<open>cm.mva01s\<close> overwrites the first argument.
\<close>

definition run_tested :: "zinstr list \<Rightarrow> string \<Rightarrow> zstate \<Rightarrow> zstate option" where
  "run_tested p s st =
     (let st = st\<lparr>z_trace := z_trace st @ [s]\<rparr> in
      if prefix ''cm.push '' s then Some (st\<lparr>z_stack := z_ra st # z_stack st\<rparr>)
      else if prefix ''cm.pop '' s
      then (case z_stack st of [] \<Rightarrow> None | a # as \<Rightarrow> Some (st\<lparr>z_ra := a, z_stack := as\<rparr>))
      else if prefix ''cm.popret '' s \<or> prefix ''cm.popretz '' s
      then (case z_stack st of
              At l # as \<Rightarrow> jump_to p l (st\<lparr>z_ra := At l, z_stack := as,
                z_a0 := if prefix ''cm.popretz '' s then Some 0 else z_a0 st\<rparr>)
            | _ \<Rightarrow> None)
      else if prefix ''cm.mva01s '' s then Some (st\<lparr>z_a0 := None\<rparr>)
      else if prefix ''cm.mvsa01 '' s then Some st
      else None)"

text \<open>One instruction; a return, the end of the program and an undefined register stop the machine.\<close>

definition zstep :: "zinstr list \<Rightarrow> zstate \<Rightarrow> zstate option" where
  "zstep p st0 =
     (case z_rest st0 of
        [] \<Rightarrow> None
      | i # r \<Rightarrow>
          (let st = st0\<lparr>z_rest := r\<rparr> in
           case i of
             Lbl l \<Rightarrow> Some st
           | Other \<Rightarrow> Some st
           | LoadCase n \<Rightarrow> Some (st\<lparr>z_t1 := Some n\<rparr>)
           | BranchCase l \<Rightarrow>
               (case z_a0 st of None \<Rightarrow> None | Some a \<Rightarrow> (case z_t1 st of None \<Rightarrow> None
                | Some t \<Rightarrow> if a = t then Some st else jump_to p l st))
           | Jump l \<Rightarrow> jump_to p l st
           | LoadAddr reg l \<Rightarrow>
               if reg = ''ra'' then Some (st\<lparr>z_ra := At l\<rparr>)
               else if reg = ''t0'' then Some (st\<lparr>z_t0 := Some l\<rparr>) else None
           | StoreRa \<Rightarrow> if z_t0 st = Some ''stored_ra'' then Some (st\<lparr>z_stored := z_ra st\<rparr>) else None
           | LoadRa \<Rightarrow> if z_t0 st = Some ''stored_ra'' then Some (st\<lparr>z_ra := z_stored st\<rparr>) else None
           | CallIrq \<Rightarrow> Some (st\<lparr>z_t0 := None, z_t1 := None, z_ra := Elsewhere\<rparr>)
           | Return \<Rightarrow> None
           | Tested s \<Rightarrow> run_tested p s st))"

fun zsteps :: "nat \<Rightarrow> zinstr list \<Rightarrow> zstate \<Rightarrow> zstate option" where
  "zsteps 0 p st = Some st"
| "zsteps (Suc n) p st = (case zstep p st of None \<Rightarrow> None | Some st' \<Rightarrow> zsteps n p st')"

text \<open>
  A call: it starts at the function's label with an argument and an empty stack, and has
  returned when a return instruction is next and the return address is the caller's.
\<close>

definition zcall :: "zinstr list \<Rightarrow> string \<Rightarrow> nat \<Rightarrow> zstate option" where
  "zcall p f a = map_option (\<lambda>r. \<lparr>z_rest = r, z_a0 = Some a, z_t0 = None, z_t1 = None, z_ra = Caller,
     z_stored = Elsewhere, z_stack = [], z_trace = []\<rparr>) (goto p f)"

definition returned :: "zstate \<Rightarrow> bool" where
  "returned st \<longleftrightarrow> (case z_rest st of Return # r \<Rightarrow> True | _ \<Rightarrow> False) \<and> z_ra st = Caller \<and> z_stack st = []"

subsection \<open>Labels\<close>

lemma labels_simps [simp]:
  "labels [] = []" "labels (p @ q) = labels p @ labels q" "labels (Lbl l # p) = l # labels p"
  "(\<And>l. i \<noteq> Lbl l) \<Longrightarrow> labels (i # p) = labels p"
  by (auto simp: labels_def split: zinstr.split)

lemma labels_mem: "Lbl l \<in> set p \<longleftrightarrow> l \<in> set (labels p)"
  by (induction p) (auto simp: labels_def split: zinstr.splits)

lemma goto_unique:
  assumes "distinct (labels (a @ Lbl l # b))"
  shows "goto (a @ Lbl l # b) l = Some (Lbl l # b)"
proof -
  have "Lbl l \<notin> set a" using assms by (auto simp: labels_mem)
  then have "\<forall>i \<in> set a. i \<noteq> Lbl l" by auto
  then have "dropWhile (\<lambda>i. i \<noteq> Lbl l) (a @ Lbl l # b) = Lbl l # b"
    by (simp add: dropWhile_append2)
  then show ?thesis by (simp add: goto_def)
qed

lemma goto_in: "distinct (labels p) \<Longrightarrow> p = a @ Lbl l # b \<Longrightarrow> goto p l = Some (Lbl l # b)"
  using goto_unique by blast

lemma zsteps_trans: "zsteps m p s = Some t \<Longrightarrow> zsteps n p t = Some u \<Longrightarrow> zsteps (m + n) p s = Some u"
  by (induction m arbitrary: s) (auto split: option.splits)

subsection \<open>The shape of a test function\<close>

definition case_code :: "string \<Rightarrow> nat \<Rightarrow> bool \<Rightarrow> zinstr list \<Rightarrow> zinstr list" where
  "case_code lbl k final b =
     [Other, Other, Lbl (lbl @ show_nat k), LoadCase k,
      BranchCase (lbl @ (if final then ''end'' else show_nat (k + 1)))] @ b"

definition cases_code :: "string \<Rightarrow> nat \<Rightarrow> nat \<Rightarrow> (nat \<Rightarrow> zinstr list) \<Rightarrow> nat \<Rightarrow> zinstr list" where
  "cases_code lbl lo n bs i = concat (map (\<lambda>j. case_code lbl (lo + j) (j = n - 1) (bs j)) [i ..< n])"

definition end_code :: "string \<Rightarrow> zinstr list" where
  "end_code lbl = [Other, Other, Lbl (lbl @ ''end''), Other, LoadAddr ''t0'' ''stored_ra'', LoadRa, Return]"

definition func_code :: "string \<Rightarrow> string \<Rightarrow> nat \<Rightarrow> nat \<Rightarrow> (nat \<Rightarrow> zinstr list) \<Rightarrow> zinstr list" where
  "func_code f lbl lo n bs =
     [Lbl f, LoadAddr ''t0'' ''stored_ra'', StoreRa] @ cases_code lbl lo n bs 0 @ end_code lbl"

lemma cases_code_unfold:
  "i < n \<Longrightarrow> cases_code lbl lo n bs i =
    case_code lbl (lo + i) (i = n - 1) (bs i) @ cases_code lbl lo n bs (Suc i)"
  by (simp add: cases_code_def upt_conv_Cons)

lemma cases_code_split:
  "i \<le> n \<Longrightarrow> cases_code lbl lo n bs 0 =
    concat (map (\<lambda>j. case_code lbl (lo + j) (j = n - 1) (bs j)) [0 ..< i]) @ cases_code lbl lo n bs i"
proof -
  assume "i \<le> n"
  then have "[0 ..< n] = [0 ..< i] @ [i ..< n]" using upt_add_eq_append[of 0 i "n - i"] by simp
  then show ?thesis by (simp add: cases_code_def)
qed

text \<open>
  One test function in a program whose labels are unique.  The block of a case leaves through
  the end label after at most \<open>k\<close> steps, with the instructions under test in the trace and
  the stack and the stored address as they were.
\<close>

locale case_function =
  fixes prog :: "zinstr list" and f :: string and lbl :: string and lo :: nat and n :: nat
    and bs :: "nat \<Rightarrow> zinstr list" and k :: nat and tests :: "nat \<Rightarrow> string list"
  assumes code: "\<exists>a b. prog = a @ func_code f lbl lo n bs @ b"
    and unique: "distinct (labels prog)"
    and runs: "i < n \<Longrightarrow> prog = a @ bs i @ b \<Longrightarrow> goto prog (lbl @ ''end'') = Some r \<Longrightarrow> z_rest st = bs i @ b \<Longrightarrow>
      \<exists>m st'. m \<le> k \<and> zsteps m prog st = Some st' \<and> z_rest st' = r
        \<and> z_stack st' = z_stack st \<and> z_stored st' = z_stored st \<and> z_trace st' = z_trace st @ tests i"
begin

lemma goto_case: "i < n \<Longrightarrow> \<exists>a b. prog = a @ bs i @ b
    \<and> goto prog (lbl @ show_nat (lo + i)) = Some (Lbl (lbl @ show_nat (lo + i)) # LoadCase (lo + i)
        # BranchCase (lbl @ (if i = n - 1 then ''end'' else show_nat (lo + i + 1))) # bs i @ b)"
proof -
  assume i: "i < n"
  obtain a b where p: "prog = a @ func_code f lbl lo n bs @ b" using code by blast
  let ?a = "a @ [Lbl f, LoadAddr ''t0'' ''stored_ra'', StoreRa] @
      concat (map (\<lambda>j. case_code lbl (lo + j) (j = n - 1) (bs j)) [0 ..< i]) @ [Other, Other]"
  let ?h = "[Lbl (lbl @ show_nat (lo + i)), LoadCase (lo + i),
      BranchCase (lbl @ (if i = n - 1 then ''end'' else show_nat (lo + i + 1)))]"
  let ?b = "cases_code lbl lo n bs (Suc i) @ end_code lbl @ b"
  have eq: "prog = ?a @ ?h @ bs i @ ?b"
    using i by (simp add: p func_code_def cases_code_split[of i] cases_code_unfold[of i] case_code_def)
  then have "prog = ?a @ Lbl (lbl @ show_nat (lo + i)) # tl ?h @ bs i @ ?b" by simp
  from goto_in[OF unique this] have "goto prog (lbl @ show_nat (lo + i)) = Some (?h @ bs i @ ?b)" by simp
  moreover have "prog = (?a @ ?h) @ bs i @ ?b" using eq by simp
  ultimately show ?thesis by (intro exI[of _ "?a @ ?h"] exI[of _ ?b]) simp
qed

lemma goto_end: "\<exists>b. goto prog (lbl @ ''end'') =
    Some (Lbl (lbl @ ''end'') # Other # LoadAddr ''t0'' ''stored_ra'' # LoadRa # Return # b)"
proof -
  obtain a b where p: "prog = a @ func_code f lbl lo n bs @ b" using code by blast
  then have "prog = (a @ [Lbl f, LoadAddr ''t0'' ''stored_ra'', StoreRa] @ cases_code lbl lo n bs 0 @ [Other, Other])
      @ Lbl (lbl @ ''end'') # Other # LoadAddr ''t0'' ''stored_ra'' # LoadRa # Return # b"
    by (simp add: func_code_def end_code_def)
  from goto_in[OF unique this] show ?thesis by blast
qed

lemma run_end:
  assumes "goto prog (lbl @ ''end'') = Some (z_rest st)" and "z_stored st = Caller" and "z_stack st = []"
  shows "\<exists>st'. zsteps 4 prog st = Some st' \<and> returned st' \<and> z_trace st' = z_trace st"
proof -
  obtain b where "z_rest st = Lbl (lbl @ ''end'') # Other # LoadAddr ''t0'' ''stored_ra'' # LoadRa # Return # b"
    using goto_end assms(1) by auto
  then show ?thesis using assms(2,3)
    by (simp add: numeral_eq_Suc zstep_def returned_def)
qed

text \<open>From the label of case \<open>i\<close> on.\<close>

lemma run_cases:
  assumes "i < n" and "goto prog (lbl @ show_nat (lo + i)) = Some (z_rest st)" and "z_a0 st = Some a"
    and "z_stored st = Caller" and "z_stack st = []" and "z_trace st = []"
  shows "\<exists>m st'. m \<le> 3 * (n - i) + k + 4 \<and> zsteps m prog st = Some st' \<and> returned st'
    \<and> z_trace st' = (if lo + i \<le> a \<and> a < lo + n then tests (a - lo) else [])"
  using assms
proof (induction "n - i" arbitrary: i st)
  case (Suc d)
  obtain a1 b1 where p: "prog = a1 @ bs i @ b1"
    and g: "z_rest st = Lbl (lbl @ show_nat (lo + i)) # LoadCase (lo + i)
        # BranchCase (lbl @ (if i = n - 1 then ''end'' else show_nat (lo + i + 1))) # bs i @ b1"
    using goto_case[OF Suc.prems(1)] Suc.prems(2) by auto
  show ?case
  proof (cases "a = lo + i")
    case True
    let ?st = "st\<lparr>z_rest := bs i @ b1, z_t1 := Some (lo + i)\<rparr>"
    have 1: "zsteps 3 prog st = Some ?st"
      using g Suc.prems(3) True by (simp add: numeral_eq_Suc zstep_def)
    obtain r where r: "goto prog (lbl @ ''end'') = Some r" using goto_end by blast
    obtain m st' where 2: "m \<le> k" "zsteps m prog ?st = Some st'" "goto prog (lbl @ ''end'') = Some (z_rest st')"
      "z_stack st' = []" "z_stored st' = Caller" "z_trace st' = tests i"
      using runs[OF Suc.prems(1) p r, of ?st] r Suc.prems by auto
    from run_end[OF 2(3,5,4)] obtain st'' where 3: "zsteps 4 prog st' = Some st''" "returned st''"
      "z_trace st'' = tests i" using 2(6) by auto
    have "zsteps (3 + (m + 4)) prog st = Some st''"
      by (rule zsteps_trans[OF 1 zsteps_trans[OF 2(2) 3(1)]])
    moreover have "3 + (m + 4) \<le> 3 * (n - i) + k + 4" using 2(1) Suc.prems(1) by simp
    ultimately show ?thesis using 3 True Suc.prems(1) by (intro exI[of _ "3 + (m + 4)"] exI[of _ st'']) auto
  next
    case False
    show ?thesis
    proof (cases "i = n - 1")
      case True
      obtain r where r: "goto prog (lbl @ ''end'') = Some r" using goto_end by blast
      let ?st = "st\<lparr>z_rest := r, z_t1 := Some (lo + i)\<rparr>"
      have 1: "zsteps 3 prog st = Some ?st"
        using g Suc.prems(3) False True r by (simp add: numeral_eq_Suc zstep_def jump_to_def)
      obtain st'' where 2: "zsteps 4 prog ?st = Some st''" "returned st''" "z_trace st'' = []"
        using run_end[of ?st] r Suc.prems by auto
      have "\<not> (lo + i \<le> a \<and> a < lo + n)" using True False Suc.prems(1) by linarith
      moreover have "3 + 4 \<le> 3 * (n - i) + k + 4" using Suc.prems(1) by simp
      ultimately show ?thesis using zsteps_trans[OF 1 2(1)] 2 by (intro exI[of _ "3 + 4"] exI[of _ st'']) auto
    next
      case nl: False
      then have i': "Suc i < n" using Suc.prems(1) by simp
      obtain r where r: "goto prog (lbl @ show_nat (lo + Suc i)) = Some r" using goto_case[OF i'] by blast
      let ?st = "st\<lparr>z_rest := r, z_t1 := Some (lo + i)\<rparr>"
      have 1: "zsteps 3 prog st = Some ?st"
        using g Suc.prems(3) False nl r by (simp add: numeral_eq_Suc zstep_def jump_to_def)
      have "\<exists>m st'. m \<le> 3 * (n - Suc i) + k + 4 \<and> zsteps m prog ?st = Some st' \<and> returned st'
          \<and> z_trace st' = (if lo + Suc i \<le> a \<and> a < lo + n then tests (a - lo) else [])"
        using Suc.hyps(2) i' r Suc.prems by (intro Suc.hyps(1)) auto
      then obtain m st' where 2: "m \<le> 3 * (n - Suc i) + k + 4" "zsteps m prog ?st = Some st'" "returned st'"
          "z_trace st' = (if lo + Suc i \<le> a \<and> a < lo + n then tests (a - lo) else [])" by blast
      have "3 + m \<le> 3 * (n - i) + k + 4" using 2(1) i' by simp
      moreover have "lo + Suc i \<le> a \<longleftrightarrow> lo + i \<le> a" using False by auto
      ultimately show ?thesis
        using zsteps_trans[OF 1 2(2)] 2(3,4) by (intro exI[of _ "3 + m"] exI[of _ st'] conjI) simp_all
    qed
  qed
qed simp

text \<open>A call returns to its caller and runs the instructions of the selected case, or none.\<close>

lemma call_runs:
  "\<exists>st m st'. zcall prog f a = Some st \<and> m \<le> 3 * n + k + 9 \<and> zsteps m prog st = Some st' \<and> returned st'
    \<and> z_trace st' = (if lo \<le> a \<and> a < lo + n then tests (a - lo) else [])"
proof -
  obtain p q where pq: "prog = p @ func_code f lbl lo n bs @ q" using code by blast
  let ?r = "cases_code lbl lo n bs 0 @ end_code lbl @ q"
  have "prog = p @ Lbl f # LoadAddr ''t0'' ''stored_ra'' # StoreRa # ?r" by (simp add: pq func_code_def)
  from goto_in[OF unique this]
  have g: "goto prog f = Some (Lbl f # LoadAddr ''t0'' ''stored_ra'' # StoreRa # ?r)" .
  then obtain st where st: "zcall prog f a = Some st" by (simp add: zcall_def)
  have r: "\<exists>r'. ?r = Other # Other # r'
      \<and> goto prog (if n = 0 then lbl @ ''end'' else lbl @ show_nat lo) = Some r'"
  proof (cases n)
    case 0
    let ?t = "Lbl (lbl @ ''end'') # Other # LoadAddr ''t0'' ''stored_ra'' # LoadRa # Return # q"
    have "prog = (p @ [Lbl f, LoadAddr ''t0'' ''stored_ra'', StoreRa, Other, Other]) @ ?t"
      using 0 by (simp add: pq func_code_def cases_code_def end_code_def)
    from goto_in[OF unique this] show ?thesis using 0 by (simp add: cases_code_def end_code_def)
  next
    case (Suc d)
    let ?t = "tl (tl (case_code lbl lo (0 = n - 1) (bs 0))) @ cases_code lbl lo n bs 1 @ end_code lbl @ q"
    have t: "?t = Lbl (lbl @ show_nat lo) # tl ?t" by (simp add: case_code_def)
    have eq: "?r = Other # Other # ?t"
      using Suc cases_code_unfold[of 0 n] by (simp add: case_code_def)
    then have "prog = (p @ [Lbl f, LoadAddr ''t0'' ''stored_ra'', StoreRa, Other, Other]) @ ?t"
      by (simp add: pq func_code_def)
    then have "prog = (p @ [Lbl f, LoadAddr ''t0'' ''stored_ra'', StoreRa, Other, Other]) @ Lbl (lbl @ show_nat lo) # tl ?t"
      using t by metis
    from goto_in[OF unique this] have "goto prog (lbl @ show_nat lo) = Some ?t" using t by metis
    then show ?thesis using eq Suc by auto
  qed
  then obtain r' where r': "?r = Other # Other # r'"
    "goto prog (if n = 0 then lbl @ ''end'' else lbl @ show_nat lo) = Some r'" by blast
  let ?st = "st\<lparr>z_rest := r', z_t0 := Some ''stored_ra'', z_stored := Caller\<rparr>"
  have 1: "zsteps 5 prog st = Some ?st"
    using st g r'(1) by (auto simp: zcall_def numeral_eq_Suc zstep_def)
  have st0: "z_a0 st = Some a" "z_stack st = []" "z_trace st = []"
    using st g by (auto simp: zcall_def)
  have "\<exists>m st'. m \<le> 3 * n + k + 4 \<and> zsteps m prog ?st = Some st' \<and> returned st'
    \<and> z_trace st' = (if lo \<le> a \<and> a < lo + n then tests (a - lo) else [])"
  proof (cases "n = 0")
    case True
    then obtain st'' where 2: "zsteps 4 prog ?st = Some st''" "returned st''" "z_trace st'' = []"
      using run_end[of ?st] r'(2) st0 by auto
    then show ?thesis using True by (intro exI[of _ 4] exI[of _ st'']) auto
  next
    case False
    then show ?thesis using run_cases[of 0 ?st a] r'(2) st0 by auto
  qed
  then obtain m st' where 2: "m \<le> 3 * n + k + 4" "zsteps m prog ?st = Some st'" "returned st'"
    "z_trace st' = (if lo \<le> a \<and> a < lo + n then tests (a - lo) else [])" by blast
  have "zsteps (5 + m) prog st = Some st'" by (rule zsteps_trans[OF 1 2(2)])
  moreover have "5 + m \<le> 3 * n + k + 9" using 2(1) by simp
  ultimately show ?thesis using st 2(3,4) by blast
qed

text \<open>The same with the instructions of the cases in a list.\<close>

lemma call_runs_list:
  assumes "length ts = n" and "3 * n + k + 9 \<le> N" and "\<And>i. i < n \<Longrightarrow> ts ! i = tests i"
  shows "\<exists>st m st'. zcall prog f a = Some st \<and> m \<le> N \<and> zsteps m prog st = Some st' \<and> returned st'
    \<and> z_trace st' = (if lo \<le> a \<and> a < lo + length ts then ts ! (a - lo) else [])"
proof -
  obtain st m st' where 1: "zcall prog f a = Some st" "m \<le> 3 * n + k + 9" "zsteps m prog st = Some st'"
    "returned st'" "z_trace st' = (if lo \<le> a \<and> a < lo + n then tests (a - lo) else [])"
    using call_runs by blast
  moreover have "(if lo \<le> a \<and> a < lo + n then tests (a - lo) else []) =
      (if lo \<le> a \<and> a < lo + length ts then ts ! (a - lo) else [])"
    using assms(1) assms(3)[of "a - lo"] by auto
  moreover have "m \<le> N" using 1(2) assms(2) by simp
  ultimately show ?thesis by metis
qed

end

end
