(* ===== verification/ZcProps.thy ===== *)
theory ZcProps
  imports ZcExec
begin

text \<open>
  The generated test: the program that the lines of the generator are, the uniqueness of its
  labels, the five test functions as instances of the locale, and the contract between the
  header's lists of addresses and the assembly.
\<close>

subsection \<open>The generated program\<close>

definition zc_program :: "zinstr list" where
  "zc_program = map parse_instr asmFuncTemp"

lemma strip_blank: "py_strip (CHR '' '' # s) = py_strip s"
proof -
  have "lstrip_of is_ws (CHR '' '' # s) = lstrip_of is_ws s" by (simp add: lstrip_of_def is_ws_def)
  then show ?thesis by (simp add: py_strip_def)
qed

lemma last_show_nat: "is_digit (last (show_nat n))" "last (show_nat n) \<noteq> CHR '':''" "\<not> is_ws (last (show_nat n))"
proof -
  show d: "is_digit (last (show_nat n))" using show_nat_digits[of "last (show_nat n)" n] by simp
  show "last (show_nat n) \<noteq> CHR '':''" using d by (auto simp: is_digit_def)
  show "\<not> is_ws (last (show_nat n))" by (rule is_digit_not_ws[OF d])
qed

text \<open>How a line with one colon at its end, and one with a number, are read.\<close>

lemma parse_label:
  "l \<noteq> [] \<Longrightarrow> \<not> is_ws (hd l) \<Longrightarrow> parse_instr (l @ '':'') = Lbl l"
  by (simp add: parse_instr_def py_strip_id is_ws_def Let_def)

lemma parse_blank: "parse_instr (CHR '' '' # s) = parse_instr s"
  by (simp add: parse_instr_def strip_blank)

lemma parse_plain:
  assumes "s \<noteq> []" and "\<not> is_ws (hd s)" and "\<not> is_ws (last s)" and "last s \<noteq> CHR '':''"
  shows "parse_instr s =
     (if prefix ''li t1, '' s then LoadCase (digits_val 10 (drop 7 s))
      else if prefix ''bne a0, t1, '' s then BranchCase (drop 12 s)
      else if prefix ''j '' s then Jump (drop 2 s)
      else if prefix ''la '' s then LoadAddr (take 2 (drop 3 s)) (drop 7 s)
      else if s = ''sw ra, 0(t0)'' then StoreRa
      else if s = ''lw ra, 0(t0)'' then LoadRa
      else if s = ''jal ra, trigger_irq'' then CallIrq
      else if s = ''jalr'' @ [tab] @ ''x0, 0(ra)'' then Return
      else if prefix ''cm.'' s then Tested s
      else Other)"
proof -
  have "py_strip s = s" using assms by (intro py_strip_id) simp
  then show ?thesis using assms(1,4) by (simp add: parse_instr_def Let_def)
qed

lemma literal_ends: "\<not> is_ws c" if "c \<in> set ''abcdefghijklmnopqrstuvwxyz0123456789)_/''"
  using that by (auto simp: is_ws_def)

lemma parse_li: "parse_instr (''li t1, '' @ show_nat k) = LoadCase k"
  by (subst parse_plain) (simp_all add: last_show_nat literal_ends digits_val_show_nat)

lemma parse_branch:
  "parse_instr (''bne a0, t1, '' @ lbl @ show_nat k) = BranchCase (lbl @ show_nat k)"
  "parse_instr (''bne a0, t1, '' @ lbl @ ''end'') = BranchCase (lbl @ ''end'')"
  by (subst parse_plain; simp add: last_show_nat literal_ends)+

lemma parse_cm_push: "parse_instr (''cm.push {'' @ r @ ''}, -64'') = Tested (''cm.push {'' @ r @ ''}, -64'')"
  by (subst parse_plain) (simp_all add: literal_ends)

lemma parse_cm_pop: "parse_instr (''cm.pop {'' @ r @ ''}, 64'') = Tested (''cm.pop {'' @ r @ ''}, 64'')"
  by (subst parse_plain) (simp_all add: literal_ends)

lemma parse_cm_popret: "parse_instr (''cm.popret {'' @ r @ ''}, 64'') = Tested (''cm.popret {'' @ r @ ''}, 64'')"
  by (subst parse_plain) (simp_all add: literal_ends)

lemma parse_cm_popretz: "parse_instr (''cm.popretz {'' @ r @ ''}, 64'') = Tested (''cm.popretz {'' @ r @ ''}, 64'')"
  by (subst parse_plain) (simp_all add: literal_ends)

lemma parse_la_ra: "parse_instr (''la ra, '' @ t @ ''_ret'') = LoadAddr ''ra'' (t @ ''_ret'')"
  by (subst parse_plain) (simp_all add: literal_ends)

text \<open>A register name, as it stands at the end of a double move.\<close>

definition reg_name :: "string \<Rightarrow> bool" where
  "reg_name r \<longleftrightarrow> r \<noteq> [] \<and> \<not> is_ws (last r) \<and> last r \<noteq> CHR '':''"

lemma parse_cm_mv:
  assumes "reg_name r2"
  shows "parse_instr (''cm.mvsa01 '' @ r1 @ '', '' @ r2) = Tested (''cm.mvsa01 '' @ r1 @ '', '' @ r2)"
    and "parse_instr (''cm.mva01s '' @ r1 @ '', '' @ r2) = Tested (''cm.mva01s '' @ r1 @ '', '' @ r2)"
  using assms by (subst parse_plain; simp add: literal_ends reg_name_def)+

lemma parse_mv:
  "parse_instr (''mv '' @ r @ '', a2'') = Other" "parse_instr (''mv '' @ r @ '', a3'') = Other"
  by (subst parse_plain; simp add: literal_ends)+

lemma parse_fixed:
  "parse_instr [] = Other" "parse_instr ''nop'' = Other" "parse_instr ''//return to caller'' = Other"
  "parse_instr ''la t0, stored_ra'' = LoadAddr ''t0'' ''stored_ra''"
  "parse_instr ''sw ra, 0(t0)'' = StoreRa" "parse_instr ''lw ra, 0(t0)'' = LoadRa"
  "parse_instr ''jal ra, trigger_irq'' = CallIrq" "parse_instr (''jalr'' @ [tab] @ ''x0, 0(ra)'') = Return"
  "parse_instr ''j pp_case_end'' = Jump ''pp_case_end''" "parse_instr ''j pr_case_end'' = Jump ''pr_case_end''"
  "parse_instr ''j prz_case_end'' = Jump ''prz_case_end''" "parse_instr ''j sa_case_end'' = Jump ''sa_case_end''"
  "parse_instr ''j as_case_end'' = Jump ''as_case_end''"
  by code_simp+

lemma parse_case_label:
  assumes "lbl \<noteq> []" and "\<not> is_ws (hd lbl)"
  shows "parse_instr (lbl @ show_nat k @ '':'') = Lbl (lbl @ show_nat k)"
  using parse_label[of "lbl @ show_nat k"] assms by simp

lemma parse_ret_label:
  assumes "lbl \<noteq> []" and "\<not> is_ws (hd lbl)"
  shows "parse_instr (lbl @ show_nat k @ ''_ret:'') = Lbl (lbl @ show_nat k @ ''_ret'')"
  using parse_label[of "lbl @ show_nat k @ ''_ret''"] assms by simp

lemma parse_tags:
  "parse_instr (''push_'' @ show_nat k @ '':'') = Lbl (''push_'' @ show_nat k)"
  "parse_instr (''pop_'' @ show_nat k @ '':'') = Lbl (''pop_'' @ show_nat k)"
  "parse_instr (''popret_'' @ show_nat k @ '':'') = Lbl (''popret_'' @ show_nat k)"
  "parse_instr (''popretz_'' @ show_nat k @ '':'') = Lbl (''popretz_'' @ show_nat k)"
  "parse_instr (''mvsa_'' @ show_nat k @ '':'') = Lbl (''mvsa_'' @ show_nat k)"
  "parse_instr (''mvas_'' @ show_nat k @ '':'') = Lbl (''mvas_'' @ show_nat k)"
  "parse_instr (''popret_'' @ show_nat k @ ''_ret:'') = Lbl (''popret_'' @ show_nat k @ ''_ret'')"
  "parse_instr (''popretz_'' @ show_nat k @ ''_ret:'') = Lbl (''popretz_'' @ show_nat k @ ''_ret'')"
  by (rule parse_case_label parse_ret_label; simp add: literal_ends)+

lemma parse_la_tags:
  "parse_instr (''la ra, popret_'' @ show_nat k @ ''_ret'') = LoadAddr ''ra'' (''popret_'' @ show_nat k @ ''_ret'')"
  "parse_instr (''la ra, popretz_'' @ show_nat k @ ''_ret'') = LoadAddr ''ra'' (''popretz_'' @ show_nat k @ ''_ret'')"
  using parse_la_ra[of "''popret_'' @ show_nat k"] parse_la_ra[of "''popretz_'' @ show_nat k"] by simp_all

lemmas parse_lines = parse_blank parse_fixed
  parse_tags [unfolded append_Cons append_Nil] parse_la_tags [unfolded append_Cons append_Nil]
  parse_cm_push [unfolded append_Cons append_Nil] parse_cm_pop [unfolded append_Cons append_Nil]
  parse_cm_popret [unfolded append_Cons append_Nil] parse_cm_popretz [unfolded append_Cons append_Nil]
  parse_cm_mv [unfolded append_Cons append_Nil] parse_mv [unfolded append_Cons append_Nil]

lemma parse_case_head:
  assumes "lbl \<noteq> []" and "\<not> is_ws (hd lbl)"
  shows "map parse_instr (case_head lbl k final) = case_code lbl k final []"
  using parse_branch parse_li parse_case_label[OF assms]
  by (simp add: case_head_def case_code_def parse_blank parse_fixed)

lemma parse_func_end:
  assumes "lbl \<noteq> []" and "\<not> is_ws (hd lbl)"
  shows "map parse_instr (func_end lbl m) = end_code lbl @ replicate m Other"
proof -
  have "parse_instr (lbl @ ''end:'') = Lbl (lbl @ ''end'')"
    using parse_label[of "lbl @ ''end''"] assms by simp
  then show ?thesis using parse_fixed(8)
    by (simp add: func_end_def end_code_def parse_blank parse_fixed map_replicate_const)
qed

lemma parse_func_head:
  "f \<noteq> [] \<Longrightarrow> \<not> is_ws (hd f) \<Longrightarrow> map parse_instr (func_head f) = [Lbl f, LoadAddr ''t0'' ''stored_ra'', StoreRa]"
  using parse_label[of f] by (simp add: func_head_def parse_blank parse_fixed)

text \<open>The loop gives the lines and the tags of its rounds in order.\<close>

lemma case_loop_rounds:
  "case_loop body i xs =
    (concat (map (\<lambda>j. fst (body (i + j) (xs ! j))) [0 ..< length xs]),
     concat (map (\<lambda>j. snd (body (i + j) (xs ! j))) [0 ..< length xs]))"
proof (induction xs arbitrary: i)
  case (Cons x xs)
  have shift: "map (\<lambda>j. g (body (i + j) ((x # xs) ! j))) [0 ..< length (x # xs)] =
      g (body i x) # map (\<lambda>j. g (body (Suc i + j) (xs ! j))) [0 ..< length xs]" for g :: "string list \<times> string list \<Rightarrow> string list"
    by (simp add: upt_conv_Cons map_Suc_upt[symmetric] comp_def del: upt_Suc)
  show ?case unfolding shift by (simp add: Cons.IH split: prod.split)
qed simp

lemma parse_function:
  assumes "\<And>j. j < length xs \<Longrightarrow>
      map parse_instr (fst (body j (xs ! j))) = case_code lbl (lo + j) (j = length xs - 1) (bs j)"
    and "f \<noteq> []" and "\<not> is_ws (hd f)" and "lbl \<noteq> []" and "\<not> is_ws (hd lbl)"
  shows "map parse_instr (func_head f @ fst (case_loop body 0 xs) @ func_end lbl m) =
    func_code f lbl lo (length xs) bs @ replicate m Other"
proof -
  have "map parse_instr (fst (case_loop body 0 xs)) = cases_code lbl lo (length xs) bs 0"
    unfolding cases_code_def case_loop_rounds map_concat fst_conv map_map
    by (intro arg_cong[of _ _ concat] map_cong) (simp_all add: assms(1))
  then show ?thesis using assms by (simp add: parse_func_head parse_func_end func_code_def)
qed

subsection \<open>The five functions\<close>

definition push_text :: "nat \<Rightarrow> string" where
  "push_text i = ''cm.push {'' @ pushPopRlists ! i @ ''}, -64''"

definition pop_text :: "string \<Rightarrow> nat \<Rightarrow> string" where
  "pop_text what i = ''cm.'' @ what @ '' {'' @ pushPopRlists ! i @ ''}, 64''"

definition mv_text :: "string \<Rightarrow> nat \<Rightarrow> string" where
  "mv_text what i = ''cm.'' @ what @ '' '' @ fst (sreg_pairs ! i) @ '', '' @ snd (sreg_pairs ! i)"

definition pp_block :: "nat \<Rightarrow> zinstr list" where
  "pp_block i = [CallIrq, Lbl (''push_'' @ show_nat i), Tested (push_text i), Other, Other, Other,
     CallIrq, Lbl (''pop_'' @ show_nat i), Tested (pop_text ''pop'' i), Other, Other, Jump ''pp_case_end'', Other]"

definition ret_block :: "string \<Rightarrow> string \<Rightarrow> nat \<Rightarrow> zinstr list" where
  "ret_block what lbl i =
     [LoadAddr ''ra'' (what @ ''_'' @ show_nat i @ ''_ret''), Tested (push_text i), CallIrq,
      Lbl (what @ ''_'' @ show_nat i), Tested (pop_text what i), Lbl (what @ ''_'' @ show_nat i @ ''_ret''),
      Other, Other, Jump (lbl @ ''end''), Other]"

definition mv_block :: "string \<Rightarrow> string \<Rightarrow> string \<Rightarrow> nat \<Rightarrow> zinstr list" where
  "mv_block what tag lbl i =
     [Other, Other, CallIrq, Lbl (tag @ ''_'' @ show_nat i), Tested (mv_text what i), Other, Other,
      Jump (lbl @ ''end''), Other]"

lemma case_code_append: "case_code lbl k final b = case_code lbl k final [] @ b"
  by (simp add: case_code_def)

lemma numbers: "length pushPopRlists = 12" "length sreg_pairs = 16" "length sreg1List * length sreg2List = 16"
  by code_simp+

lemma reg_names: "i < 16 \<Longrightarrow> reg_name (snd (sreg_pairs ! i))"
proof -
  have "list_all (\<lambda>p. reg_name (snd p)) sreg_pairs" by code_simp
  then show "i < 16 \<Longrightarrow> reg_name (snd (sreg_pairs ! i))" by (simp add: list_all_length numbers)
qed

lemma parse_pushpop:
  "map parse_instr (fst pushpop_func) =
    func_code ''interrupt_push_pop'' ''pp_case_'' 4 12 pp_block @ replicate 3 Other"
proof -
  have "map parse_instr (fst (pushpop_case 12 j (pushPopRlists ! j))) =
      case_code ''pp_case_'' (4 + j) (j = 12 - 1) (pp_block j)" for j
    using parse_case_head[of "''pp_case_''" "4 + j" "j = 12 - 1"] case_code_append[of _ _ _ "pp_block j"]
    by (simp add: pushpop_case_def PUSH_POP_RLIST_LOW_def pp_block_def push_text_def pop_text_def
        literal_ends parse_lines)
  then show ?thesis
    using parse_function[of pushPopRlists "pushpop_case 12" "''pp_case_''" 4 pp_block "''interrupt_push_pop''" 3]
    by (simp add: pushpop_func_def funcTags_def numbers literal_ends case_prod_beta)
qed

lemma parse_popret:
  "map parse_instr (fst popret_func) =
    func_code ''interrupt_popret'' ''pr_case_'' 4 12 (ret_block ''popret'' ''pr_case_'')"
proof -
  have "map parse_instr (fst (popret_case 12 j (pushPopRlists ! j))) =
      case_code ''pr_case_'' (4 + j) (j = 12 - 1) (ret_block ''popret'' ''pr_case_'' j)" for j
    using parse_case_head[of "''pr_case_''" "4 + j" "j = 12 - 1"]
      case_code_append[of _ _ _ "ret_block ''popret'' ''pr_case_'' j"]
    by (simp add: popret_case_def PUSH_POP_RLIST_LOW_def ret_block_def push_text_def pop_text_def
        literal_ends parse_lines)
  then show ?thesis
    using parse_function[of pushPopRlists "popret_case 12" "''pr_case_''" 4 "ret_block ''popret'' ''pr_case_''"
        "''interrupt_popret''" 0]
    by (simp add: popret_func_def funcTags_def numbers literal_ends case_prod_beta)
qed

lemma parse_popretz:
  "map parse_instr (fst popretz_func) =
    func_code ''interrupt_popretz'' ''prz_case_'' 4 12 (ret_block ''popretz'' ''prz_case_'')"
proof -
  have "map parse_instr (fst (popretz_case 12 j (pushPopRlists ! j))) =
      case_code ''prz_case_'' (4 + j) (j = 12 - 1) (ret_block ''popretz'' ''prz_case_'' j)" for j
    using parse_case_head[of "''prz_case_''" "4 + j" "j = 12 - 1"]
      case_code_append[of _ _ _ "ret_block ''popretz'' ''prz_case_'' j"]
    by (simp add: popretz_case_def PUSH_POP_RLIST_LOW_def ret_block_def push_text_def pop_text_def
        literal_ends parse_lines)
  then show ?thesis
    using parse_function[of pushPopRlists "popretz_case 12" "''prz_case_''" 4 "ret_block ''popretz'' ''prz_case_''"
        "''interrupt_popretz''" 0]
    by (simp add: popretz_func_def funcTags_def numbers literal_ends case_prod_beta)
qed

lemma parse_mvsa:
  "map parse_instr (fst mvsa_func) =
    func_code ''interrupt_mvsa'' ''sa_case_'' 0 16 (mv_block ''mvsa01'' ''mvsa'' ''sa_case_'') @ replicate 3 Other"
proof -
  have "map parse_instr (fst (mvsa_case 16 j (sreg_pairs ! j))) =
      case_code ''sa_case_'' j (j = 16 - 1) (mv_block ''mvsa01'' ''mvsa'' ''sa_case_'' j)" if "j < 16" for j
    using parse_case_head[of "''sa_case_''" j "j = 16 - 1"] reg_names[OF that]
      case_code_append[of _ _ _ "mv_block ''mvsa01'' ''mvsa'' ''sa_case_'' j"]
    by (simp add: mvsa_case_def mv_block_def mv_text_def literal_ends parse_lines)
  then show ?thesis
    using parse_function[of sreg_pairs "mvsa_case 16" "''sa_case_''" 0 "mv_block ''mvsa01'' ''mvsa'' ''sa_case_''"
        "''interrupt_mvsa''" 3]
    by (simp add: mvsa_func_def funcTags_def numbers literal_ends case_prod_beta)
qed

lemma parse_mvas:
  "map parse_instr (fst mvas_func) =
    func_code ''interrupt_mvas'' ''as_case_'' 0 16 (mv_block ''mva01s'' ''mvas'' ''as_case_'') @ replicate 3 Other"
proof -
  have "map parse_instr (fst (mvas_case 16 j (sreg_pairs ! j))) =
      case_code ''as_case_'' j (j = 16 - 1) (mv_block ''mva01s'' ''mvas'' ''as_case_'' j)" if "j < 16" for j
    using parse_case_head[of "''as_case_''" j "j = 16 - 1"] reg_names[OF that]
      case_code_append[of _ _ _ "mv_block ''mva01s'' ''mvas'' ''as_case_'' j"]
    by (simp add: mvas_case_def mv_block_def mv_text_def literal_ends parse_lines)
  then show ?thesis
    using parse_function[of sreg_pairs "mvas_case 16" "''as_case_''" 0 "mv_block ''mva01s'' ''mvas'' ''as_case_''"
        "''interrupt_mvas''" 3]
    by (simp add: mvas_func_def funcTags_def numbers literal_ends case_prod_beta)
qed

lemma program_functions:
  "zc_program =
    func_code ''interrupt_push_pop'' ''pp_case_'' 4 12 pp_block @ replicate 3 Other
    @ func_code ''interrupt_popret'' ''pr_case_'' 4 12 (ret_block ''popret'' ''pr_case_'')
    @ func_code ''interrupt_popretz'' ''prz_case_'' 4 12 (ret_block ''popretz'' ''prz_case_'')
    @ func_code ''interrupt_mvsa'' ''sa_case_'' 0 16 (mv_block ''mvsa01'' ''mvsa'' ''sa_case_'') @ replicate 3 Other
    @ func_code ''interrupt_mvas'' ''as_case_'' 0 16 (mv_block ''mva01s'' ''mvas'' ''as_case_'') @ replicate 3 Other"
  by (simp add: zc_program_def asmFuncTemp_def parse_pushpop parse_popret parse_popretz parse_mvsa parse_mvas)

subsection \<open>Every label is defined once\<close>

lemma labels_cases:
  "labels (cases_code lbl lo n bs i) = concat (map (\<lambda>j. (lbl @ show_nat (lo + j)) # labels (bs j)) [i ..< n])"
proof (induction "n - i" arbitrary: i)
  case (Suc d)
  then have "i < n" by simp
  with Suc show ?case
    by (simp add: cases_code_unfold case_code_def upt_conv_Cons)
qed (simp add: cases_code_def)

lemma labels_func:
  "labels (func_code f lbl lo n bs) =
    f # concat (map (\<lambda>j. (lbl @ show_nat (lo + j)) # labels (bs j)) [0 ..< n]) @ [lbl @ ''end'']"
  by (simp add: func_code_def labels_cases end_code_def)

lemma labels_blocks:
  "labels (pp_block i) = [''push_'' @ show_nat i, ''pop_'' @ show_nat i]"
  "labels (ret_block what lbl i) = [what @ ''_'' @ show_nat i, what @ ''_'' @ show_nat i @ ''_ret'']"
  "labels (mv_block op tag lbl i) = [tag @ ''_'' @ show_nat i]"
  by (simp_all add: pp_block_def ret_block_def mv_block_def)

lemma labels_other: "labels (replicate n Other) = []"
  by (induction n) simp_all

lemma distinct_rounds:
  assumes "\<And>i. distinct (g i)" and "\<And>i j. i \<noteq> j \<Longrightarrow> set (g i) \<inter> set (g j) = {}"
  shows "distinct (concat (map g [0 ..< n]))"
proof (induction n)
  case (Suc n)
  have "set (g i) \<inter> set (g n) = {}" if "i < n" for i using assms(2)[of i n] that by simp
  with Suc assms(1)[of n] show ?case by fastforce
qed simp

lemma show_nat_plain: "c \<in> set (show_nat n) \<Longrightarrow> c \<noteq> CHR ''_'' \<and> c \<noteq> CHR ''e''"
  using show_nat_digits[of c n] by (auto simp: is_digit_def)

lemma show_nat_neq:
  "show_nat i \<noteq> show_nat j @ CHR ''_'' # r" "show_nat j @ CHR ''_'' # r \<noteq> show_nat i"
  "show_nat i \<noteq> CHR ''e'' # r" "CHR ''e'' # r \<noteq> show_nat i"
proof -
  show 1: "show_nat i \<noteq> show_nat j @ CHR ''_'' # r"
  proof
    assume e: "show_nat i = show_nat j @ CHR ''_'' # r"
    have "CHR ''_'' \<in> set (show_nat i)" by (subst e) simp
    then show False using show_nat_plain by blast
  qed
  then show "show_nat j @ CHR ''_'' # r \<noteq> show_nat i" by metis
  show 2: "show_nat i \<noteq> CHR ''e'' # r"
  proof
    assume e: "show_nat i = CHR ''e'' # r"
    have "CHR ''e'' \<in> set (show_nat i)" by (subst e) simp
    then show False using show_nat_plain by blast
  qed
  then show "CHR ''e'' # r \<noteq> show_nat i" by metis
qed

lemma labels_unique: "distinct (labels zc_program)"
  unfolding program_functions labels_simps labels_func labels_blocks labels_other
  by (auto simp: show_nat_neq intro!: distinct_rounds)

subsection \<open>Calls of the test functions\<close>

lemma tested_push: "run_tested p (push_text i) st =
    Some (st\<lparr>z_trace := z_trace st @ [push_text i], z_stack := z_ra st # z_stack st\<rparr>)"
  by (simp add: run_tested_def push_text_def)

lemma tested_pop: "z_stack st = a # as \<Longrightarrow> run_tested p (pop_text ''pop'' i) st =
    Some (st\<lparr>z_trace := z_trace st @ [pop_text ''pop'' i], z_ra := a, z_stack := as\<rparr>)"
  by (simp add: run_tested_def pop_text_def)

lemma tested_popret:
  assumes "z_stack st = At l # as" and "goto p l = Some r" and "what = ''popret'' \<or> what = ''popretz''"
  shows "\<exists>st'. run_tested p (pop_text what i) st = Some st' \<and> z_rest st' = r \<and> z_stack st' = as
    \<and> z_stored st' = z_stored st \<and> z_trace st' = z_trace st @ [pop_text what i]"
  using assms by (auto simp: run_tested_def pop_text_def jump_to_def)

lemma tested_mv:
  assumes "what = ''mvsa01'' \<or> what = ''mva01s''"
  shows "\<exists>st'. run_tested p (mv_text what i) st = Some st' \<and> z_rest st' = z_rest st \<and> z_stack st' = z_stack st
    \<and> z_stored st' = z_stored st \<and> z_trace st' = z_trace st @ [mv_text what i]"
  using assms by (auto simp: run_tested_def mv_text_def)

lemma run_pp_block:
  assumes "goto p (''pp_case_'' @ ''end'') = Some r" and "z_rest st = pp_block i @ b"
  shows "\<exists>m st'. m \<le> 12 \<and> zsteps m p st = Some st' \<and> z_rest st' = r \<and> z_stack st' = z_stack st
    \<and> z_stored st' = z_stored st \<and> z_trace st' = z_trace st @ [push_text i, pop_text ''pop'' i]"
proof -
  have g: "goto p ''pp_case_end'' = Some r" using assms(1) by simp
  have "\<exists>st'. zsteps 12 p st = Some st' \<and> z_rest st' = r \<and> z_stack st' = z_stack st
    \<and> z_stored st' = z_stored st \<and> z_trace st' = z_trace st @ [push_text i, pop_text ''pop'' i]"
    using assms(2) g by (simp add: pp_block_def numeral_eq_Suc zstep_def tested_push tested_pop jump_to_def)
  then show ?thesis by blast
qed

lemma run_ret_block:
  assumes "distinct (labels p)" and "p = a @ ret_block what lbl i @ b"
    and "goto p (lbl @ ''end'') = Some r" and "z_rest st = ret_block what lbl i @ b"
    and "what = ''popret'' \<or> what = ''popretz''"
  shows "\<exists>m st'. m \<le> 12 \<and> zsteps m p st = Some st' \<and> z_rest st' = r \<and> z_stack st' = z_stack st
    \<and> z_stored st' = z_stored st \<and> z_trace st' = z_trace st @ [push_text i, pop_text what i]"
proof -
  let ?l = "what @ ''_'' @ show_nat i @ ''_ret''"
  let ?r = "Lbl ?l # Other # Other # Jump (lbl @ ''end'') # Other # b"
  have "p = (a @ [LoadAddr ''ra'' ?l, Tested (push_text i), CallIrq, Lbl (what @ ''_'' @ show_nat i),
      Tested (pop_text what i)]) @ ?r"
    using assms(2) by (simp add: ret_block_def)
  from goto_in[OF assms(1) this] have g: "goto p ?l = Some ?r" .
  have "\<exists>st0. zsteps 4 p st = Some st0 \<and> z_rest st0 = Tested (pop_text what i) # ?r
      \<and> z_stack st0 = At ?l # z_stack st \<and> z_stored st0 = z_stored st \<and> z_trace st0 = z_trace st @ [push_text i]"
    using assms(4) by (simp add: ret_block_def numeral_eq_Suc zstep_def tested_push)
  then obtain st0 where 0: "zsteps 4 p st = Some st0" "z_rest st0 = Tested (pop_text what i) # ?r"
    "z_stack st0 = At ?l # z_stack st" "z_stored st0 = z_stored st" "z_trace st0 = z_trace st @ [push_text i]" by blast
  obtain st1 where st1: "zstep p st0 = Some st1" "z_rest st1 = ?r" "z_stack st1 = z_stack st"
      "z_stored st1 = z_stored st" "z_trace st1 = z_trace st @ [push_text i, pop_text what i]"
    using tested_popret[of "st0\<lparr>z_rest := ?r\<rparr>" ?l "z_stack st" p ?r what i] g assms(5) 0(2-5)
    by (auto simp: zstep_def)
  have 1: "zsteps (4 + 1) p st = Some st1" by (rule zsteps_trans[OF 0(1)]) (simp add: st1(1))
  have "\<exists>st'. zsteps 4 p st1 = Some st' \<and> z_rest st' = r \<and> z_stack st' = z_stack st1
      \<and> z_stored st' = z_stored st1 \<and> z_trace st' = z_trace st1"
    using st1(2) assms(3) by (simp add: numeral_eq_Suc zstep_def jump_to_def)
  then obtain st' where 2: "zsteps 4 p st1 = Some st'" "z_rest st' = r" "z_stack st' = z_stack st"
      "z_stored st' = z_stored st" "z_trace st' = z_trace st @ [push_text i, pop_text what i]"
    using st1 by auto
  have "zsteps (4 + 1 + 4) p st = Some st'" by (rule zsteps_trans[OF 1 2(1)])
  then show ?thesis using 2 by (intro exI[of _ "4 + 1 + 4"] exI[of _ st']) simp
qed

lemma run_mv_block:
  assumes "goto p (lbl @ ''end'') = Some r" and "z_rest st = mv_block what tag lbl i @ b"
    and "what = ''mvsa01'' \<or> what = ''mva01s''"
  shows "\<exists>m st'. m \<le> 12 \<and> zsteps m p st = Some st' \<and> z_rest st' = r \<and> z_stack st' = z_stack st
    \<and> z_stored st' = z_stored st \<and> z_trace st' = z_trace st @ [mv_text what i]"
proof -
  let ?r = "Other # Other # Jump (lbl @ ''end'') # Other # b"
  have "\<exists>st0. zsteps 4 p st = Some st0 \<and> z_rest st0 = Tested (mv_text what i) # ?r
      \<and> z_stack st0 = z_stack st \<and> z_stored st0 = z_stored st \<and> z_trace st0 = z_trace st"
    using assms(2) by (simp add: mv_block_def numeral_eq_Suc zstep_def)
  then obtain st0 where 0: "zsteps 4 p st = Some st0" "z_rest st0 = Tested (mv_text what i) # ?r"
    "z_stack st0 = z_stack st" "z_stored st0 = z_stored st" "z_trace st0 = z_trace st" by blast
  obtain st1 where st1: "zstep p st0 = Some st1" "z_rest st1 = ?r" "z_stack st1 = z_stack st"
      "z_stored st1 = z_stored st" "z_trace st1 = z_trace st @ [mv_text what i]"
    using tested_mv[of what p i "st0\<lparr>z_rest := ?r\<rparr>"] assms(3) 0(2-5) by (auto simp: zstep_def)
  have 1: "zsteps (4 + 1) p st = Some st1" by (rule zsteps_trans[OF 0(1)]) (simp add: st1(1))
  have "\<exists>st'. zsteps 3 p st1 = Some st' \<and> z_rest st' = r \<and> z_stack st' = z_stack st1
      \<and> z_stored st' = z_stored st1 \<and> z_trace st' = z_trace st1"
    using st1(2) assms(1) by (simp add: numeral_eq_Suc zstep_def jump_to_def)
  then obtain st' where 2: "zsteps 3 p st1 = Some st'" "z_rest st' = r" "z_stack st' = z_stack st"
      "z_stored st' = z_stored st" "z_trace st' = z_trace st @ [mv_text what i]"
    using st1 by auto
  have "zsteps (4 + 1 + 3) p st = Some st'" by (rule zsteps_trans[OF 1 2(1)])
  then show ?thesis using 2 by (intro exI[of _ "4 + 1 + 3"] exI[of _ st']) simp
qed

lemma program_code:
  "\<exists>a b. zc_program = a @ func_code ''interrupt_push_pop'' ''pp_case_'' 4 12 pp_block @ b"
  "\<exists>a b. zc_program = a @ func_code ''interrupt_popret'' ''pr_case_'' 4 12 (ret_block ''popret'' ''pr_case_'') @ b"
  "\<exists>a b. zc_program = a @ func_code ''interrupt_popretz'' ''prz_case_'' 4 12 (ret_block ''popretz'' ''prz_case_'') @ b"
  "\<exists>a b. zc_program = a @ func_code ''interrupt_mvsa'' ''sa_case_'' 0 16 (mv_block ''mvsa01'' ''mvsa'' ''sa_case_'') @ b"
  "\<exists>a b. zc_program = a @ func_code ''interrupt_mvas'' ''as_case_'' 0 16 (mv_block ''mva01s'' ''mvas'' ''as_case_'') @ b"
  unfolding program_functions by (metis append.assoc append_Nil)+

interpretation pp: case_function zc_program "''interrupt_push_pop''" "''pp_case_''" 4 12 pp_block 12
  "\<lambda>i. [push_text i, pop_text ''pop'' i]"
  by unfold_locales (use program_code(1) labels_unique run_pp_block in auto)

interpretation pr: case_function zc_program "''interrupt_popret''" "''pr_case_''" 4 12
  "ret_block ''popret'' ''pr_case_''" 12 "\<lambda>i. [push_text i, pop_text ''popret'' i]"
  by unfold_locales (use program_code(2) labels_unique run_ret_block[OF labels_unique] in auto)

interpretation prz: case_function zc_program "''interrupt_popretz''" "''prz_case_''" 4 12
  "ret_block ''popretz'' ''prz_case_''" 12 "\<lambda>i. [push_text i, pop_text ''popretz'' i]"
  by unfold_locales (use program_code(3) labels_unique run_ret_block[OF labels_unique] in auto)

interpretation sa: case_function zc_program "''interrupt_mvsa''" "''sa_case_''" 0 16
  "mv_block ''mvsa01'' ''mvsa'' ''sa_case_''" 12 "\<lambda>i. [mv_text ''mvsa01'' i]"
proof unfold_locales
  show "\<exists>a b. zc_program = a @ func_code ''interrupt_mvsa'' ''sa_case_'' 0 16 (mv_block ''mvsa01'' ''mvsa'' ''sa_case_'') @ b"
    by (rule program_code(4))
qed (rule labels_unique, rule run_mv_block, simp_all)

interpretation as: case_function zc_program "''interrupt_mvas''" "''as_case_''" 0 16
  "mv_block ''mva01s'' ''mvas'' ''as_case_''" 12 "\<lambda>i. [mv_text ''mva01s'' i]"
proof unfold_locales
  show "\<exists>a b. zc_program = a @ func_code ''interrupt_mvas'' ''as_case_'' 0 16 (mv_block ''mva01s'' ''mvas'' ''as_case_'') @ b"
    by (rule program_code(5))
qed (rule labels_unique, rule run_mv_block, simp_all)


text \<open>
  C31: each generated function tests what its argument selects.  Called with any argument, a
  function returns to its caller with a balanced stack, within 69 instructions, and the
  instructions under test that it has run are those of the selected case: a push and a pop, a
  push and a returning pop, or a double move, for the register list or the pair of registers
  with that number, counted from 4 or from 0; with an argument out of range it runs none.  This
  includes the returning pops, whose return address is taken from the stack.
\<close>

theorem zc_calls_run_selected_case:
  "list_all (\<lambda>(f, lo, tests).
     \<exists>st m st'. zcall zc_program f a = Some st \<and> m \<le> 69 \<and> zsteps m zc_program st = Some st' \<and> returned st'
       \<and> z_trace st' = (if lo \<le> a \<and> a < lo + length tests then tests ! (a - lo) else []))
   [(''interrupt_push_pop'', 4, map (\<lambda>r. [''cm.push {'' @ r @ ''}, -64'', ''cm.pop {'' @ r @ ''}, 64'']) pushPopRlists),
    (''interrupt_popret'', 4, map (\<lambda>r. [''cm.push {'' @ r @ ''}, -64'', ''cm.popret {'' @ r @ ''}, 64'']) pushPopRlists),
    (''interrupt_popretz'', 4, map (\<lambda>r. [''cm.push {'' @ r @ ''}, -64'', ''cm.popretz {'' @ r @ ''}, 64'']) pushPopRlists),
    (''interrupt_mvsa'', 0, map (\<lambda>p. [''cm.mvsa01 '' @ fst p @ '', '' @ snd p]) sreg_pairs),
    (''interrupt_mvas'', 0, map (\<lambda>p. [''cm.mva01s '' @ fst p @ '', '' @ snd p]) sreg_pairs)]"
  unfolding list.pred_inject prod.case
  by (intro conjI TrueI pp.call_runs_list pr.call_runs_list prz.call_runs_list sa.call_runs_list as.call_runs_list)
     (simp_all add: numbers push_text_def pop_text_def mv_text_def)







end
