(* ===== verification/Spec2Isabelle.thy ===== *)
theory Spec2Isabelle
  imports ItbProps CvProps MakeProps RiscofProps EmbenchProps CiProps MetricsProps ZcProps
begin

text \<open>
  Verification development of the Python tooling of cv32e40x-dv, the environment in which the
  CV32E40X RISC-V core is verified.  The core's testbench, written in SystemVerilog, is not its
  subject; the scripts are that decide which tests are built and run, with which commands, and
  what their results mean.

  \<^bold>\<open>The program and how its parts interact.\<close>  A regression starts from YAML files.
  \<^verbatim>\<open>bin/cv_regress\<close> reads them into the objects of
  \<^verbatim>\<open>bin/lib/cv_regression.py\<close> and renders shell, JSON or VSIF output;
  \<^verbatim>\<open>bin/ci_check\<close> runs a list of tests and judges the log files;
  \<^verbatim>\<open>bin/metrics-regress\<close> starts a regression on a server and waits for it.  The
  makefiles that run one test call \<^verbatim>\<open>bin/yaml2make\<close> and
  \<^verbatim>\<open>bin/cfgyaml2make\<close> to turn YAML specifications into make variables, and
  \<^verbatim>\<open>bin/objdump2itb\<close> to turn a disassembly into an instruction table.  The three
  plugins under \<^verbatim>\<open>sim/riscof\<close> compile and run the architectural tests,
  \<^verbatim>\<open>bin/run_embench.py\<close> with \<^verbatim>\<open>tests/embench/pylib/run_corev32.py\<close>
  runs the Embench benchmarks, and \<^verbatim>\<open>zc_gen.py\<close> generates a directed test.

  \<^bold>\<open>Shared theories.\<close>  \<open>PyPrelude\<close>: exceptions as values (\<open>pyexc\<close>,
  \<open>'a res = pyexc + 'a\<close>), loops that may raise (\<open>foldE\<close>, \<open>mapE\<close>), Python's string and
  path functions.  \<open>PyRegex\<close>: regular expressions with backtracking matching.
  \<open>PyValue\<close>: the values of YAML and JSON (\<open>pyval\<close>), insertion-ordered dictionaries with
  the locale \<open>ordered_dict\<close> of their laws, and objects as dictionaries of attributes.
  \<open>PyIO\<close>: a script that acts on the outside is the list of its effects with its result.
  \<open>PyFloat\<close>: rounding to 53 bits.

  \<^bold>\<open>Components.\<close>
  \<^item> \<open>Objdump2itb\<close>, \<open>ItbCorrect\<close>, \<open>ItbProps\<close> for \<^verbatim>\<open>bin/objdump2itb\<close>.  The state
    \<open>itb_state\<close> is the parser's local variables, \<open>itb_line\<close> the body of its loop,
    \<open>itb_parse\<close> the function.  An abstract machine over classified lines (\<open>view_step\<close>) and a
    reader of the file format (\<open>read_itb\<close>) state what the output means: refinement, round
    trip, no lost instruction, the one exception, bounds on the entries.
  \<^item> \<open>CvRegression\<close>, \<open>CvRegress\<close>, \<open>CvRegressProps\<close>, \<open>CvProps\<close> for
    \<^verbatim>\<open>bin/lib/cv_regression.py\<close> and \<^verbatim>\<open>bin/cv_regress\<close>.  The record
    \<open>regression\<close> is the class, \<open>read_file\<close> the reading of one YAML, \<open>outputs\<close> and
    \<open>perform\<close> the writing.  The locale \<open>regression_store\<close> states what a regression promises
    the script that fills it.  Consistency of what was read, the origin of every attribute of a
    test, failures of adding, complementary queries, first definition of a build, and what is
    written when, also when a write fails.
  \<^item> \<open>MakeEmit\<close>, \<open>Yaml2make\<close>, \<open>Cfgyaml2make\<close>, \<open>MakeProps\<close> for the two generators of make
    variables, with a file system of which any call may fail and the opening and closing of
    every file as an effect.  The locale \<open>spec_reader\<close> covers both readers.  Round trips
    through the printed file, the values of a specification, exact success conditions, files
    left open, and files left behind.
  \<^item> \<open>Riscof\<close>, \<open>RiscofCv\<close>, \<open>RiscofSail\<close>, \<open>RiscofSpike\<close>, \<open>RiscofProps\<close> for the plugins of
    the device, of Sail (with docker) and of Spike.  A run is the list of what it asks of
    RISCOF's make utility (\<open>run_effect\<close>).  The locale \<open>test_loop\<close> covers the loops over the
    tests.  Full command lines, one target per test, what is executed and when, and the
    agreement of the three architecture strings.
  \<^item> \<open>Embench\<close>, \<open>EmbenchProps\<close> for the benchmark runner and its target module: what an exit
    status of zero means, the target, the choice of the log file, and the accuracy of the float
    computations of the score and of the run time.
  \<^item> \<open>CiCheck\<close>, \<open>CiProps\<close> for \<^verbatim>\<open>bin/ci_check\<close>: the verdict on a pull request, the
    commands issued for any list of tests, and the variable that a test with one iteration
    leaves as it was.
  \<^item> \<open>MetricsRegress\<close>, \<open>MetricsProps\<close> for \<^verbatim>\<open>bin/metrics-regress\<close>: exit status and
    return against any server that answers in the expected form.
  \<^item> \<open>ZcGen\<close>, \<open>ZcExec\<close>, \<open>ZcProps\<close> for
    \<^verbatim>\<open>tests/programs/custom/zc_test/test_gen/zc_gen.py\<close>: the lines of both generated
    files, a machine that runs the generated assembly, and the locale \<open>case_function\<close>, an
    instance of which each of the five generated functions is.

  \<^bold>\<open>Parameters.\<close>  Code outside the repository's sources is an argument of the
  definitions that use it, mostly a field of a record of the surroundings: the file system, the
  environment, PyYAML and JSON (the value of a document, or an exception), the processes that
  scripts start (the text they print), the server, RISCOF's base class, \<^verbatim>\<open>isac\<close> and
  make utility, the location of a script.  Properties that rest on it name what they use as a
  hypothesis: that the mappings PyYAML returns have distinct keys, that a server's answer has
  the documented items, that a directory listing fails only with an operating-system error.

  \<^bold>\<open>Bounds and approximations.\<close>  Recursion is structural or has a measure; the polling
  loops of \<^verbatim>\<open>bin/metrics-regress\<close> may run forever and are a
  \<^verbatim>\<open>partial_function\<close> into options, where not returning is \<open>None\<close>.  The machine of
  \<open>ZcExec\<close> runs a given number of steps, and its theorem says which number is enough.  Strings
  hold the characters below 256; upper and lower case are changed for ASCII letters only; the
  keys of mappings are strings; a float inside a YAML or JSON value is the text Python prints for
  it; computed floats are rationals rounded to 53 bits without a bound on the exponent.

  \<^bold>\<open>Not modelled.\<close>  The parsing of command lines by argparse (a record holds its
  result), log and progress messages that nothing reads back, the text that jinja2 renders from
  its templates (a rendered file is the template with its arguments), waiting times, and the
  network.  The testbench, the test programs, the makefiles, the shell and Perl helpers and
  vendored files are no Python of the repository's own.
\<close>

end
